(* ===== verification/Prelude.thy ===== *)
theory Prelude
  imports Main "HOL-Library.Word" "HOL-Library.Monad_Syntax"
begin

text \<open>
  Shared ground of the development: names for Rust's integer types, the two ways a Rust
  computation can end other than by returning a value, and the list, option and map facts the
  components use.

  A \<^emph>\<open>panic\<close> (a failed \<^verbatim>\<open>expect\<close>, an arithmetic overflow, an index out of bounds) is the value
  \<open>None\<close> of an option; the bodies are written in the option monad, so a panic anywhere is a
  panic of the whole call. A \<^emph>\<open>returned error\<close> is a \<open>Result\<close>, here a sum whose left side is
  the error. An operation that can do both has type \<open>('e + 'a) option\<close>.
\<close>

section \<open>Rust's integers\<close>

type_synonym u8 = "8 word"
type_synonym u16 = "16 word"
type_synonym u32 = "32 word"
type_synonym u64 = "64 word"
type_synonym u128 = "128 word"

text \<open>
  Lengths, indices and addresses of the store are \<open>usize\<close>, 64 bits wide on the targets the
  program is released for. They are natural numbers here, with overflow and underflow written
  out as panics.
\<close>

type_synonym usize = nat

definition usize_max :: usize where
  "usize_max = 18446744073709551615"

definition usize_add :: "usize \<Rightarrow> usize \<Rightarrow> usize option" where
  "usize_add a b = (if a + b \<le> usize_max then Some (a + b) else None)"

definition usize_sub :: "usize \<Rightarrow> usize \<Rightarrow> usize option" where
  "usize_sub a b = (if b \<le> a then Some (a - b) else None)"

section \<open>Results\<close>

type_synonym ('e, 'a) result = "'e + 'a"

abbreviation Err :: "'e \<Rightarrow> ('e, 'a) result" where
  "Err \<equiv> Inl"

abbreviation Ok :: "'a \<Rightarrow> ('e, 'a) result" where
  "Ok \<equiv> Inr"

section \<open>Collections of proof rules\<close>

text \<open>
  \<open>panic_free\<close> collects the equations that evaluate a checked operation where it does not
  panic; \<open>store_unfold\<close> the definitions of the register store that its proofs open together.
\<close>

named_theorems panic_free
named_theorems store_unfold

lemma usize_add_Some [panic_free]: "a + b \<le> usize_max \<Longrightarrow> usize_add a b = Some (a + b)"
  by (simp add: usize_add_def)

lemma usize_sub_Some [panic_free]: "b \<le> a \<Longrightarrow> usize_sub a b = Some (a - b)"
  by (simp add: usize_sub_def)

lemma usize_add_eq_Some [simp]:
  "usize_add a b = Some c \<longleftrightarrow> a + b \<le> usize_max \<and> c = a + b"
  by (auto simp: usize_add_def)

lemma usize_sub_eq_Some [simp]: "usize_sub a b = Some c \<longleftrightarrow> b \<le> a \<and> c = a - b"
  by (auto simp: usize_sub_def)

section \<open>Lists\<close>

text \<open>
  \<open>all_some\<close> is Rust's \<open>collect\<close> into an \<open>Option<Vec<_>>\<close>: the list of the values when every
  item is present, nothing as soon as one is missing.
\<close>

fun all_some :: "'a option list \<Rightarrow> 'a list option" where
  "all_some [] = Some []"
| "all_some (None # xs) = None"
| "all_some (Some x # xs) = map_option ((#) x) (all_some xs)"

lemma all_some_map_Some [simp]: "all_some (map (\<lambda>x. Some (f x)) xs) = Some (map f xs)"
  by (induction xs) auto

lemma all_some_eq_Some: "all_some xs = Some ys \<longleftrightarrow> xs = map Some ys"
proof (induction xs arbitrary: ys rule: all_some.induct)
  case (3 x xs)
  show ?case by (cases ys) (auto simp: 3)
qed auto

lemma all_some_cong_Some:
  "(\<And>x. x \<in> set xs \<Longrightarrow> f x = Some (g x)) \<Longrightarrow> all_some (map f xs) = Some (map g xs)"
  by (induction xs) auto

text \<open>
  \<open>upd_zip f cs vs\<close> is the loop over \<open>cs.iter_mut().zip(vs)\<close>: it rewrites as many leading
  elements of \<open>cs\<close> as there are values and leaves the rest alone.
\<close>

fun upd_zip :: "('c \<Rightarrow> 'v \<Rightarrow> 'c) \<Rightarrow> 'c list \<Rightarrow> 'v list \<Rightarrow> 'c list" where
  "upd_zip f [] vs = []"
| "upd_zip f (c # cs) [] = c # cs"
| "upd_zip f (c # cs) (v # vs) = f c v # upd_zip f cs vs"

lemma length_upd_zip [simp]: "length (upd_zip f cs vs) = length cs"
  by (induction f cs vs rule: upd_zip.induct) auto

lemma upd_zip_nth:
  "i < length cs \<Longrightarrow>
     upd_zip f cs vs ! i = (if i < length vs then f (cs ! i) (vs ! i) else cs ! i)"
proof (induction f cs vs arbitrary: i rule: upd_zip.induct)
  case (3 f c cs v vs)
  then show ?case by (cases i) auto
qed auto

text \<open>\<open>splice\<close> overwrites the middle of a list: the buffer update of a mutable sub-slice.\<close>

definition splice_at :: "nat \<Rightarrow> nat \<Rightarrow> ('c list \<Rightarrow> 'c list) \<Rightarrow> 'c list \<Rightarrow> 'c list" where
  "splice_at off len f xs = take off xs @ f (take len (drop off xs)) @ drop (off + len) xs"

lemma length_splice_at [simp]:
  "(\<And>ys. length (f ys) = length ys) \<Longrightarrow> length (splice_at off len f xs) = length xs"
  by (simp add: splice_at_def min_def)

lemma splice_at_nth:
  assumes len: "\<And>ys. length (f ys) = length ys" and i: "i < length xs"
    and bound: "off + len \<le> length xs"
  shows "splice_at off len f xs ! i =
           (if off \<le> i \<and> i < off + len then f (take len (drop off xs)) ! (i - off) else xs ! i)"
  using assms by (auto simp: splice_at_def nth_append)

lemma nth_overwrite:
  assumes "off + length ys \<le> length xs" "i < length xs"
  shows "(take off xs @ ys @ drop (off + length ys) xs) ! i =
           (if off \<le> i \<and> i < off + length ys then ys ! (i - off) else xs ! i)"
proof -
  consider "i < off" | "off \<le> i" "i < off + length ys" | "off + length ys \<le> i" by linarith
  then show ?thesis
    by cases (use assms in \<open>auto simp: nth_append less_diff_conv2\<close>)
qed

text \<open>\<open>slice_index\<close> is the indexing expression \<open>xs[i..j]\<close>: a panic when the bounds are not inside.\<close>

definition slice_index :: "'a list \<Rightarrow> usize \<Rightarrow> usize \<Rightarrow> 'a list option" where
  "slice_index xs i j = (if i \<le> j \<and> j \<le> length xs then Some (take (j - i) (drop i xs)) else None)"

lemma slice_index_Some [panic_free]:
  "i \<le> j \<Longrightarrow> j \<le> length xs \<Longrightarrow> slice_index xs i j = Some (take (j - i) (drop i xs))"
  by (simp add: slice_index_def)

lemma nth_take_drop_range:
  "off + len \<le> length xs \<Longrightarrow> i < len \<Longrightarrow> take len (drop off xs) ! i = xs ! (off + i)"
  by simp

lemma take_drop_eq_map_nth:
  "off + len \<le> length xs \<Longrightarrow> take len (drop off xs) = map (\<lambda>a. xs ! (a - s)) [s + off ..< s + off + len]"
  by (rule nth_equalityI) auto

lemma map_nth_upt_shift: "map (\<lambda>a. f (a - s)) [s ..< s + n] = map f [0 ..< n]"
  by (rule nth_equalityI) auto

lemma upt_split: "i \<le> j \<Longrightarrow> j \<le> k \<Longrightarrow> [i ..< k] = [i ..< j] @ [j ..< k]"
  by (metis le_Suc_ex upt_add_eq_append)

end
