(* ===== verification/Codec_Format.thy ===== *)
theory Codec_Format
  imports Prelude
begin

unbundle bit_operations_syntax

text \<open>
  Register formats and values of the codec (\<^verbatim>\<open>ferrowl-codec/src/format/*.rs\<close>, \<^verbatim>\<open>value.rs\<close>,
  \<^verbatim>\<open>kind.rs\<close>, \<^verbatim>\<open>access.rs\<close>, \<^verbatim>\<open>address.rs\<close>, \<^verbatim>\<open>error.rs\<close>). Signed integers are words read in
  two's complement, floating-point numbers are their IEEE bit patterns, and a Rust string is its
  sequence of bytes, a HOL \<open>string\<close>.
\<close>

datatype endian = Little | Big

datatype word_order = Normal | Reversed

datatype alignment = LeftAligned | RightAligned

datatype int_kind = K_U8 | K_U16 | K_U32 | K_U64 | K_U128 | K_I8 | K_I16 | K_I32 | K_I64 | K_I128

datatype float_kind = K_F32 | K_F64

definition int_kinds :: "int_kind list" where
  "int_kinds = [K_U8, K_U16, K_U32, K_U64, K_U128, K_I8, K_I16, K_I32, K_I64, K_I128]"

definition float_kinds :: "float_kind list" where
  "float_kinds = [K_F32, K_F64]"

fun int_bits :: "int_kind \<Rightarrow> nat" where
  "int_bits K_U8 = 8" | "int_bits K_I8 = 8"
| "int_bits K_U16 = 16" | "int_bits K_I16 = 16"
| "int_bits K_U32 = 32" | "int_bits K_I32 = 32"
| "int_bits K_U64 = 64" | "int_bits K_I64 = 64"
| "int_bits K_U128 = 128" | "int_bits K_I128 = 128"

definition int_register_width :: "int_kind \<Rightarrow> usize" where
  "int_register_width k = max (int_bits k) 16 div 16"

fun float_bits :: "float_kind \<Rightarrow> nat" where
  "float_bits K_F32 = 32"
| "float_bits K_F64 = 64"

definition float_register_width :: "float_kind \<Rightarrow> usize" where
  "float_register_width k = float_bits k div 16"

section \<open>Bit fields\<close>

record bit_field =
  bf_mask :: u128

definition bit_field_default :: bit_field where
  "bit_field_default = \<lparr>bf_mask = - 1\<rparr>"

text \<open>\<open>u128::trailing_zeros\<close>: the position of the lowest set bit, the width if there is none.\<close>

definition trailing_zeros :: "'a::len word \<Rightarrow> nat" where
  "trailing_zeros w = length (takeWhile (\<lambda>i. \<not> bit w i) [0 ..< LENGTH('a)])"

definition bf_shift :: "bit_field \<Rightarrow> nat" where
  "bf_shift bf = (if bf_mask bf = 0 then 0 else trailing_zeros (bf_mask bf))"

definition bf_is_full :: "bit_field \<Rightarrow> bool" where
  "bf_is_full bf \<longleftrightarrow> bf_mask bf = - 1"

definition bf_fits :: "bit_field \<Rightarrow> nat \<Rightarrow> bool" where
  "bf_fits bf bits \<longleftrightarrow>
     bf_is_full bf \<or> bf_mask bf \<le> (if bits \<ge> 128 then - 1 else push_bit bits 1 - 1)"

section \<open>Formats\<close>

text \<open>The display scale factor, an \<open>f64\<close>; it is carried along and never computed with here.\<close>

type_synonym resolution = u64

record numeric_format =
  nf_kind :: int_kind
  nf_endian :: endian
  nf_word_order :: word_order
  nf_resolution :: resolution
  nf_bit_field :: bit_field

record float_format =
  ff_kind :: float_kind
  ff_endian :: endian
  ff_word_order :: word_order
  ff_resolution :: resolution

datatype format =
    Numeric numeric_format
  | Float float_format
  | Ascii alignment usize

fun format_width :: "format \<Rightarrow> usize" where
  "format_width (Numeric nf) = int_register_width (nf_kind nf)"
| "format_width (Float ff) = float_register_width (ff_kind ff)"
| "format_width (Ascii a w) = w"

fun format_resolution :: "format \<Rightarrow> resolution option" where
  "format_resolution (Numeric nf) = Some (nf_resolution nf)"
| "format_resolution (Float ff) = Some (ff_resolution ff)"
| "format_resolution (Ascii a w) = None"

fun format_bitfield :: "format \<Rightarrow> bit_field" where
  "format_bitfield (Numeric nf) = nf_bit_field nf"
| "format_bitfield (Float ff) = bit_field_default"
| "format_bitfield (Ascii a w) = bit_field_default"

fun format_word_order :: "format \<Rightarrow> word_order" where
  "format_word_order (Numeric nf) = nf_word_order nf"
| "format_word_order (Float ff) = ff_word_order ff"
| "format_word_order (Ascii a w) = Normal"

definition format_length :: "format \<Rightarrow> usize" where
  "format_length f = format_width f * 2"

text \<open>The constructors \<open>Format::u8\<close> to \<open>Format::i128\<close> differ in the kind they fill in.\<close>

definition format_int :: "int_kind \<Rightarrow> endian \<Rightarrow> word_order \<Rightarrow> resolution \<Rightarrow> bit_field \<Rightarrow> format" where
  "format_int k e wo res bf =
     Numeric \<lparr>nf_kind = k, nf_endian = e, nf_word_order = wo, nf_resolution = res, nf_bit_field = bf\<rparr>"

definition format_float :: "float_kind \<Rightarrow> endian \<Rightarrow> word_order \<Rightarrow> resolution \<Rightarrow> format" where
  "format_float k e wo res =
     Float \<lparr>ff_kind = k, ff_endian = e, ff_word_order = wo, ff_resolution = res\<rparr>"

section \<open>Display texts\<close>

fun show_endian :: "endian \<Rightarrow> string" where
  "show_endian Little = ''Little Endian''"
| "show_endian Big = ''Big Endian''"

fun show_alignment :: "alignment \<Rightarrow> string" where
  "show_alignment LeftAligned = ''Left''"
| "show_alignment RightAligned = ''Right''"

fun show_word_order :: "word_order \<Rightarrow> string" where
  "show_word_order Normal = ''Normal''"
| "show_word_order Reversed = ''Reversed''"

fun show_int_kind :: "int_kind \<Rightarrow> string" where
  "show_int_kind K_U8 = ''U8''" | "show_int_kind K_U16 = ''U16''" | "show_int_kind K_U32 = ''U32''"
| "show_int_kind K_U64 = ''U64''" | "show_int_kind K_U128 = ''U128''"
| "show_int_kind K_I8 = ''I8''" | "show_int_kind K_I16 = ''I16''" | "show_int_kind K_I32 = ''I32''"
| "show_int_kind K_I64 = ''I64''" | "show_int_kind K_I128 = ''I128''"

fun show_float_kind :: "float_kind \<Rightarrow> string" where
  "show_float_kind K_F32 = ''F32''"
| "show_float_kind K_F64 = ''F64''"

fun show_format :: "format \<Rightarrow> string" where
  "show_format (Numeric nf) = show_int_kind (nf_kind nf) @ '' ('' @ show_endian (nf_endian nf) @ '')''"
| "show_format (Float ff) = show_float_kind (ff_kind ff) @ '' ('' @ show_endian (ff_endian ff) @ '')''"
| "show_format (Ascii a w) = ''ASCII ('' @ show_alignment a @ '')''"

section \<open>Values\<close>

datatype numeric_primitive =
    U8 u8 | U16 u16 | U32 u32 | U64 u64 | U128 u128
  | I8 u8 | I16 u16 | I32 u32 | I64 u64 | I128 u128
  | F32 u32 | F64 u64

datatype unscaled_value = UNumeric numeric_primitive | UAscii string

datatype val = VNumeric numeric_primitive resolution | VAscii string

fun unscaled :: "val \<Rightarrow> unscaled_value" where
  "unscaled (VNumeric p r) = UNumeric p"
| "unscaled (VAscii s) = UAscii s"

definition val_is_empty :: "val \<Rightarrow> bool" where
  "val_is_empty v \<longleftrightarrow> (case v of VAscii s \<Rightarrow> s = [] | _ \<Rightarrow> False)"

text \<open>Zero-padded upper-case hexadecimal, \<open>format!("{:0w$X}")\<close>: at least \<open>w\<close> digits.\<close>

definition hex_digit :: "nat \<Rightarrow> char" where
  "hex_digit d = (if d < 10 then char_of (48 + d) else char_of (55 + d))"

fun hex_digits :: "nat \<Rightarrow> nat \<Rightarrow> string" where
  "hex_digits 0 n = []"
| "hex_digits (Suc w) n = hex_digits w (n div 16) @ [hex_digit (n mod 16)]"

definition hex_word :: "nat \<Rightarrow> 'a::len word \<Rightarrow> string" where
  "hex_word w v = ''0x'' @ hex_digits w (unat v)"

fun prim_as_hex_str :: "numeric_primitive \<Rightarrow> string" where
  "prim_as_hex_str (U8 v) = hex_word 2 v" | "prim_as_hex_str (I8 v) = hex_word 2 v"
| "prim_as_hex_str (U16 v) = hex_word 4 v" | "prim_as_hex_str (I16 v) = hex_word 4 v"
| "prim_as_hex_str (U32 v) = hex_word 8 v" | "prim_as_hex_str (I32 v) = hex_word 8 v"
| "prim_as_hex_str (U64 v) = hex_word 16 v" | "prim_as_hex_str (I64 v) = hex_word 16 v"
| "prim_as_hex_str (U128 v) = hex_word 32 v" | "prim_as_hex_str (I128 v) = hex_word 32 v"
| "prim_as_hex_str (F32 v) = hex_word 8 v" | "prim_as_hex_str (F64 v) = hex_word 16 v"

fun val_as_hex_str :: "val \<Rightarrow> string" where
  "val_as_hex_str (VNumeric p r) = prim_as_hex_str p"
| "val_as_hex_str (VAscii s) = ''0x'' @ concat (map (\<lambda>c. hex_digits 2 (of_char c)) s)"

section \<open>Registers\<close>

datatype reg_kind = KCoil | DiscreteInput | HoldingRegister | InputRegister

fun show_reg_kind :: "reg_kind \<Rightarrow> string" where
  "show_reg_kind KCoil = ''Coil''"
| "show_reg_kind DiscreteInput = ''Discrete Input''"
| "show_reg_kind HoldingRegister = ''Holding Register''"
| "show_reg_kind InputRegister = ''Input Register''"

datatype reg_access = ReadOnly | WriteOnly | ReadAndWrite

fun show_reg_access :: "reg_access \<Rightarrow> string" where
  "show_reg_access ReadOnly = ''ReadOnly''"
| "show_reg_access WriteOnly = ''WriteOnly''"
| "show_reg_access ReadAndWrite = ''ReadWrite''"

datatype address = Fixed u16 | Virtual

record register =
  reg_slave_id :: u8
  reg_access :: reg_access
  reg_kind :: reg_kind
  reg_address :: address
  reg_format :: format

text \<open>What the builder fills in when only the format is given.\<close>

definition register_default :: "format \<Rightarrow> register" where
  "register_default f =
     \<lparr>reg_slave_id = 1, reg_access = ReadAndWrite, reg_kind = HoldingRegister, reg_address = Virtual,
      reg_format = f\<rparr>"

datatype parse_int_error = Empty | InvalidDigit | PosOverflow | NegOverflow

datatype 'fe codec_error =
    TooFewBytes format
  | PackedAscii
  | ParseInt parse_int_error
  | ParseFloat 'fe
  | ValueFormatMismatch format
  | BitFieldWidth format

end
