(* ===== verification/Codec.thy ===== *)
theory Codec
  imports Codec_Format
begin

text \<open>
  Decoding register words into values and encoding values and user input into words
  (\<^verbatim>\<open>ferrowl-codec/src/codec.rs\<close>, \<^verbatim>\<open>traits.rs\<close> and the methods of \<open>Register\<close> in \<^verbatim>\<open>lib.rs\<close>).
  Parsing decimal floating-point text is a parameter: a function from the text to the bit pattern
  or an error, one per width.
\<close>

section \<open>Bytes and words (traits.rs)\<close>

definition parse_bytes :: "u8 list \<Rightarrow> 'v::len word" where
  "parse_bytes bs = foldl (\<lambda>out b. push_bit 8 out + ucast b) 0 bs"

fun into_vec_loop :: "u8 list \<Rightarrow> usize \<Rightarrow> u16 \<Rightarrow> u16 list \<Rightarrow> u16 list" where
  "into_vec_loop [] idx v ws = (if idx mod 2 \<noteq> 0 then ws @ [v] else ws)"
| "into_vec_loop (b # bs) idx v ws =
     (let v = v OR ucast b; idx = idx + 1 in
      if idx mod 2 = 0 then into_vec_loop bs idx 0 (ws @ [v])
      else into_vec_loop bs idx (push_bit 8 v) ws)"

definition into_vec :: "u8 list \<Rightarrow> u16 list" where
  "into_vec bs = into_vec_loop bs 0 0 []"

text \<open>The two bytes of a register, high byte first.\<close>

definition word_bytes :: "u16 \<Rightarrow> u8 list" where
  "word_bytes w = [ucast (drop_bit 8 w), ucast (w AND 0xFF)]"

definition flatten_words :: "u16 list \<Rightarrow> u8 list" where
  "flatten_words ws = concat (map word_bytes ws)"

text \<open>\<open>to_be_bytes\<close> and \<open>to_le_bytes\<close> of the integer types.\<close>

definition to_le_bytes :: "'v::len word \<Rightarrow> u8 list" where
  "to_le_bytes v = map (\<lambda>i. ucast (drop_bit (8 * i) v)) [0 ..< LENGTH('v) div 8]"

definition to_be_bytes :: "'v::len word \<Rightarrow> u8 list" where
  "to_be_bytes v = rev (to_le_bytes v)"

section \<open>Decoding\<close>

definition in_order :: "word_order \<Rightarrow> 'a list \<Rightarrow> 'a list" where
  "in_order wo ws = (if wo = Reversed then rev ws else ws)"

definition read_raw :: "endian \<Rightarrow> u8 list \<Rightarrow> 'u::len word" where
  "read_raw e bs = (case e of Big \<Rightarrow> parse_bytes bs | Little \<Rightarrow> parse_bytes (rev bs))"

text \<open>\<open>decode_int!\<close>: the raw word is taken unsigned, masked and shifted in 128 bits, and narrowed.\<close>

definition decode_int :: "endian \<Rightarrow> bit_field \<Rightarrow> u8 list \<Rightarrow> 'u::len word" where
  "decode_int e bf bs =
     (let raw = read_raw e bs :: 'u word in
      ucast (drop_bit (bf_shift bf) ((ucast raw :: u128) AND bf_mask bf)))"

text \<open>\<open>decode_byte!\<close>: the register is parsed as 16 bits and narrowed to 8.\<close>

definition decode_byte :: "endian \<Rightarrow> bit_field \<Rightarrow> u8 list \<Rightarrow> u8" where
  "decode_byte e bf bs =
     (let raw = read_raw e bs :: u16 in
      ucast (drop_bit (bf_shift bf) ((ucast raw :: u128) AND bf_mask bf)))"

definition decode_kind :: "int_kind \<Rightarrow> endian \<Rightarrow> bit_field \<Rightarrow> u8 list \<Rightarrow> numeric_primitive" where
  "decode_kind k e bf bs =
     (case k of
        K_U8 \<Rightarrow> U8 (decode_byte e bf bs)
      | K_I8 \<Rightarrow> I8 (decode_byte e bf bs)
      | K_U16 \<Rightarrow> U16 (decode_int e bf bs)
      | K_I16 \<Rightarrow> I16 (decode_int e bf bs)
      | K_U32 \<Rightarrow> U32 (decode_int e bf bs)
      | K_I32 \<Rightarrow> I32 (decode_int e bf bs)
      | K_U64 \<Rightarrow> U64 (decode_int e bf bs)
      | K_I64 \<Rightarrow> I64 (decode_int e bf bs)
      | K_U128 \<Rightarrow> U128 (decode_int e bf bs)
      | K_I128 \<Rightarrow> I128 (decode_int e bf bs))"

text \<open>\<open>String::from_utf8\<close>: the validity of a byte sequence as UTF-8.\<close>

definition is_cont :: "nat \<Rightarrow> bool" where
  "is_cont b \<longleftrightarrow> 128 \<le> b \<and> b \<le> 191"

definition utf8_head2 :: "nat \<Rightarrow> bool" where
  "utf8_head2 a \<longleftrightarrow> 194 \<le> a \<and> a \<le> 223"

definition utf8_head3 :: "nat \<Rightarrow> nat \<Rightarrow> bool" where
  "utf8_head3 a b \<longleftrightarrow>
     a = 224 \<and> 160 \<le> b \<and> b \<le> 191 \<or> 225 \<le> a \<and> a \<le> 236 \<and> is_cont b \<or>
     a = 237 \<and> 128 \<le> b \<and> b \<le> 159 \<or> 238 \<le> a \<and> a \<le> 239 \<and> is_cont b"

definition utf8_head4 :: "nat \<Rightarrow> nat \<Rightarrow> bool" where
  "utf8_head4 a b \<longleftrightarrow>
     a = 240 \<and> 144 \<le> b \<and> b \<le> 191 \<or> 241 \<le> a \<and> a \<le> 243 \<and> is_cont b \<or>
     a = 244 \<and> 128 \<le> b \<and> b \<le> 143"

fun utf8_valid :: "nat list \<Rightarrow> bool" where
  "utf8_valid [] = True"
| "utf8_valid (a # bs) =
     (if a < 128 then utf8_valid bs
      else if utf8_head2 a then
        (case bs of b # cs \<Rightarrow> is_cont b \<and> utf8_valid cs | _ \<Rightarrow> False)
      else if 224 \<le> a \<and> a \<le> 239 then
        (case bs of b # c # cs \<Rightarrow> utf8_head3 a b \<and> is_cont c \<and> utf8_valid cs | _ \<Rightarrow> False)
      else
        (case bs of b # c # d # cs \<Rightarrow> utf8_head4 a b \<and> is_cont c \<and> is_cont d \<and> utf8_valid cs | _ \<Rightarrow> False))"

definition string_of_bytes :: "u8 list \<Rightarrow> string" where
  "string_of_bytes bs = map (\<lambda>b. char_of (unat b)) bs"

definition bytes_of_string :: "string \<Rightarrow> u8 list" where
  "bytes_of_string s = map (\<lambda>c. of_nat (of_char c)) s"

definition from_utf8 :: "u8 list \<Rightarrow> string option" where
  "from_utf8 bs = (if utf8_valid (map unat bs) then Some (string_of_bytes bs) else None)"

definition decode :: "format \<Rightarrow> u16 list \<Rightarrow> ('fe codec_error, val) result" where
  "decode f ws =
     (let width = format_width f in
      if length ws < width then Err (TooFewBytes f)
      else
        let bs = flatten_words (in_order (format_word_order f) (take width ws)) in
        case f of
          Numeric nf \<Rightarrow>
            if \<not> bf_fits (nf_bit_field nf) (int_bits (nf_kind nf)) then Err (BitFieldWidth f)
            else Ok (VNumeric (decode_kind (nf_kind nf) (nf_endian nf) (nf_bit_field nf) bs) (nf_resolution nf))
        | Float ff \<Rightarrow>
            Ok (VNumeric (case ff_kind ff of
                K_F32 \<Rightarrow> F32 (read_raw (ff_endian ff) bs)
              | K_F64 \<Rightarrow> F64 (read_raw (ff_endian ff) bs)) (ff_resolution ff))
        | Ascii a w \<Rightarrow>
            (case from_utf8 bs of Some s \<Rightarrow> Ok (VAscii s) | None \<Rightarrow> Err PackedAscii))"

section \<open>Parsing user input\<close>

text \<open>
  \<open>from_str_radix\<close> of the standard library, for a type with the given bounds: an optional sign
  (a minus only for signed types), then digits, each checked before the overflow it may cause.
\<close>

definition digit_of :: "nat \<Rightarrow> char \<Rightarrow> nat option" where
  "digit_of radix c =
     (let n = of_char c :: nat;
          d = (if 48 \<le> n \<and> n \<le> 57 then n - 48
               else if 97 \<le> n \<and> n \<le> 122 then n - 87
               else if 65 \<le> n \<and> n \<le> 90 then n - 55
               else radix)
      in if d < radix then Some d else None)"

fun radix_loop :: "int \<Rightarrow> int \<Rightarrow> nat \<Rightarrow> bool \<Rightarrow> int \<Rightarrow> string \<Rightarrow> (parse_int_error, int) result" where
  "radix_loop lo hi radix positive acc [] = Ok acc"
| "radix_loop lo hi radix positive acc (c # cs) =
     (let overflow = (if positive then PosOverflow else NegOverflow);
          mul = acc * int radix in
      case digit_of radix c of
        None \<Rightarrow> Err InvalidDigit
      | Some d \<Rightarrow>
          if \<not> (lo \<le> mul \<and> mul \<le> hi) then Err overflow
          else let next = (if positive then mul + int d else mul - int d) in
            if \<not> (lo \<le> next \<and> next \<le> hi) then Err overflow
            else radix_loop lo hi radix positive next cs)"

definition from_str_radix :: "int \<Rightarrow> int \<Rightarrow> nat \<Rightarrow> string \<Rightarrow> (parse_int_error, int) result" where
  "from_str_radix lo hi radix s =
     (case s of
        [] \<Rightarrow> Err Empty
      | c # rest \<Rightarrow>
          if (c = CHR ''+'' \<or> c = CHR ''-'') \<and> rest = [] then Err InvalidDigit
          else if c = CHR ''+'' then radix_loop lo hi radix True 0 rest
          else if c = CHR ''-'' \<and> lo < 0 then radix_loop lo hi radix False 0 rest
          else radix_loop lo hi radix True 0 s)"

definition strip_prefix :: "string \<Rightarrow> string \<Rightarrow> string option" where
  "strip_prefix p s = (if take (length p) s = p then Some (drop (length p) s) else None)"

definition unsigned_max :: "nat \<Rightarrow> int" where
  "unsigned_max bits = 2 ^ bits - 1"

definition signed_min :: "nat \<Rightarrow> int" where
  "signed_min bits = - (2 ^ (bits - 1))"

definition signed_max :: "nat \<Rightarrow> int" where
  "signed_max bits = 2 ^ (bits - 1) - 1"

definition int_result :: "(parse_int_error, int) result \<Rightarrow> ('fe codec_error, 'u::len word) result" where
  "int_result r = (case r of Err e \<Rightarrow> Err (ParseInt e) | Ok n \<Rightarrow> Ok (word_of_int n))"

definition parse_uint :: "string \<Rightarrow> ('fe codec_error, 'u::len word) result" where
  "parse_uint s =
     int_result (case strip_prefix ''0x'' s of
        Some h \<Rightarrow> from_str_radix 0 (unsigned_max LENGTH('u)) 16 h
      | None \<Rightarrow> from_str_radix 0 (unsigned_max LENGTH('u)) 10 s)"

definition parse_int :: "string \<Rightarrow> ('fe codec_error, 'u::len word) result" where
  "parse_int s =
     (case strip_prefix ''-0x'' s of
        Some h \<Rightarrow> map_sum (\<lambda>e. e) uminus (int_result (from_str_radix 0 (unsigned_max LENGTH('u)) 16 h))
      | None \<Rightarrow>
          int_result (case strip_prefix ''0x'' s of
             Some h \<Rightarrow> from_str_radix 0 (unsigned_max LENGTH('u)) 16 h
           | None \<Rightarrow> from_str_radix (signed_min LENGTH('u)) (signed_max LENGTH('u)) 10 s))"

definition parse_kind :: "int_kind \<Rightarrow> string \<Rightarrow> ('fe codec_error, numeric_primitive) result" where
  "parse_kind k s =
     (case k of
        K_U8 \<Rightarrow> map_sum (\<lambda>e. e) U8 (parse_uint s)
      | K_U16 \<Rightarrow> map_sum (\<lambda>e. e) U16 (parse_uint s)
      | K_U32 \<Rightarrow> map_sum (\<lambda>e. e) U32 (parse_uint s)
      | K_U64 \<Rightarrow> map_sum (\<lambda>e. e) U64 (parse_uint s)
      | K_U128 \<Rightarrow> map_sum (\<lambda>e. e) U128 (parse_uint s)
      | K_I8 \<Rightarrow> map_sum (\<lambda>e. e) I8 (parse_int s)
      | K_I16 \<Rightarrow> map_sum (\<lambda>e. e) I16 (parse_int s)
      | K_I32 \<Rightarrow> map_sum (\<lambda>e. e) I32 (parse_int s)
      | K_I64 \<Rightarrow> map_sum (\<lambda>e. e) I64 (parse_int s)
      | K_I128 \<Rightarrow> map_sum (\<lambda>e. e) I128 (parse_int s))"

definition parse_float ::
  "(string \<Rightarrow> ('fe, 'u::len word) result) \<Rightarrow> string \<Rightarrow> ('fe codec_error, 'u word) result"
where
  "parse_float pf s =
     (case strip_prefix ''0x'' s of
        Some h \<Rightarrow> int_result (from_str_radix 0 (unsigned_max LENGTH('u)) 16 h)
      | None \<Rightarrow> map_sum ParseFloat (\<lambda>v. v) (pf s))"

definition parse_value ::
  "(string \<Rightarrow> ('fe, u32) result) \<Rightarrow> (string \<Rightarrow> ('fe, u64) result) \<Rightarrow> format \<Rightarrow> string
     \<Rightarrow> ('fe codec_error, val) result"
where
  "parse_value pf32 pf64 f s =
     (case f of
        Numeric nf \<Rightarrow>
          if \<not> bf_fits (nf_bit_field nf) (int_bits (nf_kind nf)) then Err (BitFieldWidth f)
          else map_sum (\<lambda>e. e) (\<lambda>p. VNumeric p (nf_resolution nf)) (parse_kind (nf_kind nf) s)
      | Float ff \<Rightarrow>
          map_sum (\<lambda>e. e) (\<lambda>p. VNumeric p (ff_resolution ff))
            (case ff_kind ff of
               K_F32 \<Rightarrow> map_sum (\<lambda>e. e) F32 (parse_float pf32 s)
             | K_F64 \<Rightarrow> map_sum (\<lambda>e. e) F64 (parse_float pf64 s))
      | Ascii a w \<Rightarrow> Ok (VAscii s))"

section \<open>Encoding\<close>

definition endian_bytes :: "endian \<Rightarrow> 'u::len word \<Rightarrow> u8 list" where
  "endian_bytes e v = (case e of Big \<Rightarrow> to_be_bytes v | Little \<Rightarrow> to_le_bytes v)"

text \<open>\<open>encode_uint!\<close> and \<open>encode_int!\<close>: both place the field in 128 unsigned bits and narrow it.\<close>

definition place_field :: "bit_field \<Rightarrow> 'u::len word \<Rightarrow> 'u word" where
  "place_field bf v = ucast (push_bit (bf_shift bf) (ucast v :: u128) AND bf_mask bf)"

definition encode_int :: "endian \<Rightarrow> bit_field \<Rightarrow> 'u::len word \<Rightarrow> u16 list" where
  "encode_int e bf v = into_vec (endian_bytes e (place_field bf v))"

text \<open>
  The 8-bit kinds fill one register: an unsigned byte is zero-extended, a signed one
  sign-extended, by Rust's \<open>as u16\<close>.
\<close>

definition encode_u8 :: "endian \<Rightarrow> bit_field \<Rightarrow> u8 \<Rightarrow> u16 list" where
  "encode_u8 e bf v =
     (let v' = place_field bf v in
      case e of Big \<Rightarrow> [ucast v'] | Little \<Rightarrow> [push_bit 8 (ucast v')])"

definition encode_i8 :: "endian \<Rightarrow> bit_field \<Rightarrow> u8 \<Rightarrow> u16 list" where
  "encode_i8 e bf v =
     (let v' = place_field bf v in
      case e of Big \<Rightarrow> [scast v'] | Little \<Rightarrow> [push_bit 8 (scast v')])"

definition encode_kind :: "int_kind \<Rightarrow> endian \<Rightarrow> bit_field \<Rightarrow> numeric_primitive \<Rightarrow> u16 list option" where
  "encode_kind k e bf p =
     (case (k, p) of
        (K_U8, U8 v) \<Rightarrow> Some (encode_u8 e bf v)
      | (K_I8, I8 v) \<Rightarrow> Some (encode_i8 e bf v)
      | (K_U16, U16 v) \<Rightarrow> Some (encode_int e bf v)
      | (K_U32, U32 v) \<Rightarrow> Some (encode_int e bf v)
      | (K_U64, U64 v) \<Rightarrow> Some (encode_int e bf v)
      | (K_U128, U128 v) \<Rightarrow> Some (encode_int e bf v)
      | (K_I16, I16 v) \<Rightarrow> Some (encode_int e bf v)
      | (K_I32, I32 v) \<Rightarrow> Some (encode_int e bf v)
      | (K_I64, I64 v) \<Rightarrow> Some (encode_int e bf v)
      | (K_I128, I128 v) \<Rightarrow> Some (encode_int e bf v)
      | _ \<Rightarrow> None)"

definition encode_ascii :: "alignment \<Rightarrow> usize \<Rightarrow> string \<Rightarrow> u16 list" where
  "encode_ascii a w s =
     (let len = 2 * w; bs = bytes_of_string s; zeroes = len - length bs in
      case a of
        LeftAligned \<Rightarrow> into_vec (take len (bs @ replicate zeroes 0))
      | RightAligned \<Rightarrow> into_vec (take len (replicate zeroes 0 @ drop (length bs - len) bs)))"

definition encode_value :: "format \<Rightarrow> val \<Rightarrow> ('fe codec_error, u16 list) result" where
  "encode_value f v =
     (let words =
        (case f of
           Numeric nf \<Rightarrow>
             if \<not> bf_fits (nf_bit_field nf) (int_bits (nf_kind nf)) then Err (BitFieldWidth f)
             else (case v of
                 VNumeric p _ \<Rightarrow>
                   (case encode_kind (nf_kind nf) (nf_endian nf) (nf_bit_field nf) p of
                      Some ws \<Rightarrow> Ok ws | None \<Rightarrow> Err (ValueFormatMismatch f))
               | _ \<Rightarrow> Err (ValueFormatMismatch f))
         | Float ff \<Rightarrow>
             (case v of
                VNumeric p _ \<Rightarrow>
                  (case (ff_kind ff, p) of
                     (K_F32, F32 x) \<Rightarrow> Ok (into_vec (endian_bytes (ff_endian ff) x))
                   | (K_F64, F64 x) \<Rightarrow> Ok (into_vec (endian_bytes (ff_endian ff) x))
                   | _ \<Rightarrow> Err (ValueFormatMismatch f))
              | _ \<Rightarrow> Err (ValueFormatMismatch f))
         | Ascii a w \<Rightarrow>
             (case v of VAscii s \<Rightarrow> Ok (encode_ascii a w s) | _ \<Rightarrow> Err (ValueFormatMismatch f)))
      in map_sum (\<lambda>e. e) (in_order (format_word_order f)) words)"

definition encode ::
  "(string \<Rightarrow> ('fe, u32) result) \<Rightarrow> (string \<Rightarrow> ('fe, u64) result) \<Rightarrow> format \<Rightarrow> string
     \<Rightarrow> ('fe codec_error, u16 list) result"
where
  "encode pf32 pf64 f s =
     (case parse_value pf32 pf64 f s of Err e \<Rightarrow> Err e | Ok v \<Rightarrow> encode_value f v)"

section \<open>Masks and merging writes\<close>

definition mask_byte :: "endian \<Rightarrow> bit_field \<Rightarrow> u16 list" where
  "mask_byte e bf =
     (let m = ucast (bf_mask bf) :: u8 in
      case e of Big \<Rightarrow> [ucast m] | Little \<Rightarrow> [push_bit 8 (ucast m)])"

definition mask_words :: "format \<Rightarrow> u16 list" where
  "mask_words f =
     in_order (format_word_order f)
       (case f of
          Numeric nf \<Rightarrow>
            (let e = nf_endian nf; m = bf_mask (nf_bit_field nf) in
             case nf_kind nf of
               K_U8 \<Rightarrow> mask_byte e (nf_bit_field nf)
             | K_I8 \<Rightarrow> mask_byte e (nf_bit_field nf)
             | K_U16 \<Rightarrow> into_vec (endian_bytes e (ucast m :: u16))
             | K_I16 \<Rightarrow> into_vec (endian_bytes e (ucast m :: u16))
             | K_U32 \<Rightarrow> into_vec (endian_bytes e (ucast m :: u32))
             | K_I32 \<Rightarrow> into_vec (endian_bytes e (ucast m :: u32))
             | K_U64 \<Rightarrow> into_vec (endian_bytes e (ucast m :: u64))
             | K_I64 \<Rightarrow> into_vec (endian_bytes e (ucast m :: u64))
             | K_U128 \<Rightarrow> into_vec (endian_bytes e (ucast m :: u128))
             | K_I128 \<Rightarrow> into_vec (endian_bytes e (ucast m :: u128)))
        | Float ff \<Rightarrow> replicate (format_width f) 0xFFFF
        | Ascii a w \<Rightarrow> replicate (format_width f) 0xFFFF)"

definition get_or :: "'a \<Rightarrow> 'a list \<Rightarrow> nat \<Rightarrow> 'a" where
  "get_or d xs i = (if i < length xs then xs ! i else d)"

definition merge_write :: "register \<Rightarrow> u16 list \<Rightarrow> u16 list \<Rightarrow> u16 list" where
  "merge_write r old ws =
     (let mask = mask_words (reg_format r) in
      map (\<lambda>(i, v).
             let m = get_or 0xFFFF mask i; old_word = get_or 0 old i
             in (old_word AND NOT m) OR (v AND m))
          (enumerate 0 ws))"

definition register_decode :: "register \<Rightarrow> u16 list \<Rightarrow> ('fe codec_error, val) result" where
  "register_decode r ws = decode (reg_format r) ws"

definition register_encode_value :: "register \<Rightarrow> val \<Rightarrow> ('fe codec_error, u16 list) result" where
  "register_encode_value r v = encode_value (reg_format r) v"

definition register_encode ::
  "(string \<Rightarrow> ('fe, u32) result) \<Rightarrow> (string \<Rightarrow> ('fe, u64) result) \<Rightarrow> register \<Rightarrow> string
     \<Rightarrow> ('fe codec_error, u16 list) result"
where
  "register_encode pf32 pf64 r s = encode pf32 pf64 (reg_format r) s"

definition write_mask :: "register \<Rightarrow> u16 list" where
  "write_mask r = mask_words (reg_format r)"

end
