(* ===== verification/Codec_Bits.thy ===== *)
theory Codec_Bits
  imports Codec
begin

text \<open>
  The bit-level facts behind the codec: reading back the bytes of a word gives the word in either
  byte order, packing bytes into registers and flattening registers are inverse, and placing a
  field and extracting it again keeps exactly the bits the mask selects.
\<close>

section \<open>Bytes of a word\<close>

lemma no_high_bit: "LENGTH('a) \<le> n \<Longrightarrow> \<not> bit (w :: 'a::len word) n"
  by (auto dest: bit_imp_le_length)

lemma u8_no_high_bit [simp]: "8 \<le> n \<Longrightarrow> \<not> bit (b :: u8) n"
  using no_high_bit [of n b] by simp

lemma bit_ff: "bit (0xFF :: u16) n \<longleftrightarrow> n < 8"
proof -
  have "(0xFF :: u16) = mask 8" by (simp add: mask_eq_exp_minus_1)
  then have "bit (0xFF :: u16) n \<longleftrightarrow> n < 16 \<and> n < 8" by (simp only: bit_mask_iff) simp
  then show ?thesis by auto
qed

lemma bit_low_byte: "bit (ucast (w AND 0xFF :: u16) :: u8) n \<longleftrightarrow> n < 8 \<and> bit w n"
  by (simp only: bit_ucast_iff bit_and_iff bit_ff) auto

lemma parse_bytes_snoc: "parse_bytes (bs @ [b]) = push_bit 8 (parse_bytes bs) OR (ucast b :: 'v::len word)"
proof -
  have "push_bit 8 (parse_bytes bs) + (ucast b :: 'v word) = push_bit 8 (parse_bytes bs) OR ucast b"
    by (rule disjunctive_add) (auto simp: bit_simps not_less [symmetric] dest: u8_no_high_bit)
  then show ?thesis by (simp add: parse_bytes_def)
qed

lemma bit_parse_bytes:
  "bit (parse_bytes bs :: 'v::len word) n \<longleftrightarrow>
     n < LENGTH('v) \<and> n div 8 < length bs \<and> bit (rev bs ! (n div 8)) (n mod 8)"
proof (induction bs arbitrary: n rule: rev_induct)
  case Nil
  then show ?case by (simp add: parse_bytes_def)
next
  case (snoc b bs)
  show ?case
  proof (cases "n < 8")
    case True
    then show ?thesis by (auto simp: parse_bytes_snoc bit_simps)
  next
    case False
    then obtain k where n: "n = 8 + k" using le_Suc_ex not_less by blast
    have "(8 + k) div 8 = Suc (k div 8)" "(8 + k) mod 8 = k mod 8" by simp_all
    with snoc [of k] show ?thesis
      by (auto simp: n parse_bytes_snoc bit_simps dest: bit_imp_le_length)
  qed
qed

lemma length_to_le_bytes [simp]: "length (to_le_bytes (v :: 'v::len word)) = LENGTH('v) div 8"
  by (simp add: to_le_bytes_def)

lemma length_to_be_bytes [simp]: "length (to_be_bytes (v :: 'v::len word)) = LENGTH('v) div 8"
  by (simp add: to_be_bytes_def)

lemma bit_to_le_bytes:
  "i < LENGTH('v) div 8 \<Longrightarrow> bit (to_le_bytes (v :: 'v::len word) ! i) k \<longleftrightarrow> k < 8 \<and> bit v (8 * i + k)"
  by (simp add: to_le_bytes_def bit_simps)

lemma parse_rev_le_bytes:
  assumes "LENGTH('v) mod 8 = 0"
  shows "parse_bytes (rev (to_le_bytes v)) = (v :: 'v::len word)"
proof (rule bit_word_eqI)
  fix n assume n: "n < LENGTH('v)"
  then have "n div 8 < LENGTH('v) div 8"
    using assms by (metis less_mult_imp_div_less mult.commute mod_0_imp_dvd dvd_mult_div_cancel)
  then show "bit (parse_bytes (rev (to_le_bytes v)) :: 'v word) n = bit v n"
    using n by (simp add: bit_parse_bytes bit_to_le_bytes)
qed

lemma read_raw_bytes:
  assumes "LENGTH('v) mod 8 = 0"
  shows "read_raw e (endian_bytes e v) = (v :: 'v::len word)"
  using parse_rev_le_bytes [OF assms, of v]
  by (cases e) (simp_all add: read_raw_def endian_bytes_def to_be_bytes_def)

lemma length_endian_bytes [simp]: "length (endian_bytes e (v :: 'v::len word)) = LENGTH('v) div 8"
  by (cases e) (simp_all add: endian_bytes_def)

section \<open>Bytes and registers\<close>

lemma length_flatten_words [simp]: "length (flatten_words ws) = 2 * length ws"
  by (induction ws) (auto simp: flatten_words_def word_bytes_def)

lemma flatten_words_append [simp]: "flatten_words (xs @ ys) = flatten_words xs @ flatten_words ys"
  by (simp add: flatten_words_def)

lemma flatten_words_Nil [simp]: "flatten_words [] = []"
  by (simp add: flatten_words_def)

definition join_bytes :: "u8 \<Rightarrow> u8 \<Rightarrow> u16" where
  "join_bytes h l = push_bit 8 (ucast h) OR ucast l"

lemma bit_join:
  "bit (join_bytes h l) n \<longleftrightarrow> n < 8 \<and> bit l n \<or> 8 \<le> n \<and> n < 16 \<and> bit h (n - 8)"
  by (auto simp: join_bytes_def bit_simps not_less [symmetric] dest: u8_no_high_bit)

lemma bit_high_byte: "bit (ucast (drop_bit 8 w :: u16) :: u8) n \<longleftrightarrow> n < 8 \<and> bit w (8 + n)"
  by (simp add: bit_simps)

lemma word_bytes_join: "word_bytes (join_bytes h l) = [h, l]"
proof -
  have "ucast (drop_bit 8 (join_bytes h l)) = h"
    by (rule bit_word_eqI) (simp only: bit_high_byte bit_join, simp)
  moreover have "ucast (join_bytes h l AND 0xFF) = l"
    by (rule bit_word_eqI) (simp only: bit_low_byte bit_join, simp)
  ultimately show ?thesis by (simp add: word_bytes_def)
qed

lemma join_word_bytes: "join_bytes (ucast (drop_bit 8 w)) (ucast (w AND 0xFF)) = w"
proof (rule bit_word_eqI)
  fix n assume n: "n < LENGTH(16)"
  show "bit (join_bytes (ucast (drop_bit 8 w)) (ucast (w AND 0xFF))) n = bit w n"
    using n by (simp only: bit_join bit_high_byte bit_low_byte) auto
qed

lemma into_vec_pair:
  "even idx \<Longrightarrow> into_vec_loop (h # l # bs) idx 0 ws = into_vec_loop bs (idx + 2) 0 (ws @ [join_bytes h l])"
  by (simp add: Let_def join_bytes_def even_iff_mod_2_eq_zero [symmetric])

lemma into_vec_loop_flatten:
  "even idx \<Longrightarrow> into_vec_loop (flatten_words ws) idx 0 acc = acc @ ws"
proof (induction ws arbitrary: idx acc)
  case (Cons w ws)
  have "flatten_words (w # ws) = ucast (drop_bit 8 w) # ucast (w AND 0xFF) # flatten_words ws"
    by (simp add: flatten_words_def word_bytes_def)
  then show ?case
    using Cons by (simp add: into_vec_pair join_word_bytes del: into_vec_loop.simps)
qed simp

lemma into_vec_flatten: "into_vec (flatten_words ws) = ws"
  using into_vec_loop_flatten [of 0 ws "[]"] by (simp add: into_vec_def)

fun pair_up :: "u8 list \<Rightarrow> u16 list" where
  "pair_up (h # l # bs) = join_bytes h l # pair_up bs"
| "pair_up _ = []"

lemma flatten_pair_up: "even (length bs) \<Longrightarrow> flatten_words (pair_up bs) = bs"
  by (induction bs rule: pair_up.induct) (auto simp: flatten_words_def word_bytes_join)

lemma flatten_into_vec: "even (length bs) \<Longrightarrow> flatten_words (into_vec bs) = bs"
  using into_vec_flatten [of "pair_up bs"] flatten_pair_up [of bs] by simp

lemma length_into_vec: "even (length bs) \<Longrightarrow> length (into_vec bs) = length bs div 2"
  using flatten_into_vec [of bs] length_flatten_words [of "into_vec bs"] by simp

lemma in_order_involutive [simp]: "in_order wo (in_order wo xs) = xs"
  by (simp add: in_order_def)

lemma length_in_order [simp]: "length (in_order wo xs) = length xs"
  by (simp add: in_order_def)

section \<open>Raw words in registers\<close>

text \<open>A word laid out in registers by byte order and register order, and read back.\<close>

definition raw_words :: "endian \<Rightarrow> word_order \<Rightarrow> 'u::len word \<Rightarrow> u16 list" where
  "raw_words e wo v = in_order wo (into_vec (endian_bytes e v))"

definition raw_of :: "endian \<Rightarrow> word_order \<Rightarrow> u16 list \<Rightarrow> 'u::len word" where
  "raw_of e wo ws = read_raw e (flatten_words (in_order wo ws))"

text \<open>
  The contract of such a layout: a fixed number of registers, reading back what was laid out, and
  bitwise conjunction commuting with it, so that a mask can be applied to the registers.
\<close>

definition and_words :: "u16 list \<Rightarrow> u16 list \<Rightarrow> u16 list" where
  "and_words xs ys = map2 (AND) xs ys"

locale word_layout =
  fixes put :: "'u::len word \<Rightarrow> u16 list" and get :: "u16 list \<Rightarrow> 'u word" and width :: nat
  assumes length_put: "length (put v) = width"
    and get_put: "get (put v) = v"
    and get_and: "length ws = width \<Longrightarrow> length ms = width \<Longrightarrow> get (and_words ws ms) = get ws AND get ms"
begin

lemma get_masked: "length ws = width \<Longrightarrow> get (and_words ws (put m)) = get ws AND m"
  by (simp add: get_and length_put get_put)

lemma masked_determines:
  assumes "length ws = width" "length ws' = width" "and_words ws (put m) = and_words ws' (put m)"
  shows "get ws AND m = get ws' AND m"
  using get_masked [OF assms(1), of m] get_masked [OF assms(2), of m] assms(3) by simp

lemma put_inj: "put v = put v' \<Longrightarrow> v = v'"
  by (metis get_put)

end

lemma map2_rev: "length xs = length ys \<Longrightarrow> map2 f (rev xs) (rev ys) = rev (map2 f xs ys)"
  by (simp add: rev_map [symmetric] zip_rev)

lemma parse_bytes_and:
  assumes "length xs = length ys"
  shows "parse_bytes (map2 (AND) xs ys) = (parse_bytes xs AND parse_bytes ys :: 'v::len word)"
  by (rule bit_word_eqI)
    (use assms in \<open>auto simp: bit_parse_bytes bit_simps map2_rev [symmetric] nth_zip\<close>)

lemma flatten_and_words:
  "length ws = length ms \<Longrightarrow> flatten_words (and_words ws ms) = map2 (AND) (flatten_words ws) (flatten_words ms)"
proof (induction ws ms rule: list_induct2)
  case (Cons w ws m ms)
  have "word_bytes (w AND m) = map2 (AND) (word_bytes w) (word_bytes m)"
    by (auto simp: word_bytes_def intro!: bit_word_eqI simp: bit_simps)
  with Cons show ?case by (simp add: and_words_def flatten_words_def word_bytes_def)
qed (simp add: and_words_def)

lemma in_order_and: "length ws = length ms \<Longrightarrow> in_order wo (and_words ws ms) = and_words (in_order wo ws) (in_order wo ms)"
  by (simp add: in_order_def and_words_def map2_rev)

lemma read_raw_and:
  "length xs = length ys \<Longrightarrow> read_raw e (map2 (AND) xs ys) = (read_raw e xs AND read_raw e ys :: 'v::len word)"
  by (cases e) (simp_all add: read_raw_def parse_bytes_and map2_rev [symmetric])

lemma raw_of_and:
  "length ws = length ms \<Longrightarrow> raw_of e wo (and_words ws ms) = (raw_of e wo ws AND raw_of e wo ms :: 'u::len word)"
  by (simp add: raw_of_def in_order_and flatten_and_words read_raw_and)

lemma raw_of_words:
  assumes "LENGTH('u) mod 16 = 0"
  shows "raw_of e wo (raw_words e wo v) = (v :: 'u::len word)"
proof -
  obtain k where "LENGTH('u) = 16 * k" using assms by (auto elim: dvdE)
  then have "LENGTH('u) mod 8 = 0" "even (LENGTH('u) div 8)" by presburger+
  then show ?thesis by (simp add: raw_of_def raw_words_def flatten_into_vec read_raw_bytes)
qed

lemma length_raw_words:
  assumes "LENGTH('u) mod 16 = 0"
  shows "length (raw_words e wo (v :: 'u::len word)) = LENGTH('u) div 16"
proof -
  obtain k where k: "LENGTH('u) = 16 * k" using assms by (auto elim: dvdE)
  have "16 * k div 8 = 2 * k" by simp
  with k have "even (LENGTH('u) div 8)" "LENGTH('u) div 8 div 2 = LENGTH('u) div 16"
    by simp_all
  then show ?thesis by (simp add: raw_words_def length_into_vec)
qed

interpretation l16: word_layout "raw_words e wo :: u16 \<Rightarrow> _" "raw_of e wo" 1 for e wo
  by unfold_locales (simp_all add: length_raw_words raw_of_words raw_of_and)

interpretation l32: word_layout "raw_words e wo :: u32 \<Rightarrow> _" "raw_of e wo" 2 for e wo
  by unfold_locales (simp_all add: length_raw_words raw_of_words raw_of_and)

interpretation l64: word_layout "raw_words e wo :: u64 \<Rightarrow> _" "raw_of e wo" 4 for e wo
  by unfold_locales (simp_all add: length_raw_words raw_of_words raw_of_and)

interpretation l128: word_layout "raw_words e wo :: u128 \<Rightarrow> _" "raw_of e wo" 8 for e wo
  by unfold_locales (simp_all add: length_raw_words raw_of_words raw_of_and)

section \<open>Fields\<close>

lemma shift_full: "bf_is_full bf \<Longrightarrow> bf_shift bf = 0"
  by (simp add: bf_is_full_def bf_shift_def trailing_zeros_def takeWhile_eq_Nil_iff hd_upt)

lemma fits_bit:
  assumes "bf_fits bf n" "n \<le> 128" "bit (bf_mask bf) i" "i \<ge> n"
  shows "bf_is_full bf"
proof (rule ccontr)
  assume "\<not> bf_is_full bf"
  show False
  proof (cases "n < 128")
    case True
    with assms(1) \<open>\<not> bf_is_full bf\<close> have "bf_mask bf \<le> mask n"
      by (simp add: bf_fits_def mask_eq_exp_minus_1 push_bit_eq_mult)
    moreover have "uint (mask n :: u128) = mask n"
      using True by (intro bit_eqI) (auto simp: bit_uint_iff bit_simps)
    ultimately have "uint (bf_mask bf) \<le> mask n"
      by (simp add: word_le_def)
    then have "take_bit n (uint (bf_mask bf)) = uint (bf_mask bf)"
      by (simp add: take_bit_int_eq_self_iff mask_eq_exp_minus_1)
    moreover have "bit (uint (bf_mask bf)) i"
      using assms(3) by (auto simp: bit_uint_iff dest: bit_imp_le_length)
    ultimately have "i < n" by (metis bit_take_bit_iff)
    with assms(4) show False by simp
  next
    case False
    then have "128 \<le> i" using assms(4) by simp
    with assms(3) no_high_bit [of i "bf_mask bf"] show False by simp
  qed
qed

text \<open>The bits of a value that its field can hold.\<close>

definition field_bits :: "bit_field \<Rightarrow> 'u::len word \<Rightarrow> 'u word" where
  "field_bits bf v = v AND ucast (drop_bit (bf_shift bf) (bf_mask bf))"

definition extract_field :: "bit_field \<Rightarrow> 'u::len word \<Rightarrow> 'u word" where
  "extract_field bf raw = ucast (drop_bit (bf_shift bf) ((ucast raw :: u128) AND bf_mask bf))"

lemma extract_place:
  assumes "bf_fits bf LENGTH('u)" "LENGTH('u) \<le> 128"
  shows "extract_field bf (place_field bf v) = (field_bits bf v :: 'u::len word)"
proof (rule bit_word_eqI)
  fix n assume n: "n < LENGTH('u)"
  let ?s = "bf_shift bf" and ?m = "bf_mask bf"
  have in_width: "n + ?s < LENGTH('u)" if "bit ?m (n + ?s)"
  proof (rule ccontr)
    assume "\<not> n + ?s < LENGTH('u)"
    then have "bf_is_full bf" using fits_bit [OF assms that] by simp
    then show False using shift_full n \<open>\<not> n + ?s < LENGTH('u)\<close> by simp
  qed
  have "bit (extract_field bf (place_field bf v)) n \<longleftrightarrow> bit v n \<and> bit ?m (?s + n) \<and> ?s + n < LENGTH('u)"
    using n assms(2) by (auto simp: extract_field_def place_field_def bit_simps)
  moreover have "bit (field_bits bf v) n \<longleftrightarrow> bit v n \<and> bit ?m (?s + n)"
    using n by (simp add: field_bits_def bit_simps)
  ultimately show "bit (extract_field bf (place_field bf v)) n = bit (field_bits bf v) n"
    using in_width by (auto simp: add.commute [of n])
qed

lemma extract_masked: "extract_field bf (raw AND ucast (bf_mask bf)) = extract_field bf (raw :: 'u::len word)"
  by (rule bit_word_eqI) (auto simp: extract_field_def bit_simps dest: bit_imp_le_length)

end
