(* ===== verification/Codec_Properties.thy ===== *)
theory Codec_Properties
  imports Codec_Bits
begin

text \<open>
  Properties of the codec: what encoding writes decoding reads back, in every byte and register
  order and for every bit field; a merged write changes the owner's bits only; user input in the
  displayed hexadecimal form parses back to the value; and the errors.
\<close>

section \<open>Integers\<close>

fun prim_kind :: "numeric_primitive \<Rightarrow> int_kind option" where
  "prim_kind (U8 _) = Some K_U8" | "prim_kind (U16 _) = Some K_U16" | "prim_kind (U32 _) = Some K_U32"
| "prim_kind (U64 _) = Some K_U64" | "prim_kind (U128 _) = Some K_U128"
| "prim_kind (I8 _) = Some K_I8" | "prim_kind (I16 _) = Some K_I16" | "prim_kind (I32 _) = Some K_I32"
| "prim_kind (I64 _) = Some K_I64" | "prim_kind (I128 _) = Some K_I128"
| "prim_kind (F32 _) = None" | "prim_kind (F64 _) = None"

text \<open>The part of a primitive that a bit field stores.\<close>

fun field_prim :: "bit_field \<Rightarrow> numeric_primitive \<Rightarrow> numeric_primitive" where
  "field_prim bf (U8 v) = U8 (field_bits bf v)" | "field_prim bf (I8 v) = I8 (field_bits bf v)"
| "field_prim bf (U16 v) = U16 (field_bits bf v)" | "field_prim bf (I16 v) = I16 (field_bits bf v)"
| "field_prim bf (U32 v) = U32 (field_bits bf v)" | "field_prim bf (I32 v) = I32 (field_bits bf v)"
| "field_prim bf (U64 v) = U64 (field_bits bf v)" | "field_prim bf (I64 v) = I64 (field_bits bf v)"
| "field_prim bf (U128 v) = U128 (field_bits bf v)" | "field_prim bf (I128 v) = I128 (field_bits bf v)"
| "field_prim bf (F32 v) = F32 v" | "field_prim bf (F64 v) = F64 v"

lemma field_bits_full: "bf_is_full bf \<Longrightarrow> LENGTH('u) \<le> 128 \<Longrightarrow> field_bits bf v = (v :: 'u::len word)"
  by (rule bit_word_eqI) (auto simp: field_bits_def shift_full bf_is_full_def bit_simps)

lemma field_prim_full: "bf_is_full bf \<Longrightarrow> field_prim bf p = p"
  by (cases p) (simp_all add: field_bits_full)

lemma encode_kind_eq_Some: "encode_kind k e bf p \<noteq> None \<longleftrightarrow> prim_kind p = Some k"
  by (cases k; cases p) (simp_all add: encode_kind_def)

text \<open>One register seen as a byte: the low byte in big-endian, the high byte in little-endian order.\<close>

definition byte_of :: "bit_field \<Rightarrow> u16 \<Rightarrow> u8" where
  "byte_of bf raw = ucast (drop_bit (bf_shift bf) ((ucast raw :: u128) AND bf_mask bf))"

lemma in_order_single [simp]: "in_order wo [x] = [x]"
  by (simp add: in_order_def)

lemma parse_pair: "parse_bytes [h, l] = join_bytes h l"
  using parse_bytes_snoc [of "[h]" l, where 'v = 16]
  by (simp add: join_bytes_def parse_bytes_def)

lemma raw_of_single: "raw_of e wo [w] = (case e of Big \<Rightarrow> w
    | Little \<Rightarrow> join_bytes (ucast (w AND 0xFF)) (ucast (drop_bit 8 w)))"
  using join_word_bytes [of w]
  by (cases e) (simp_all add: raw_of_def read_raw_def flatten_words_def word_bytes_def parse_pair)

lemma bit_byte_of: "bit (byte_of bf raw) n \<longleftrightarrow>
    n < 8 \<and> bit raw (bf_shift bf + n) \<and> bit (bf_mask bf) (bf_shift bf + n)"
  by (auto simp: byte_of_def bit_simps dest: bit_imp_le_length)

lemma byte_of_place:
  assumes "bf_fits bf 8" and raw: "\<And>i. i < 8 \<Longrightarrow> bit raw i = bit (place_field bf v) i"
  shows "byte_of bf raw = field_bits bf (v :: u8)"
proof -
  have "byte_of bf raw = extract_field bf (place_field bf v)"
  proof (rule bit_word_eqI)
    fix n assume n: "n < LENGTH(8)"
    have "bf_shift bf + n < 8" if "bit (bf_mask bf) (bf_shift bf + n)"
    proof (rule ccontr)
      assume "\<not> bf_shift bf + n < 8"
      then have "bf_is_full bf" using fits_bit [OF assms(1) _ that] by simp
      then show False using shift_full n \<open>\<not> bf_shift bf + n < 8\<close> by simp
    qed
    then show "bit (byte_of bf raw) n = bit (extract_field bf (place_field bf v)) n"
      using n raw unfolding bit_byte_of
      by (auto simp: extract_field_def bit_simps dest: bit_imp_le_length)
  qed
  also have "\<dots> = field_bits bf v" using assms(1) by (intro extract_place) simp_all
  finally show ?thesis .
qed

lemma decode_byte_raw: "decode_byte e bf (flatten_words (in_order wo ws)) = byte_of bf (raw_of e wo ws)"
  by (simp add: decode_byte_def byte_of_def raw_of_def)

lemma decode_int_raw: "decode_int e bf (flatten_words (in_order wo ws)) = extract_field bf (raw_of e wo ws)"
  by (simp add: decode_int_def extract_field_def raw_of_def)

lemma decode_encode_u8:
  assumes "bf_fits bf 8"
  shows "decode_byte e bf (flatten_words (in_order wo (encode_u8 e bf v))) = field_bits bf v"
proof -
  obtain w where w: "encode_u8 e bf v = [w]" by (cases e) (simp_all add: encode_u8_def Let_def)
  have "bit (raw_of e wo [w] :: u16) i = bit (place_field bf v) i" if "i < 8" for i
    using w that by (cases e) (auto simp: encode_u8_def Let_def raw_of_single bit_join bit_high_byte bit_simps)
  from byte_of_place [OF assms this] show ?thesis unfolding w decode_byte_raw .
qed

lemma decode_encode_i8:
  assumes "bf_fits bf 8"
  shows "decode_byte e bf (flatten_words (in_order wo (encode_i8 e bf v))) = field_bits bf v"
proof -
  obtain w where w: "encode_i8 e bf v = [w]" by (cases e) (simp_all add: encode_i8_def Let_def)
  have "bit (raw_of e wo [w] :: u16) i = bit (place_field bf v) i" if "i < 8" for i
  proof -
    have "min i 7 = i" "min 7 i = i" using that by simp_all
    then show ?thesis
      using w that by (cases e) (auto simp: encode_i8_def Let_def raw_of_single bit_join bit_high_byte bit_simps)
  qed
  from byte_of_place [OF assms this] show ?thesis unfolding w decode_byte_raw .
qed

lemma decode_encode_int:
  assumes "bf_fits bf LENGTH('u)" "LENGTH('u) \<le> 128" "LENGTH('u) mod 16 = 0"
  shows "decode_int e bf (flatten_words (in_order wo (in_order wo (encode_int e bf v)))) = (field_bits bf v :: 'u::len word)"
    and "length (encode_int e bf (v :: 'u word)) = LENGTH('u) div 16"
proof -
  have enc: "in_order wo (encode_int e bf v) = raw_words e wo (place_field bf v)"
    by (simp add: encode_int_def raw_words_def)
  then show "decode_int e bf (flatten_words (in_order wo (in_order wo (encode_int e bf v)))) = (field_bits bf v :: 'u word)"
    using extract_place [OF assms(1,2), of v] by (simp add: decode_int_raw raw_of_words [OF assms(3)] del: in_order_involutive)
  show "length (encode_int e bf (v :: 'u word)) = LENGTH('u) div 16"
    using length_raw_words [OF assms(3), of e wo "place_field bf v"] enc
    by (metis length_in_order)
qed

lemma in_order_u8: "in_order wo (in_order wo (encode_u8 e bf v)) = in_order wo (encode_u8 e bf v)"
    "in_order wo (in_order wo (encode_i8 e bf v)) = in_order wo (encode_i8 e bf v)"
  by (cases e; simp add: encode_u8_def encode_i8_def Let_def)+

lemma decode_encode_kind:
  assumes "bf_fits bf (int_bits k)" "encode_kind k e bf p = Some ws"
  shows "decode_kind k e bf (flatten_words (in_order wo (in_order wo ws))) = field_prim bf p"
    and "length ws = int_register_width k"
proof -
  have k: "prim_kind p = Some k" using assms(2) encode_kind_eq_Some [of k e bf p] by simp
  have one: "length (encode_u8 e bf v) = 1" "length (encode_i8 e bf v) = 1" for v
    by (cases e; simp add: encode_u8_def encode_i8_def Let_def)+
  show "decode_kind k e bf (flatten_words (in_order wo (in_order wo ws))) = field_prim bf p"
    using assms k decode_encode_u8 [of bf e wo] decode_encode_i8 [of bf e wo]
    by (cases p) (auto simp: encode_kind_def decode_kind_def decode_encode_int simp del: in_order_involutive
        simp: in_order_involutive [of Normal] in_order_u8)
  show "length ws = int_register_width k"
    using assms k by (cases p) (auto simp: encode_kind_def int_register_width_def decode_encode_int one)
qed

section \<open>Masks\<close>

lemma raw_of_mask_byte:
  "i < 8 \<Longrightarrow> bit (raw_of e wo (mask_byte e bf) :: u16) i \<longleftrightarrow> bit (bf_mask bf) i"
  by (cases e) (auto simp: mask_byte_def Let_def raw_of_single bit_join bit_high_byte bit_simps)

lemma length_mask_byte [simp]: "length (mask_byte e bf) = 1"
  by (cases e) (simp_all add: mask_byte_def Let_def)

lemma byte_of_masked:
  assumes "bf_fits bf 8" "\<And>i. i < 8 \<Longrightarrow> bit m i \<longleftrightarrow> bit (bf_mask bf) i"
  shows "byte_of bf (raw AND m) = byte_of bf raw"
proof (rule bit_word_eqI)
  fix n assume n: "n < LENGTH(8)"
  have "bf_shift bf + n < 8" if "bit (bf_mask bf) (bf_shift bf + n)"
  proof (rule ccontr)
    assume "\<not> bf_shift bf + n < 8"
    then have "bf_is_full bf" using fits_bit [OF assms(1) _ that] by simp
    then show False using shift_full n \<open>\<not> bf_shift bf + n < 8\<close> by simp
  qed
  then show "bit (byte_of bf (raw AND m)) n = bit (byte_of bf raw) n"
    using n assms(2) unfolding bit_byte_of by (auto simp: bit_and_iff)
qed

lemma decode_byte_masked:
  assumes "bf_fits bf 8" "length ws = 1"
  shows "decode_byte e bf (flatten_words (in_order wo (and_words ws (mask_byte e bf)))) =
         decode_byte e bf (flatten_words (in_order wo ws))"
  using byte_of_masked [OF assms(1) raw_of_mask_byte] assms(2)
  by (simp add: decode_byte_raw raw_of_and)

lemma decode_int_masked:
  assumes "LENGTH('u) mod 16 = 0" "length ws = LENGTH('u) div 16"
  shows "decode_int e bf (flatten_words (in_order wo (and_words ws
           (in_order wo (into_vec (endian_bytes e (ucast (bf_mask bf) :: 'u::len word))))))) =
         (decode_int e bf (flatten_words (in_order wo ws)) :: 'u word)"
proof -
  let ?m = "ucast (bf_mask bf) :: 'u word"
  have "in_order wo (into_vec (endian_bytes e ?m)) = raw_words e wo ?m" by (simp add: raw_words_def)
  then show ?thesis
    using assms extract_masked [of bf "raw_of e wo ws :: 'u word"]
    by (simp add: decode_int_raw raw_of_and length_raw_words raw_of_words)
qed

lemmas decode_int_masked_128 = decode_int_masked [where 'u = 128, simplified]

lemma mask_words_numeric:
  "mask_words (Numeric nf) = in_order (nf_word_order nf)
     (let e = nf_endian nf; m = bf_mask (nf_bit_field nf) in
      if int_bits (nf_kind nf) = 8 then mask_byte e (nf_bit_field nf)
      else if int_bits (nf_kind nf) = 16 then into_vec (endian_bytes e (ucast m :: u16))
      else if int_bits (nf_kind nf) = 32 then into_vec (endian_bytes e (ucast m :: u32))
      else if int_bits (nf_kind nf) = 64 then into_vec (endian_bytes e (ucast m :: u64))
      else into_vec (endian_bytes e (ucast m :: u128)))"
  by (cases "nf_kind nf") (simp_all add: mask_words_def Let_def)

lemma length_mask_words: "length (mask_words f) = format_width f"
proof (cases f)
  case (Numeric nf)
  then show ?thesis
    by (cases "nf_kind nf") (simp_all add: mask_words_numeric Let_def length_into_vec int_register_width_def)
qed (simp_all add: mask_words_def)

lemma mask_byte_order: "in_order wo (mask_byte e bf) = mask_byte e bf"
  by (cases e) (simp_all add: mask_byte_def Let_def)

lemma decode_kind_masked:
  assumes "bf_fits (nf_bit_field nf) (int_bits (nf_kind nf))" "length ws = int_register_width (nf_kind nf)"
  shows "decode_kind (nf_kind nf) (nf_endian nf) (nf_bit_field nf)
           (flatten_words (in_order (nf_word_order nf) (and_words ws (mask_words (Numeric nf))))) =
         decode_kind (nf_kind nf) (nf_endian nf) (nf_bit_field nf)
           (flatten_words (in_order (nf_word_order nf) ws))"
  using assms
  by (cases "nf_kind nf")
    (simp_all add: mask_words_numeric Let_def decode_kind_def int_register_width_def mask_byte_order
      decode_byte_masked decode_int_masked decode_int_masked_128)

lemma and_ffff: "(w :: u16) AND 0xFFFF = w"
proof -
  have "(0xFFFF :: u16) = - 1" by simp
  then show ?thesis by (simp only: and.right_neutral)
qed

lemma decode_masked:
  assumes "length ws = format_width f"
  shows "decode f (and_words ws (mask_words f)) = decode f ws"
proof (cases f)
  case (Numeric nf)
  have "length (and_words ws (mask_words f)) = length ws"
    using assms length_mask_words [of f] by (simp add: and_words_def)
  then show ?thesis
    using assms decode_kind_masked [of nf ws] Numeric by (auto simp: decode_def Let_def)
next
  case (Float ff)
  have "and_words ws (replicate (length ws) 0xFFFF) = ws"
    by (rule nth_equalityI) (simp_all add: and_words_def and_ffff)
  then show ?thesis using assms Float by (simp add: mask_words_def in_order_def)
next
  case (Ascii a w)
  have "and_words ws (replicate (length ws) 0xFFFF) = ws"
    by (rule nth_equalityI) (simp_all add: and_words_def and_ffff)
  then show ?thesis using assms Ascii by (simp add: mask_words_def in_order_def)
qed

section \<open>Round trips\<close>

text \<open>
  What a format keeps of a value: a number is cut to its bit field and takes the format's
  resolution; text is padded with zero bytes, or cut, to the width of the format.
\<close>

definition ascii_padding :: "usize \<Rightarrow> string \<Rightarrow> string" where
  "ascii_padding w s = replicate (2 * w - length s) (char_of (0 :: nat))"

fun stored_value :: "format \<Rightarrow> val \<Rightarrow> val" where
  "stored_value (Numeric nf) (VNumeric p r) = VNumeric (field_prim (nf_bit_field nf) p) (nf_resolution nf)"
| "stored_value (Float ff) (VNumeric p r) = VNumeric p (ff_resolution ff)"
| "stored_value (Ascii LeftAligned w) (VAscii s) = VAscii (take (2 * w) s @ ascii_padding w s)"
| "stored_value (Ascii RightAligned w) (VAscii s) =
     VAscii (ascii_padding w s @ drop (length s - 2 * w) s)"
| "stored_value f v = v"

definition val_utf8 :: "val \<Rightarrow> bool" where
  "val_utf8 v \<longleftrightarrow> (case v of VAscii s \<Rightarrow> utf8_valid (map of_char s) | _ \<Rightarrow> True)"

lemma read_raw_words: "LENGTH('u) mod 16 = 0 \<Longrightarrow>
    read_raw e (flatten_words (into_vec (endian_bytes e v))) = (v :: 'u::len word)"
  using raw_of_words [of e Normal v] by (simp add: raw_of_def raw_words_def in_order_def)

lemma length_int_words: "LENGTH('u) mod 16 = 0 \<Longrightarrow>
    length (into_vec (endian_bytes e (v :: 'u::len word))) = LENGTH('u) div 16"
  using length_raw_words [of e Normal v] by (simp add: raw_words_def in_order_def)

lemma bytes_string [simp]: "string_of_bytes (bytes_of_string s) = s"
proof -
  have "char_of (unat (of_nat (of_char c) :: u8)) = (c :: char)" for c
    by (simp add: unat_of_nat unsigned_of_nat take_bit_eq_mod)
  then show ?thesis by (simp add: string_of_bytes_def bytes_of_string_def comp_def)
qed

lemma unat_bytes_of_string [simp]: "map unat (bytes_of_string s) = map of_char s"
  by (simp add: bytes_of_string_def unat_of_nat unsigned_of_nat take_bit_eq_mod)

lemma length_bytes_of_string [simp]: "length (bytes_of_string s) = length s"
  by (simp add: bytes_of_string_def)

lemma bytes_of_padding: "bytes_of_string (ascii_padding w s) = replicate (2 * w - length s) 0"
  by (simp add: bytes_of_string_def ascii_padding_def)

lemma bytes_of_append [simp]: "bytes_of_string (s @ t) = bytes_of_string s @ bytes_of_string t"
  by (simp add: bytes_of_string_def)

lemma bytes_of_take: "bytes_of_string (take n s) = take n (bytes_of_string s)"
  by (simp add: bytes_of_string_def take_map)

lemma bytes_of_drop: "bytes_of_string (drop n s) = drop n (bytes_of_string s)"
  by (simp add: bytes_of_string_def drop_map)

lemma encode_ascii_stored:
  "\<exists>t. stored_value (Ascii a w) (VAscii s) = VAscii t \<and> length t = 2 * w \<and>
       encode_ascii a w s = into_vec (bytes_of_string t)"
proof (cases a)
  case LeftAligned
  have "take (2 * w) (bytes_of_string s @ replicate (2 * w - length s) 0) =
        bytes_of_string (take (2 * w) s @ ascii_padding w s)"
    by (simp add: bytes_of_padding bytes_of_take)
  then show ?thesis using LeftAligned by (simp add: encode_ascii_def Let_def ascii_padding_def)
next
  case RightAligned
  have "take (2 * w) (replicate (2 * w - length s) 0 @ drop (length s - 2 * w) (bytes_of_string s)) =
        bytes_of_string (ascii_padding w s @ drop (length s - 2 * w) s)"
    by (simp add: bytes_of_padding bytes_of_drop)
  then show ?thesis using RightAligned by (simp add: encode_ascii_def Let_def ascii_padding_def)
qed

lemma decode_exact:
  assumes "length ws = format_width f"
  shows "decode f (ws @ extra) = decode f ws"
  using assms by (simp add: decode_def)

lemma decode_encode_numeric:
  assumes "bf_fits (nf_bit_field nf) (int_bits (nf_kind nf))"
    "encode_kind (nf_kind nf) (nf_endian nf) (nf_bit_field nf) p = Some ws"
  shows "decode (Numeric nf) (in_order (nf_word_order nf) ws) =
           Ok (VNumeric (field_prim (nf_bit_field nf) p) (nf_resolution nf)) \<and>
         length ws = int_register_width (nf_kind nf)"
  using decode_encode_kind [OF assms] assms(1) by (simp add: decode_def)

lemma decode_encode_float:
  assumes "encode_value (Float ff) v = Ok ws"
  shows "decode (Float ff) ws = Ok (stored_value (Float ff) v) \<and> length ws = format_width (Float ff)"
  using assms
  by (auto simp: encode_value_def Let_def decode_def float_register_width_def length_int_words read_raw_words
      split: val.splits float_kind.splits numeric_primitive.splits)

lemma decode_encode_ascii:
  "\<exists>t. stored_value (Ascii a w) (VAscii s) = VAscii t \<and> length (encode_ascii a w s) = w \<and>
     decode (Ascii a w) (encode_ascii a w s) =
       (if utf8_valid (map of_char t) then Ok (VAscii t) else Err PackedAscii)"
proof -
  obtain t where t: "stored_value (Ascii a w) (VAscii s) = VAscii t" "length t = 2 * w"
      "encode_ascii a w s = into_vec (bytes_of_string t)"
    using encode_ascii_stored [of a w s] by blast
  have "length (into_vec (bytes_of_string t)) = w" using t(2) by (simp add: length_into_vec)
  then show ?thesis
    using t by (simp add: decode_def in_order_def flatten_into_vec from_utf8_def)
qed

lemma encode_value_ascii: "encode_value (Ascii a w) (VAscii s) = Ok (encode_ascii a w s)"
  by (simp add: encode_value_def in_order_def)

lemma stored_ascii_utf8:
  assumes "val_utf8 (stored_value (Ascii a w) (VAscii s))"
  shows "decode (Ascii a w) (encode_ascii a w s) = Ok (stored_value (Ascii a w) (VAscii s)) \<and>
         length (encode_ascii a w s) = w"
  using decode_encode_ascii [of a w s] assms by (auto simp: val_utf8_def)

lemma encode_value_result:
  assumes "encode_value f v = Ok ws" "val_utf8 (stored_value f v)"
  shows "decode f ws = Ok (stored_value f v) \<and> length ws = format_width f"
proof (cases f)
  case (Numeric nf)
  then obtain p r ws' where "v = VNumeric p r" "ws = in_order (nf_word_order nf) ws'"
      "bf_fits (nf_bit_field nf) (int_bits (nf_kind nf))"
      "encode_kind (nf_kind nf) (nf_endian nf) (nf_bit_field nf) p = Some ws'"
    using assms(1) by (auto simp: encode_value_def split: if_splits val.splits option.splits)
  with decode_encode_numeric [of nf p ws'] Numeric show ?thesis by simp
next
  case (Float ff)
  then show ?thesis using decode_encode_float assms(1) by simp
next
  case (Ascii a w)
  then obtain s where "v = VAscii s" using assms(1) by (auto simp: encode_value_def split: val.splits)
  then show ?thesis using stored_ascii_utf8 [of a w s] assms Ascii by (simp add: encode_value_ascii)
qed

section \<open>Merging writes\<close>

lemma merge_nth:
  assumes "length ws = format_width (reg_format r)" "length old = length ws" "i < length ws"
  shows "merge_write r old ws ! i =
    (old ! i AND NOT (mask_words (reg_format r) ! i)) OR (ws ! i AND mask_words (reg_format r) ! i)"
  using assms by (simp add: merge_write_def Let_def get_or_def length_mask_words nth_enumerate_eq)

lemma length_merge_write [simp]: "length (merge_write r old ws) = length ws"
  by (simp add: merge_write_def Let_def)

lemma merge_masked:
  assumes "length ws = format_width (reg_format r)" "length old = length ws"
  shows "and_words (merge_write r old ws) (mask_words (reg_format r)) =
         and_words ws (mask_words (reg_format r))"
  using assms
  by (intro nth_equalityI)
    (auto simp: and_words_def length_mask_words merge_nth bit_simps intro!: bit_word_eqI)

text \<open>
  Whether the bits of format \<open>g\<close>, placed \<open>k\<close> registers into format \<open>f\<close>, are disjoint from those
  of \<open>f\<close>.
\<close>

definition bits_disjoint :: "format \<Rightarrow> nat \<Rightarrow> format \<Rightarrow> bool" where
  "bits_disjoint f k g \<longleftrightarrow>
     k + format_width g \<le> format_width f \<and>
     list_all (\<lambda>i. mask_words f ! (k + i) AND mask_words g ! i = 0) [0 ..< format_width g]"

lemma merge_sibling_masked:
  assumes "length ws = format_width (reg_format r)" "length old = length ws"
    "bits_disjoint (reg_format r) k g"
  shows "and_words (take (format_width g) (drop k (merge_write r old ws))) (mask_words g) =
         and_words (take (format_width g) (drop k old)) (mask_words g)"
proof (rule nth_equalityI)
  fix i assume "i < length (and_words (take (format_width g) (drop k (merge_write r old ws))) (mask_words g))"
  then have i: "i < format_width g" "k + i < length ws"
    using assms by (auto simp: and_words_def length_mask_words bits_disjoint_def)
  have d: "mask_words (reg_format r) ! (k + i) AND mask_words g ! i = 0"
    using assms(3) i by (auto simp: bits_disjoint_def list_all_iff)
  have "merge_write r old ws ! (k + i) AND mask_words g ! i = old ! (k + i) AND mask_words g ! i"
  proof (rule bit_word_eqI)
    fix n
    have "\<not> (bit (mask_words (reg_format r) ! (k + i)) n \<and> bit (mask_words g ! i) n)"
      using d by (metis bit_and_iff bit_0_eq bot_apply bot_bool_def)
    then show "bit (merge_write r old ws ! (k + i) AND mask_words g ! i) n =
               bit (old ! (k + i) AND mask_words g ! i) n"
      if "n < LENGTH(16)"
      using i that assms(1,2) by (auto simp: merge_nth bit_simps)
  qed
  then show "and_words (take (format_width g) (drop k (merge_write r old ws))) (mask_words g) ! i =
      and_words (take (format_width g) (drop k old)) (mask_words g) ! i"
    using i assms by (simp add: and_words_def length_mask_words)
qed (use assms in \<open>simp add: and_words_def\<close>)

section \<open>Hexadecimal input\<close>

lemma digit_of_hex: "d < 16 \<Longrightarrow> digit_of 16 (hex_digit d) = Some d"
  by (auto simp: digit_of_def hex_digit_def Let_def)

lemma hex_digit_no_sign: "d < 16 \<Longrightarrow> hex_digit d \<noteq> CHR ''+'' \<and> hex_digit d \<noteq> CHR ''-''"
  by (auto simp: hex_digit_def dest!: arg_cong [where f = "of_char :: char \<Rightarrow> nat"] split: if_splits)

lemma radix_loop_append:
  "radix_loop lo hi r pos acc (xs @ ys) =
     (case radix_loop lo hi r pos acc xs of Err e \<Rightarrow> Err e | Ok a \<Rightarrow> radix_loop lo hi r pos a ys)"
  by (induction xs arbitrary: acc) (cases pos; simp add: Let_def split: option.splits)+

lemma radix_loop_hex:
  assumes "n < 16 ^ w" "int n \<le> hi"
  shows "radix_loop 0 hi 16 True 0 (hex_digits w n) = Ok (int n)"
  using assms
proof (induction w arbitrary: n)
  case (Suc w)
  have "int (n div 16) \<le> int n" by (simp add: zdiv_int)
  moreover have "n div 16 < 16 ^ w" using Suc.prems(1) by (simp add: less_mult_imp_div_less mult.commute)
  ultimately have ih: "radix_loop 0 hi 16 True 0 (hex_digits w (n div 16)) = Ok (int (n div 16))"
    using Suc.IH [of "n div 16"] Suc.prems(2) by linarith
  have eq: "int (n div 16) * 16 + int (n mod 16) = int n"
    by (metis div_mult_mod_eq of_nat_add of_nat_mult of_nat_numeral)
  then have "int (n div 16) * 16 \<le> hi" using Suc.prems(2) by linarith
  then show ?case using ih eq Suc.prems(2) by (simp add: radix_loop_append digit_of_hex Let_def)
qed simp

lemma hd_hex_digits:
  "0 < w \<Longrightarrow> \<exists>c cs. hex_digits w n = c # cs \<and> c \<noteq> CHR ''+'' \<and> c \<noteq> CHR ''-''"
proof (induction w arbitrary: n)
  case (Suc w)
  show ?case
  proof (cases "w = 0")
    case True
    then show ?thesis using hex_digit_no_sign [of "n mod 16"] by simp
  next
    case False
    then obtain c cs where "hex_digits w (n div 16) = c # cs" "c \<noteq> CHR ''+''" "c \<noteq> CHR ''-''"
      using Suc.IH [of "n div 16"] by auto
    then show ?thesis by simp
  qed
qed simp

lemma from_str_radix_hex:
  assumes "n < 16 ^ w" "int n \<le> hi" "0 < w"
  shows "from_str_radix 0 hi 16 (hex_digits w n) = Ok (int n)"
proof -
  obtain c cs where "hex_digits w n = c # cs" "c \<noteq> CHR ''+''" "c \<noteq> CHR ''-''"
    using hd_hex_digits [OF assms(3)] by blast
  then show ?thesis using radix_loop_hex [OF assms(1,2)] by (simp add: from_str_radix_def)
qed

lemma from_str_radix_hex_word:
  assumes "LENGTH('u) = 4 * w" "0 < w"
  shows "from_str_radix 0 (unsigned_max LENGTH('u)) 16 (hex_digits w (unat v)) = Ok (uint (v :: 'u::len word))"
proof -
  have "unat v < 2 ^ (4 * w)" using unsigned_less [of v, where 'a = nat] assms(1) by simp
  then have "unat v < 16 ^ w" by (simp add: power_mult)
  moreover have "int (unat v) \<le> unsigned_max LENGTH('u)"
    using unsigned_less [of v, where 'a = int] by (simp add: unsigned_max_def)
  ultimately have "from_str_radix 0 (unsigned_max LENGTH('u)) 16 (hex_digits w (unat v)) = Ok (int (unat v))"
    using assms(2) by (rule from_str_radix_hex)
  then show ?thesis by simp
qed

lemma hex_prefix: "strip_prefix ''0x'' (hex_word w v) = Some (hex_digits w (unat v))"
    "strip_prefix ''-0x'' (hex_word w v) = None"
  by (simp_all add: strip_prefix_def hex_word_def)

lemma parse_hex_word:
  assumes "LENGTH('u) = 4 * w" "0 < w"
  shows "parse_uint (hex_word w v) = Ok (v :: 'u::len word)"
    and "parse_int (hex_word w v) = Ok (v :: 'u::len word)"
    and "parse_float pf (hex_word w v) = Ok (v :: 'u::len word)"
  using from_str_radix_hex_word [OF assms, of v]
  by (simp_all add: parse_uint_def parse_int_def parse_float_def hex_prefix int_result_def)

section \<open>Properties\<close>

text \<open>
  C2: the codec round trip. Whatever the kind, byte order, register order and bit field of a
  format, the words that \<open>encode_value\<close> produces are as many as the format is wide, and \<open>decode\<close>
  reads back from them (and from any longer slice that starts with them) the value as the format
  keeps it: the number cut to its field, the text padded or cut to the width and still UTF-8.
\<close>

theorem codec_round_trip:
  assumes "encode_value f v = Ok ws" "val_utf8 (stored_value f v)"
  shows "decode f (ws @ extra) = Ok (stored_value f v) \<and> length ws = format_width f"
  by (simp add: encode_value_result [OF assms] decode_exact)

definition demo_field :: format where
  "demo_field = format_int K_U32 Little Reversed 1 \<lparr>bf_mask = 0xFFFF00\<rparr>"

theorem codec_round_trip_witness:
  "encode_value demo_field (VNumeric (U32 0x1ABCD) 7) = (Ok [0xAB00, 0x00CD] :: (unit codec_error, u16 list) result) \<and>
   decode demo_field ([0xAB00, 0x00CD] @ [5]) = Ok (stored_value demo_field (VNumeric (U32 0x1ABCD) 7))"
proof -
  have "encode_value demo_field (VNumeric (U32 0x1ABCD) 7) =
      (Ok [0xAB00, 0x00CD] :: (unit codec_error, u16 list) result)" by code_simp
  moreover have "val_utf8 (stored_value demo_field (VNumeric (U32 0x1ABCD) 7))" by code_simp
  ultimately show ?thesis using codec_round_trip [of demo_field "VNumeric (U32 0x1ABCD) 7"] by blast
qed

text \<open>
  An integer written through the default, full bit field, in any kind, byte order and register
  order, decodes to itself; encoding succeeds exactly when the value has the kind of the format.
\<close>

theorem integer_round_trip_exact:
  assumes "bf_is_full (nf_bit_field nf)"
  shows "(case encode_value (Numeric nf) (VNumeric p r) of
            Ok ws \<Rightarrow> prim_kind p = Some (nf_kind nf) \<and> decode (Numeric nf) ws = Ok (VNumeric p (nf_resolution nf))
          | Err e \<Rightarrow> prim_kind p \<noteq> Some (nf_kind nf) \<and> e = ValueFormatMismatch (Numeric nf))"
proof (cases "encode_kind (nf_kind nf) (nf_endian nf) (nf_bit_field nf) p")
  case None
  then show ?thesis using assms encode_kind_eq_Some [of "nf_kind nf" "nf_endian nf" "nf_bit_field nf" p]
    by (simp add: encode_value_def bf_fits_def)
next
  case (Some ws)
  then show ?thesis
    using assms encode_kind_eq_Some [of "nf_kind nf" "nf_endian nf" "nf_bit_field nf" p]
    by (simp add: encode_value_def bf_fits_def field_prim_full decode_encode_numeric)
qed

theorem integer_round_trip_exact_witness:
  "bf_is_full bit_field_default \<and>
   (case encode_value (format_int K_I16 Little Normal 1 bit_field_default) (VNumeric (I16 (- 2)) 1) of
      Ok ws \<Rightarrow> prim_kind (I16 (- 2)) = Some K_I16 \<and>
              decode (format_int K_I16 Little Normal 1 bit_field_default) ws = Ok (VNumeric (I16 (- 2)) 1)
    | Err e \<Rightarrow> prim_kind (I16 (- 2)) \<noteq> Some K_I16 \<and>
              e = ValueFormatMismatch (format_int K_I16 Little Normal 1 bit_field_default))"
  using integer_round_trip_exact [of "\<lparr>nf_kind = K_I16, nf_endian = Little, nf_word_order = Normal,
      nf_resolution = 1, nf_bit_field = bit_field_default\<rparr>" "I16 (- 2)" 1]
  by (simp add: format_int_def bit_field_default_def bf_is_full_def cong: sum.case_cong)

text \<open>
  C4: merging a write into the words already stored. The register that owns the write decodes to
  the written value from the merged words, and a register packed into the same words whose bits are
  disjoint from the owner's, at any offset, decodes to what it decoded to before.
\<close>

theorem merge_write_isolates:
  assumes "encode_value (reg_format r) v = Ok ws" "val_utf8 (stored_value (reg_format r) v)"
    and "length old = format_width (reg_format r)" "bits_disjoint (reg_format r) k g"
  shows "decode (reg_format r) (merge_write r old ws) = Ok (stored_value (reg_format r) v) \<and>
         decode g (take (format_width g) (drop k (merge_write r old ws))) =
         decode g (take (format_width g) (drop k old))"
proof -
  note enc = conjunct1 [OF encode_value_result [OF assms(1,2)]] conjunct2 [OF encode_value_result [OF assms(1,2)]]
  have len: "length old = length ws" "k + format_width g \<le> length ws"
    using enc(2) assms(3,4) by (simp_all add: bits_disjoint_def)
  have "decode (reg_format r) (merge_write r old ws) = decode (reg_format r) ws"
    by (rule trans [OF decode_masked [symmetric] trans [OF _ decode_masked]])
      (simp_all add: enc(2) merge_masked [OF enc(2) len(1)])
  moreover have "decode g (take (format_width g) (drop k (merge_write r old ws))) =
      decode g (take (format_width g) (drop k old))"
    by (rule trans [OF decode_masked [symmetric] trans [OF _ decode_masked]])
      (use len in \<open>simp_all add: merge_sibling_masked [OF enc(2) len(1) assms(4)]\<close>)
  ultimately show ?thesis by (simp add: enc(1))
qed

definition demo_sibling :: format where
  "demo_sibling = format_int K_U8 Big Normal 1 \<lparr>bf_mask = 0xF0\<rparr>"

definition demo_owner :: register where
  "demo_owner = register_default (format_int K_U16 Big Normal 1 \<lparr>bf_mask = 0xFF0F\<rparr>)"

theorem merge_write_isolates_witness:
  "encode_value (reg_format demo_owner) (VNumeric (U16 0x1205) 1) =
     (Ok [0x1205] :: (unit codec_error, u16 list) result) \<and>
   decode (reg_format demo_owner) (merge_write demo_owner [0xABCD] [0x1205]) =
     Ok (stored_value (reg_format demo_owner) (VNumeric (U16 0x1205) 1)) \<and>
   decode demo_sibling (take (format_width demo_sibling) (drop 0 (merge_write demo_owner [0xABCD] [0x1205]))) =
   decode demo_sibling (take (format_width demo_sibling) (drop 0 [0xABCD]))"
proof -
  have 1: "encode_value (reg_format demo_owner) (VNumeric (U16 0x1205) 1) =
      (Ok [0x1205] :: (unit codec_error, u16 list) result)" by code_simp
  have 2: "val_utf8 (stored_value (reg_format demo_owner) (VNumeric (U16 0x1205) 1))" by code_simp
  have 3: "length [0xABCD :: u16] = format_width (reg_format demo_owner)" by code_simp
  have 4: "bits_disjoint (reg_format demo_owner) 0 demo_sibling" by code_simp
  from 1 merge_write_isolates [OF 1 2 3 4] show ?thesis by blast
qed

text \<open>
  C8: the hexadecimal text shown for a number (\<open>as_hex_str\<close>) is accepted as input for a format of
  its kind and parses back to exactly that number, whatever the decimal float parser does.
\<close>

definition prim_format :: "format \<Rightarrow> numeric_primitive \<Rightarrow> bool" where
  "prim_format f p \<longleftrightarrow>
     (case f of
        Numeric nf \<Rightarrow> bf_fits (nf_bit_field nf) (int_bits (nf_kind nf)) \<and> prim_kind p = Some (nf_kind nf)
      | Float ff \<Rightarrow> (case p of F32 _ \<Rightarrow> ff_kind ff = K_F32 | F64 _ \<Rightarrow> ff_kind ff = K_F64 | _ \<Rightarrow> False)
      | Ascii a w \<Rightarrow> False)"

theorem hex_text_parses_back:
  assumes "prim_format f p"
  shows "\<exists>r. parse_value pf32 pf64 f (val_as_hex_str (VNumeric p r')) = Ok (VNumeric p r) \<and>
         format_resolution f = Some r"
proof (cases f)
  case (Numeric nf)
  then show ?thesis using assms
    by (cases p) (auto simp: prim_format_def parse_value_def parse_kind_def parse_hex_word
        dest!: sym [of "Some _"])
next
  case (Float ff)
  then show ?thesis using assms
    by (cases p) (auto simp: prim_format_def parse_value_def parse_hex_word)
qed (use assms in \<open>simp add: prim_format_def\<close>)

theorem hex_text_parses_back_witness:
  "prim_format demo_field (U32 0x1ABCD) \<and>
   (\<exists>r. parse_value (\<lambda>_. Err True) (\<lambda>_. Err True) demo_field (val_as_hex_str (VNumeric (U32 0x1ABCD) 3)) =
        Ok (VNumeric (U32 0x1ABCD) r) \<and> format_resolution demo_field = Some r)"
proof -
  have "prim_format demo_field (U32 0x1ABCD)" by code_simp
  then show ?thesis using hex_text_parses_back [of demo_field "U32 0x1ABCD"] by blast
qed

end
