(* ===== verification/Ring_Buffer.thy ===== *)
theory Ring_Buffer
  imports Prelude
begin

text \<open>
  The fixed-capacity ring buffer (\<^verbatim>\<open>ferrowl-ring/src/lib.rs\<close>): an array of optional items, the
  index of the oldest one and the number of items. The capacity is the length of the array. The
  abstract view is the list of the items, oldest first; the contract is the locale
  \<open>bounded_queue\<close>.
\<close>

record 'a ring =
  rg_buf :: "'a option list"
  rg_head :: usize
  rg_len :: usize

definition ring_new :: "usize \<Rightarrow> 'a ring" where
  "ring_new cap = \<lparr>rg_buf = replicate cap None, rg_head = 0, rg_len = 0\<rparr>"

definition ring_capacity :: "'a ring \<Rightarrow> usize" where
  "ring_capacity r = length (rg_buf r)"

definition ring_is_empty :: "'a ring \<Rightarrow> bool" where
  "ring_is_empty r \<longleftrightarrow> rg_len r = 0"

definition ring_is_full :: "'a ring \<Rightarrow> bool" where
  "ring_is_full r \<longleftrightarrow> rg_len r = ring_capacity r"

text \<open>An assignment to an array slot; out of bounds it panics.\<close>

definition set_slot :: "'a list \<Rightarrow> usize \<Rightarrow> 'a \<Rightarrow> 'a list option" where
  "set_slot xs i x = (if i < length xs then Some (xs[i := x]) else None)"

definition get_slot :: "'a list \<Rightarrow> usize \<Rightarrow> 'a option" where
  "get_slot xs i = (if i < length xs then Some (xs ! i) else None)"

definition ring_push :: "'a ring \<Rightarrow> 'a \<Rightarrow> 'a ring option" where
  "ring_push r x =
     (if ring_capacity r = 0 then Some r
      else if rg_len r = ring_capacity r then do {
        buf \<leftarrow> set_slot (rg_buf r) (rg_head r) (Some x);
        Some (r\<lparr>rg_buf := buf, rg_head := (rg_head r + 1) mod ring_capacity r\<rparr>)
      }
      else do {
        buf \<leftarrow> set_slot (rg_buf r) ((rg_head r + rg_len r) mod ring_capacity r) (Some x);
        Some (r\<lparr>rg_buf := buf, rg_len := rg_len r + 1\<rparr>)
      })"

definition ring_peek :: "'a ring \<Rightarrow> 'a option option" where
  "ring_peek r = (if ring_is_empty r then Some None else get_slot (rg_buf r) (rg_head r))"

definition ring_iter :: "'a ring \<Rightarrow> 'a list" where
  "ring_iter r = List.map_filter (\<lambda>x. x) (drop (rg_head r) (rg_buf r) @ take (rg_head r) (rg_buf r))"

text \<open>Visiting every item mutably, oldest first, with a function that rewrites it.\<close>

definition ring_iter_mut :: "('a \<Rightarrow> 'a) \<Rightarrow> 'a ring \<Rightarrow> 'a ring" where
  "ring_iter_mut f r = r\<lparr>rg_buf := map (map_option f) (rg_buf r)\<rparr>"

definition ring_peek_n :: "'a ring \<Rightarrow> usize \<Rightarrow> 'a list" where
  "ring_peek_n r n = take n (ring_iter r)"

definition ring_pop :: "'a ring \<Rightarrow> ('a option \<times> 'a ring) option" where
  "ring_pop r =
     (if ring_is_empty r then Some (None, r)
      else do {
        item \<leftarrow> get_slot (rg_buf r) (rg_head r);
        buf \<leftarrow> set_slot (rg_buf r) (rg_head r) None;
        len \<leftarrow> usize_sub (rg_len r) 1;
        Some (item, r\<lparr>rg_buf := buf, rg_head := (rg_head r + 1) mod ring_capacity r, rg_len := len\<rparr>)
      })"

text \<open>The loop of \<open>pop_n\<close>: \<open>count\<close> pops, keeping the items that were there.\<close>

fun ring_pops :: "nat \<Rightarrow> 'a ring \<Rightarrow> ('a list \<times> 'a ring) option" where
  "ring_pops 0 r = Some ([], r)"
| "ring_pops (Suc n) r = do {
     (item, r') \<leftarrow> ring_pop r;
     (items, r'') \<leftarrow> ring_pops n r';
     Some ((case item of None \<Rightarrow> items | Some x \<Rightarrow> x # items), r'')
   }"

definition ring_pop_n :: "'a ring \<Rightarrow> usize \<Rightarrow> ('a list \<times> 'a ring) option" where
  "ring_pop_n r n = ring_pops (min n (rg_len r)) r"

definition ring_clear :: "'a ring \<Rightarrow> 'a ring" where
  "ring_clear r = r\<lparr>rg_buf := map (\<lambda>_. None) (rg_buf r), rg_head := 0, rg_len := 0\<rparr>"

fun ring_pushes :: "'a ring \<Rightarrow> 'a list \<Rightarrow> 'a ring option" where
  "ring_pushes r [] = Some r"
| "ring_pushes r (x # xs) = do {
     r' \<leftarrow> ring_push r x;
     ring_pushes r' xs
   }"

definition ring_from_iter :: "usize \<Rightarrow> 'a list \<Rightarrow> 'a ring option" where
  "ring_from_iter cap xs = ring_pushes (ring_new cap) xs"

section \<open>The contract of a bounded queue\<close>

text \<open>
  A queue of at most \<open>cap q\<close> items that drops its oldest item to make room. \<open>newest\<close> is the
  effect of a push on the list of items.
\<close>

definition newest :: "nat \<Rightarrow> 'a list \<Rightarrow> 'a list" where
  "newest n xs = drop (length xs - n) xs"

lemma newest_all [simp]: "length xs \<le> n \<Longrightarrow> newest n xs = xs"
  by (simp add: newest_def)

lemma length_newest [simp]: "length (newest n xs) = min n (length xs)"
  by (simp add: newest_def)

lemma newest_newest_append: "newest n (newest n xs @ ys) = newest n (xs @ ys)"
  by (cases "length xs \<le> n") (auto simp: newest_def add.commute)

locale bounded_queue =
  fixes inv :: "'q \<Rightarrow> bool" and cap :: "'q \<Rightarrow> nat" and items :: "'q \<Rightarrow> 'a list"
    and empty :: "nat \<Rightarrow> 'q" and push :: "'q \<Rightarrow> 'a \<Rightarrow> 'q option" and pop :: "'q \<Rightarrow> ('a option \<times> 'q) option"
  assumes inv_empty: "inv (empty n)" and cap_empty: "cap (empty n) = n" and items_empty: "items (empty n) = []"
    and bound: "inv q \<Longrightarrow> length (items q) \<le> cap q"
    and push_law: "inv q \<Longrightarrow> \<exists>q'. push q x = Some q' \<and> inv q' \<and> cap q' = cap q \<and>
                     items q' = newest (cap q) (items q @ [x])"
    and pop_law: "inv q \<Longrightarrow> \<exists>q'. inv q' \<and> cap q' = cap q \<and>
                     (case items q of
                        [] \<Rightarrow> pop q = Some (None, q') \<and> items q' = []
                      | x # xs \<Rightarrow> pop q = Some (Some x, q') \<and> items q' = xs)"
begin

fun pushes :: "'q \<Rightarrow> 'a list \<Rightarrow> 'q option" where
  "pushes q [] = Some q"
| "pushes q (x # xs) = Option.bind (push q x) (\<lambda>q'. pushes q' xs)"

fun pops :: "nat \<Rightarrow> 'q \<Rightarrow> ('a list \<times> 'q) option" where
  "pops 0 q = Some ([], q)"
| "pops (Suc n) q = Option.bind (pop q) (\<lambda>(i, q'). Option.bind (pops n q')
     (\<lambda>(is, q''). Some ((case i of None \<Rightarrow> is | Some x \<Rightarrow> x # is), q'')))"

lemma pushes_law:
  "inv q \<Longrightarrow> \<exists>q'. pushes q xs = Some q' \<and> inv q' \<and> cap q' = cap q \<and>
     items q' = newest (cap q) (items q @ xs)"
proof (induction xs arbitrary: q)
  case Nil
  then show ?case using bound by simp
next
  case (Cons x xs)
  obtain q1 where q1: "push q x = Some q1" "inv q1" "cap q1 = cap q" "items q1 = newest (cap q) (items q @ [x])"
    using push_law [OF Cons.prems] by blast
  from Cons.IH [OF q1(2)] q1 show ?case
    using newest_newest_append [of "cap q" "items q @ [x]" xs] by auto
qed

lemma pops_law:
  "inv q \<Longrightarrow> \<exists>q'. pops n q = Some (take n (items q), q') \<and> inv q' \<and> cap q' = cap q \<and>
     items q' = drop n (items q)"
proof (induction n arbitrary: q)
  case (Suc n)
  show ?case
  proof (cases "items q")
    case Nil
    then obtain q1 where "pop q = Some (None, q1)" "inv q1" "cap q1 = cap q" "items q1 = []"
      using pop_law [OF Suc.prems] by auto
    with Suc.IH [of q1] Nil show ?thesis by auto
  next
    case (Cons x xs)
    then obtain q1 where "pop q = Some (Some x, q1)" "inv q1" "cap q1 = cap q" "items q1 = xs"
      using pop_law [OF Suc.prems] by auto
    with Suc.IH [of q1] Cons show ?thesis by auto
  qed
qed simp

lemma pushes_then_pops:
  "\<exists>q q'. pushes (empty n) xs = Some q \<and> pops (length xs) q = Some (newest n xs, q') \<and> items q' = []"
proof -
  obtain q where q: "pushes (empty n) xs = Some q" "inv q" "items q = newest n xs"
    using pushes_law [OF inv_empty, of n xs] by (auto simp: cap_empty items_empty)
  from pops_law [OF q(2), of "length xs"] q show ?thesis by auto
qed

end

section \<open>The ring meets it\<close>

definition slot :: "'a ring \<Rightarrow> nat \<Rightarrow> 'a option" where
  "slot r j = rg_buf r ! ((rg_head r + j) mod ring_capacity r)"

definition wf_ring :: "'a ring \<Rightarrow> bool" where
  "wf_ring r \<longleftrightarrow> rg_len r \<le> ring_capacity r \<and> (ring_capacity r = 0 \<and> rg_head r = 0 \<or> rg_head r < ring_capacity r) \<and>
     (\<forall>j < ring_capacity r. (slot r j \<noteq> None) = (j < rg_len r))"

definition ring_items :: "'a ring \<Rightarrow> 'a list" where
  "ring_items r = map (\<lambda>j. the (slot r j)) [0 ..< rg_len r]"

lemma length_ring_items [simp]: "length (ring_items r) = rg_len r"
  by (simp add: ring_items_def)

lemma mod_shift_inj:
  fixes h i j c :: nat
  assumes "i < c" "j < c"
  shows "(h + i) mod c = (h + j) mod c \<longleftrightarrow> i = j"
proof -
  have *: "i = j" if "i \<le> j" "j < c" "(h + j) mod c = (h + i) mod c" for i j
  proof -
    have "c dvd (h + j) - (h + i)" using that mod_eq_dvd_iff_nat [of "h + i" "h + j" c] by simp
    with that show ?thesis by (auto dest: dvd_imp_le)
  qed
  show ?thesis using * [of i j] * [of j i] assms by (metis le_cases)
qed

lemma slot_eq_buf:
  assumes "rg_head r < ring_capacity r" "i < ring_capacity r"
  shows "\<exists>j < ring_capacity r. i = (rg_head r + j) mod ring_capacity r"
proof (cases "rg_head r \<le> i")
  case True
  then show ?thesis using assms by (intro exI [of _ "i - rg_head r"]) auto
next
  case False
  have "(rg_head r + (ring_capacity r - rg_head r + i)) mod ring_capacity r = i"
    using assms by simp
  with False assms show ?thesis by (intro exI [of _ "ring_capacity r - rg_head r + i"]) simp
qed

text \<open>Writing the head slot and advancing the head rotates the view by one.\<close>

lemma slot_advance:
  assumes "rg_head r < ring_capacity r" "j < ring_capacity r"
  shows "slot (r\<lparr>rg_buf := (rg_buf r)[rg_head r := v], rg_head := (rg_head r + 1) mod ring_capacity r, rg_len := n\<rparr>) j
         = (if Suc j = ring_capacity r then v else slot r (Suc j))"
proof -
  let ?c = "ring_capacity r" and ?h = "rg_head r"
  have idx: "((?h + 1) mod ?c + j) mod ?c = (?h + Suc j) mod ?c"
    by (simp add: mod_add_left_eq)
  show ?thesis
  proof (cases "Suc j = ?c")
    case True
    then have "(?h + Suc j) mod ?c = ?h" using assms(1) by simp
    with True idx assms show ?thesis by (simp add: slot_def ring_capacity_def)
  next
    case False
    then have "Suc j < ?c" using assms(2) by simp
    then have "(?h + Suc j) mod ?c \<noteq> ?h"
      using mod_shift_inj [of "Suc j" ?c 0 ?h] assms(1) by auto
    with False idx show ?thesis by (simp add: slot_def ring_capacity_def)
  qed
qed

lemma slot_append:
  assumes "rg_len r < ring_capacity r" "j < ring_capacity r"
  shows "slot (r\<lparr>rg_buf := (rg_buf r)[(rg_head r + rg_len r) mod ring_capacity r := v], rg_len := n\<rparr>) j
         = (if j = rg_len r then v else slot r j)"
proof -
  have "(rg_head r + rg_len r) mod ring_capacity r < length (rg_buf r)"
    using assms unfolding ring_capacity_def by (intro mod_less_divisor) linarith
  then show ?thesis
    using mod_shift_inj [OF assms(2,1), of "rg_head r"]
    by (auto simp: slot_def ring_capacity_def nth_list_update)
qed

lemma wf_ringD:
  assumes "wf_ring r"
  shows "rg_len r \<le> ring_capacity r" "j < ring_capacity r \<Longrightarrow> (slot r j \<noteq> None) = (j < rg_len r)"
    "0 < ring_capacity r \<Longrightarrow> rg_head r < ring_capacity r"
  using assms by (auto simp: wf_ring_def)

lemma ring_push_spec:
  assumes wf: "wf_ring r"
  shows "\<exists>r'. ring_push r x = Some r' \<and> wf_ring r' \<and> ring_capacity r' = ring_capacity r \<and>
           ring_items r' = newest (ring_capacity r) (ring_items r @ [x])"
proof -
  let ?c = "ring_capacity r"
  consider "?c = 0" | "0 < ?c" "rg_len r = ?c" | "0 < ?c" "rg_len r < ?c"
    using wf_ringD(1) [OF wf] by linarith
  then show ?thesis
  proof cases
    case 1
    then show ?thesis using wf wf_ringD(1) [OF wf] by (simp add: ring_push_def newest_def ring_items_def)
  next
    case 2
    note h = wf_ringD(3) [OF wf 2(1)]
    let ?r = "r\<lparr>rg_buf := (rg_buf r)[rg_head r := Some x], rg_head := (rg_head r + 1) mod ?c\<rparr>"
    have push: "ring_push r x = Some ?r"
      using 2 h by (simp add: ring_push_def set_slot_def ring_capacity_def)
    have cap: "ring_capacity ?r = ?c" by (simp add: ring_capacity_def)
    have sl: "slot ?r j = (if Suc j = ?c then Some x else slot r (Suc j))" if "j < ?c" for j
      using slot_advance [OF h that, where v = "Some x" and n = "rg_len r"] by simp
    have "wf_ring ?r"
      using 2 h wf_ringD(2) [OF wf] sl cap unfolding wf_ring_def by auto
    moreover have "ring_items ?r = newest ?c (ring_items r @ [x])"
      by (rule nth_equalityI) (use 2 sl in \<open>auto simp: newest_def ring_items_def nth_append\<close>)
    ultimately show ?thesis using push cap by blast
  next
    case 3
    note h = wf_ringD(3) [OF wf 3(1)]
    let ?r = "r\<lparr>rg_buf := (rg_buf r)[(rg_head r + rg_len r) mod ?c := Some x], rg_len := rg_len r + 1\<rparr>"
    have push: "ring_push r x = Some ?r"
      using 3 by (simp add: ring_push_def set_slot_def ring_capacity_def)
    have cap: "ring_capacity ?r = ?c" by (simp add: ring_capacity_def)
    have sl: "slot ?r j = (if j = rg_len r then Some x else slot r j)" if "j < ?c" for j
      using slot_append [OF 3(2) that, where v = "Some x" and n = "rg_len r + 1"] by simp
    have "wf_ring ?r"
      using 3 h wf_ringD(2) [OF wf] sl cap unfolding wf_ring_def by auto
    moreover have "ring_items ?r = newest ?c (ring_items r @ [x])"
      by (rule nth_equalityI) (use 3 sl in \<open>auto simp: ring_items_def nth_append less_Suc_eq\<close>)
    ultimately show ?thesis using push cap by blast
  qed
qed

lemma ring_pop_spec:
  assumes wf: "wf_ring r"
  shows "\<exists>r'. wf_ring r' \<and> ring_capacity r' = ring_capacity r \<and>
           (case ring_items r of
              [] \<Rightarrow> ring_pop r = Some (None, r') \<and> ring_items r' = []
            | x # xs \<Rightarrow> ring_pop r = Some (Some x, r') \<and> ring_items r' = xs)"
proof (cases "rg_len r")
  case 0
  then show ?thesis
    using wf by (intro exI [of _ r]) (simp add: ring_pop_def ring_is_empty_def ring_items_def)
next
  case (Suc n)
  let ?c = "ring_capacity r"
  let ?r = "r\<lparr>rg_buf := (rg_buf r)[rg_head r := None], rg_head := (rg_head r + 1) mod ?c, rg_len := n\<rparr>"
  have c: "0 < ?c" using wf_ringD(1) [OF wf] Suc by simp
  note h = wf_ringD(3) [OF wf c]
  have head: "rg_buf r ! rg_head r = slot r 0" using h by (simp add: slot_def)
  have cap: "ring_capacity ?r = ?c" by (simp add: ring_capacity_def)
  have sl: "slot ?r j = (if Suc j = ?c then None else slot r (Suc j))" if "j < ?c" for j
    using slot_advance [OF h that] by simp
  have "wf_ring ?r"
    using c h wf_ringD(1,2) [OF wf] sl cap Suc unfolding wf_ring_def by auto
  moreover have items: "ring_items r = the (slot r 0) # ring_items ?r"
    by (rule nth_equalityI)
      (use Suc sl wf_ringD(1) [OF wf] in \<open>auto simp: ring_items_def nth_Cons' simp del: upt_Suc\<close>)
  moreover have "ring_pop r = Some (Some (the (slot r 0)), ?r)"
    using Suc c h head wf_ringD(2) [OF wf c]
    by (auto simp: ring_pop_def ring_is_empty_def get_slot_def set_slot_def ring_capacity_def usize_sub_def)
  ultimately show ?thesis using cap by (intro exI [of _ ?r]) simp
qed

lemma wf_ring_new: "wf_ring (ring_new cap)"
  by (auto simp: wf_ring_def ring_new_def ring_capacity_def slot_def)

interpretation rb: bounded_queue wf_ring ring_capacity ring_items ring_new ring_push ring_pop
proof
  fix r :: "'a ring" and x :: 'a
  assume wf: "wf_ring r"
  show "length (ring_items r) \<le> ring_capacity r" using wf_ringD(1) [OF wf] by simp
  show "\<exists>r'. ring_push r x = Some r' \<and> wf_ring r' \<and> ring_capacity r' = ring_capacity r \<and>
      ring_items r' = newest (ring_capacity r) (ring_items r @ [x])"
    by (rule ring_push_spec [OF wf])
  show "\<exists>r'. wf_ring r' \<and> ring_capacity r' = ring_capacity r \<and>
      (case ring_items r of
         [] \<Rightarrow> ring_pop r = Some (None, r') \<and> ring_items r' = []
       | x # xs \<Rightarrow> ring_pop r = Some (Some x, r') \<and> ring_items r' = xs)"
    by (rule ring_pop_spec [OF wf])
qed (rule wf_ring_new, simp_all add: ring_new_def ring_capacity_def ring_items_def)

lemma ring_pushes_eq: "ring_pushes r xs = rb.pushes r xs"
  by (induction xs arbitrary: r) auto

lemma ring_pops_eq: "ring_pops n r = rb.pops n r"
  by (induction n arbitrary: r) auto

section \<open>Iteration\<close>

lemma map_filter_prefix:
  assumes "n \<le> length xs" "\<And>j. j < length xs \<Longrightarrow> (xs ! j \<noteq> None) = (j < n)"
  shows "List.map_filter (\<lambda>x. x) xs = map (\<lambda>j. the (xs ! j)) [0 ..< n]"
proof -
  have "filter (\<lambda>x. x \<noteq> None) (drop n xs) = []"
  proof -
    have "xs ! (n + i) = None" if "i < length xs - n" for i
      using assms(2) [of "n + i"] that by auto
    then show ?thesis by (auto simp: filter_empty_conv in_set_conv_nth)
  qed
  moreover have "filter (\<lambda>x. x \<noteq> None) (take n xs) = take n xs"
    using assms by (auto simp: filter_id_conv in_set_conv_nth)
  ultimately have "filter (\<lambda>x. x \<noteq> None) xs = take n xs"
    by (metis append_Nil2 append_take_drop_id filter_append)
  then show ?thesis
    using assms(1) by (simp add: map_filter_def comp_def nth_map_upt list_eq_iff_nth_eq)
qed

lemma ring_iter_items:
  assumes wf: "wf_ring r"
  shows "ring_iter r = ring_items r"
proof -
  let ?xs = "drop (rg_head r) (rg_buf r) @ take (rg_head r) (rg_buf r)"
  have len: "length ?xs = ring_capacity r" using wf by (auto simp: ring_capacity_def wf_ring_def)
  have nth: "?xs ! j = slot r j" if "j < ring_capacity r" for j
  proof -
    have "rg_head r < ring_capacity r" using wf that by (auto simp: wf_ring_def)
    then have "?xs = rotate (rg_head r) (rg_buf r)"
      by (simp add: rotate_drop_take ring_capacity_def)
    then show ?thesis using that by (simp add: nth_rotate slot_def ring_capacity_def)
  qed
  have "List.map_filter (\<lambda>x. x) ?xs = map (\<lambda>j. the (?xs ! j)) [0 ..< rg_len r]"
    by (rule map_filter_prefix) (use wf_ringD(1,2) [OF wf] len nth in auto)
  then show ?thesis
    using nth wf_ringD(1) [OF wf] by (simp add: ring_iter_def ring_items_def)
qed

lemma wf_ring_clear: "wf_ring (ring_clear r)" "ring_items (ring_clear r) = []"
    "ring_capacity (ring_clear r) = ring_capacity r"
  by (auto simp: wf_ring_def ring_clear_def ring_capacity_def slot_def ring_items_def)

lemma wf_ring_iter_mut:
  assumes "wf_ring r"
  shows "wf_ring (ring_iter_mut f r)" "ring_items (ring_iter_mut f r) = map f (ring_items r)"
    "ring_capacity (ring_iter_mut f r) = ring_capacity r"
proof -
  show cap: "ring_capacity (ring_iter_mut f r) = ring_capacity r"
    by (simp add: ring_iter_mut_def ring_capacity_def)
  have sl: "slot (ring_iter_mut f r) j = map_option f (slot r j)" if "0 < ring_capacity r" for j
    using that by (simp add: slot_def ring_iter_mut_def ring_capacity_def)
  then show "wf_ring (ring_iter_mut f r)"
    using assms by (auto simp: wf_ring_def cap) (auto simp: ring_iter_mut_def)
  show "ring_items (ring_iter_mut f r) = map f (ring_items r)"
  proof (rule nth_equalityI)
    fix j assume "j < length (ring_items (ring_iter_mut f r))"
    then have j: "j < rg_len r" by (simp add: ring_iter_mut_def)
    then have "slot r j \<noteq> None" "0 < ring_capacity r"
      using wf_ringD(1,2) [OF assms] by auto
    with j sl show "ring_items (ring_iter_mut f r) ! j = map f (ring_items r) ! j"
      by (auto simp: ring_items_def ring_iter_mut_def)
  qed (simp add: ring_iter_mut_def)
qed

section \<open>Any sequence of operations\<close>

text \<open>
  The operations of a ring in any order, each with the items it hands out, against the same
  operations on a list that keeps the newest \<open>cap\<close> items.
\<close>

datatype 'a ring_op = Push 'a | Pop | PopN usize | PeekN usize | Items | Clear

fun ring_exec :: "'a ring \<Rightarrow> 'a ring_op list \<Rightarrow> 'a list list option" where
  "ring_exec r [] = Some []"
| "ring_exec r (Push x # ops) = do { r' \<leftarrow> ring_push r x; map_option ((#) []) (ring_exec r' ops) }"
| "ring_exec r (Pop # ops) = do {
     (item, r') \<leftarrow> ring_pop r;
     map_option ((#) (case item of None \<Rightarrow> [] | Some x \<Rightarrow> [x])) (ring_exec r' ops)
   }"
| "ring_exec r (PopN n # ops) = do { (items, r') \<leftarrow> ring_pop_n r n; map_option ((#) items) (ring_exec r' ops) }"
| "ring_exec r (PeekN n # ops) = map_option ((#) (ring_peek_n r n)) (ring_exec r ops)"
| "ring_exec r (Items # ops) = map_option ((#) (ring_iter r)) (ring_exec r ops)"
| "ring_exec r (Clear # ops) = map_option ((#) []) (ring_exec (ring_clear r) ops)"

fun queue_exec :: "nat \<Rightarrow> 'a list \<Rightarrow> 'a ring_op list \<Rightarrow> 'a list list" where
  "queue_exec cap q [] = []"
| "queue_exec cap q (Push x # ops) = [] # queue_exec cap (newest cap (q @ [x])) ops"
| "queue_exec cap q (Pop # ops) = take 1 q # queue_exec cap (drop 1 q) ops"
| "queue_exec cap q (PopN n # ops) = take n q # queue_exec cap (drop n q) ops"
| "queue_exec cap q (PeekN n # ops) = take n q # queue_exec cap q ops"
| "queue_exec cap q (Items # ops) = q # queue_exec cap q ops"
| "queue_exec cap q (Clear # ops) = [] # queue_exec cap [] ops"

lemma ring_pop_n_spec:
  assumes "wf_ring r"
  shows "\<exists>r'. ring_pop_n r n = Some (take n (ring_items r), r') \<and> wf_ring r' \<and>
           ring_capacity r' = ring_capacity r \<and> ring_items r' = drop n (ring_items r)"
  using rb.pops_law [OF assms, of "min n (rg_len r)"]
  by (auto simp: ring_pop_n_def ring_pops_eq min_def)

lemma ring_exec_refines:
  "wf_ring r \<Longrightarrow> ring_exec r ops = Some (queue_exec (ring_capacity r) (ring_items r) ops)"
proof (induction r ops rule: ring_exec.induct)
  case (2 r x ops)
  obtain r' where "ring_push r x = Some r'" "wf_ring r'" "ring_capacity r' = ring_capacity r"
      "ring_items r' = newest (ring_capacity r) (ring_items r @ [x])"
    using rb.push_law [OF 2(2)] by blast
  with 2(1) show ?case by simp
next
  case (3 r ops)
  obtain r' where "wf_ring r'" "ring_capacity r' = ring_capacity r"
      "case ring_items r of
         [] \<Rightarrow> ring_pop r = Some (None, r') \<and> ring_items r' = []
       | x # xs \<Rightarrow> ring_pop r = Some (Some x, r') \<and> ring_items r' = xs"
    using rb.pop_law [OF 3(2)] by blast
  with 3(1) show ?case by (auto split: list.splits)
next
  case (4 r n ops)
  obtain r' where "ring_pop_n r n = Some (take n (ring_items r), r')" "wf_ring r'"
      "ring_capacity r' = ring_capacity r" "ring_items r' = drop n (ring_items r)"
    using ring_pop_n_spec [OF 4(2)] by blast
  with 4(1) show ?case by simp
qed (simp_all add: ring_peek_n_def ring_iter_items wf_ring_clear)

text \<open>
  C9. From an empty ring of any capacity, every sequence of pushes, pops, bulk pops, peeks,
  iterations and clears runs without a panic and hands out exactly what a list that keeps its
  newest items would: first in, first out, the oldest evicted on overflow.
\<close>

theorem ring_refines_queue: "ring_exec (ring_new cap) ops = Some (queue_exec cap [] ops)"
  using ring_exec_refines [OF wf_ring_new, of cap ops]
  by (simp add: ring_items_def ring_new_def ring_capacity_def)

text \<open>
  Collecting any number of items into a ring keeps exactly the last ones that fit, in their
  order, and iteration shows them oldest first.
\<close>

theorem ring_from_iter_keeps_newest:
  "\<exists>r. ring_from_iter cap xs = Some r \<and> ring_iter r = drop (length xs - cap) xs \<and>
     rg_len r = min cap (length xs)"
proof -
  obtain r where r: "rb.pushes (ring_new cap) xs = Some r" "wf_ring r" "ring_items r = newest cap xs"
    using rb.pushes_law [OF rb.inv_empty, of cap xs] by (auto simp: rb.cap_empty rb.items_empty)
  then have "rg_len r = min cap (length xs)"
    using length_ring_items [of r] by simp
  with r show ?thesis
    by (auto simp: ring_from_iter_def ring_pushes_eq ring_iter_items newest_def)
qed

end
