(* ===== verification/Store_Range.thy ===== *)
theory Store_Range
  imports Prelude
begin

text \<open>
  Address ranges of the register store (\<^verbatim>\<open>ferrowl-store/src/range.rs\<close>): half-open intervals,
  ordered by start and then by end as the keys of the store's ordered maps.
\<close>

datatype range = MkRange (r_start: usize) (r_end: usize)

text \<open>The derived \<open>Ord\<close> of the struct compares its fields in declaration order.\<close>

instantiation range :: linorder
begin

definition less_eq_range :: "range \<Rightarrow> range \<Rightarrow> bool" where
  "less_eq_range a b \<longleftrightarrow> r_start a < r_start b \<or> (r_start a = r_start b \<and> r_end a \<le> r_end b)"

definition less_range :: "range \<Rightarrow> range \<Rightarrow> bool" where
  "less_range a b \<longleftrightarrow> r_start a < r_start b \<or> (r_start a = r_start b \<and> r_end a < r_end b)"

instance
  by standard (auto simp: less_eq_range_def less_range_def range.expand)

end

lemmas range_order_defs = less_eq_range_def less_range_def

definition range_new :: "usize \<Rightarrow> usize \<Rightarrow> range option" where
  "range_new start sz = do {
     e \<leftarrow> usize_add start sz;
     Some (MkRange start e)
   }"

definition range_length :: "range \<Rightarrow> usize option" where
  "range_length r = usize_sub (r_end r) (r_start r)"

text \<open>Deserialisation refuses a range that ends before it starts; the error names both ends.\<close>

datatype range_error = InvalidRange usize usize

definition range_deserialize :: "usize \<Rightarrow> usize \<Rightarrow> (range_error, range) result" where
  "range_deserialize start e =
     (if e < start then Err (InvalidRange e start) else Ok (MkRange start e))"

definition range_intersect :: "range \<Rightarrow> range \<Rightarrow> range option option" where
  "range_intersect a b =
     (let start = max (r_start a) (r_start b);
          e = min (r_end a) (r_end b)
      in if start \<ge> e then Some None
         else do {
           sz \<leftarrow> usize_sub e start;
           r \<leftarrow> range_new start sz;
           Some (Some r)
         })"

text \<open>
  What both constructors establish: a range ends no earlier than it starts, and its end is a
  \<open>usize\<close>. Under it neither the length nor an intersection can panic.
\<close>

definition wf_range :: "range \<Rightarrow> bool" where
  "wf_range r \<longleftrightarrow> r_start r \<le> r_end r \<and> r_end r \<le> usize_max"

definition addrs :: "range \<Rightarrow> usize set" where
  "addrs r = {r_start r ..< r_end r}"

lemma mem_addrs [simp]: "a \<in> addrs r \<longleftrightarrow> r_start r \<le> a \<and> a < r_end r"
  by (simp add: addrs_def)

lemma finite_addrs [simp]: "finite (addrs r)"
  by (simp add: addrs_def)

lemma wf_range_MkRange [simp]: "wf_range (MkRange s e) \<longleftrightarrow> s \<le> e \<and> e \<le> usize_max"
  by (simp add: wf_range_def)

lemma wf_rangeD [dest]: "wf_range r \<Longrightarrow> r_start r \<le> r_end r" "wf_range r \<Longrightarrow> r_end r \<le> usize_max"
  by (simp_all add: wf_range_def)

lemma range_new_Some [panic_free]:
  "start + sz \<le> usize_max \<Longrightarrow> range_new start sz = Some (MkRange start (start + sz))"
  by (simp add: range_new_def panic_free)

lemma range_new_eq_Some [simp]:
  "range_new start sz = Some r \<longleftrightarrow> start + sz \<le> usize_max \<and> r = MkRange start (start + sz)"
  by (auto simp: range_new_def usize_add_def)

lemma range_new_wf: "range_new start sz = Some r \<Longrightarrow> wf_range r"
  by auto

lemma range_length_Some [panic_free]:
  "wf_range r \<Longrightarrow> range_length r = Some (r_end r - r_start r)"
  by (simp add: range_length_def panic_free wf_rangeD)

text \<open>Overlap is a non-empty common address set, and the intersection is exactly that set.\<close>

lemma range_intersect_Some [panic_free]:
  assumes "wf_range a" and "wf_range b"
  shows "range_intersect a b =
    Some (if addrs a \<inter> addrs b = {} then None
          else Some (MkRange (max (r_start a) (r_start b)) (min (r_end a) (r_end b))))"
proof -
  define s e where "s = max (r_start a) (r_start b)" and "e = min (r_end a) (r_end b)"
  have unf: "range_intersect a b =
      (if e \<le> s then Some None
       else do { sz \<leftarrow> usize_sub e s; r \<leftarrow> range_new s sz; Some (Some r) })"
    by (simp add: range_intersect_def Let_def s_def e_def)
  have iff: "addrs a \<inter> addrs b = {} \<longleftrightarrow> e \<le> s"
  proof
    assume "e \<le> s"
    then show "addrs a \<inter> addrs b = {}"
      by (auto simp: s_def e_def)
  next
    assume "addrs a \<inter> addrs b = {}"
    then have "s \<notin> addrs a \<inter> addrs b" by blast
    then show "e \<le> s"
      by (auto simp: s_def e_def)
  qed
  have "e \<le> usize_max"
    using assms by (auto simp: e_def dest: wf_rangeD(2))
  with iff show ?thesis
    unfolding unf by (simp add: panic_free s_def [symmetric] e_def [symmetric])
qed

lemma addrs_intersect:
  "addrs (MkRange (max (r_start a) (r_start b)) (min (r_end a) (r_end b))) = addrs a \<inter> addrs b"
  by auto

end
