(* ===== verification/Store_Cell.thy ===== *)
theory Store_Cell
  imports Store_Range
begin

text \<open>
  Cells of the register store (\<^verbatim>\<open>ferrowl-store/src/cell.rs\<close>): a 16-bit value with the Modbus
  data type it holds and the access direction it permits.
\<close>

datatype cell_type = Coil | Register

datatype access = Read | Write | ReadWrite

record cell_kind =
  ck_ty :: cell_type
  ck_access :: access

definition kind_read :: "cell_type \<Rightarrow> cell_kind" where
  "kind_read ty = \<lparr>ck_ty = ty, ck_access = Read\<rparr>"

definition kind_write :: "cell_type \<Rightarrow> cell_kind" where
  "kind_write ty = \<lparr>ck_ty = ty, ck_access = Write\<rparr>"

definition kind_read_write :: "cell_type \<Rightarrow> cell_kind" where
  "kind_read_write ty = \<lparr>ck_ty = ty, ck_access = ReadWrite\<rparr>"

record cell =
  c_kind :: cell_kind
  c_value :: u16

definition cell_from_u16 :: "cell_kind \<Rightarrow> u16 \<Rightarrow> cell" where
  "cell_from_u16 kind init = \<lparr>c_kind = kind, c_value = init\<rparr>"

definition cell_zeroed :: "cell_kind \<Rightarrow> cell" where
  "cell_zeroed kind = cell_from_u16 kind 0"

definition accepts_write :: "cell_type \<Rightarrow> cell \<Rightarrow> bool" where
  "accepts_write ty c \<longleftrightarrow>
     ck_ty (c_kind c) = ty \<and> (ck_access (c_kind c) = Write \<or> ck_access (c_kind c) = ReadWrite)"

definition accepts_read :: "cell_type \<Rightarrow> cell \<Rightarrow> bool" where
  "accepts_read ty c \<longleftrightarrow>
     ck_ty (c_kind c) = ty \<and> (ck_access (c_kind c) = Read \<or> ck_access (c_kind c) = ReadWrite)"

definition try_set_value :: "cell \<Rightarrow> u16 \<Rightarrow> cell" where
  "try_set_value c v = (if ck_access (c_kind c) \<noteq> Read then c\<lparr>c_value := v\<rparr> else c)"

definition try_value :: "cell \<Rightarrow> u16 option" where
  "try_value c = (if ck_access (c_kind c) \<noteq> Write then Some (c_value c) else None)"

text \<open>
  A borrowed run of values with the range it occupies; the range is derived from the number of
  values, so the constructor panics where the range would.
\<close>

record value_range =
  vr_range :: range
  vr_values :: "u16 list"

definition value_range_new :: "usize \<Rightarrow> u16 list \<Rightarrow> value_range option" where
  "value_range_new start vs = do {
     r \<leftarrow> range_new start (length vs);
     Some \<lparr>vr_range = r, vr_values = vs\<rparr>
   }"

text \<open>Access checks decide what the unchecked setters and getters do.\<close>

lemma accepts_write_set [simp]: "accepts_write ty c \<Longrightarrow> try_set_value c v = c\<lparr>c_value := v\<rparr>"
  by (auto simp: accepts_write_def try_set_value_def)

lemma accepts_read_get [simp]: "accepts_read ty c \<Longrightarrow> try_value c = Some (c_value c)"
  by (auto simp: accepts_read_def try_value_def)

lemma accepts_write_update [simp]: "accepts_write ty (c\<lparr>c_value := v\<rparr>) = accepts_write ty c"
  by (simp add: accepts_write_def)

lemma accepts_read_update [simp]: "accepts_read ty (c\<lparr>c_value := v\<rparr>) = accepts_read ty c"
  by (simp add: accepts_read_def)

lemma c_kind_try_set_value [simp]: "c_kind (try_set_value c v) = c_kind c"
  by (simp add: try_set_value_def)

end
