(* ===== verification/Store_Slice.thy ===== *)
theory Store_Slice
  imports Store_Cell
begin

text \<open>
  Contiguous runs of cells (\<^verbatim>\<open>ferrowl-store/src/slice.rs\<close>): \<open>sl_buffer ! i\<close> is the cell at
  address \<open>r_start (sl_range s) + i\<close>.
\<close>

record slice =
  sl_range :: range
  sl_buffer :: "cell list"

definition slice_from_range :: "cell_kind \<Rightarrow> range \<Rightarrow> slice option" where
  "slice_from_range kind r = do {
     n \<leftarrow> range_length r;
     Some \<lparr>sl_range = r, sl_buffer = replicate n (cell_zeroed kind)\<rparr>
   }"

definition slice_from_value_range :: "cell_kind \<Rightarrow> value_range \<Rightarrow> slice" where
  "slice_from_value_range kind vr =
     \<lparr>sl_range = vr_range vr, sl_buffer = map (cell_from_u16 kind) (vr_values vr)\<rparr>"

text \<open>Growing a slice by an adjacent range; any other range leaves it alone.\<close>

definition slice_extend :: "cell_kind \<Rightarrow> range \<Rightarrow> slice \<Rightarrow> (bool \<times> slice) option" where
  "slice_extend kind r s =
     (if r_end r = r_start (sl_range s) then do {
        n \<leftarrow> range_length r;
        old \<leftarrow> range_length (sl_range s);
        total \<leftarrow> usize_add n old;
        r' \<leftarrow> range_new (r_start r) total;
        Some (True, \<lparr>sl_range = r', sl_buffer = replicate n (cell_zeroed kind) @ sl_buffer s\<rparr>)
      }
      else if r_start r = r_end (sl_range s) then do {
        n \<leftarrow> range_length r;
        old \<leftarrow> range_length (sl_range s);
        total \<leftarrow> usize_add n old;
        r' \<leftarrow> range_new (r_start (sl_range s)) total;
        Some (True, \<lparr>sl_range = r', sl_buffer = sl_buffer s @ replicate n (cell_zeroed kind)\<rparr>)
      }
      else Some (False, s))"

definition slice_contains :: "slice \<Rightarrow> range \<Rightarrow> bool" where
  "slice_contains s r \<longleftrightarrow>
     r_start r \<ge> r_start (sl_range s) \<and> r_end r \<le> r_end (sl_range s)"

definition cells_in :: "slice \<Rightarrow> range \<Rightarrow> cell list option" where
  "cells_in s r = do {
     off \<leftarrow> usize_sub (r_start r) (r_start (sl_range s));
     n \<leftarrow> range_length r;
     Some (take n (drop off (sl_buffer s)))
   }"

definition cells_in_mut :: "slice \<Rightarrow> range \<Rightarrow> (cell list \<Rightarrow> cell list) \<Rightarrow> slice option" where
  "cells_in_mut s r f = do {
     off \<leftarrow> usize_sub (r_start r) (r_start (sl_range s));
     n \<leftarrow> range_length r;
     Some (s\<lparr>sl_buffer := splice_at off n f (sl_buffer s)\<rparr>)
   }"

definition slice_writable :: "cell_type \<Rightarrow> slice \<Rightarrow> range \<Rightarrow> bool option" where
  "slice_writable ty s r =
     (if slice_contains s r then do {
        cs \<leftarrow> cells_in s r;
        Some (list_all (accepts_write ty) cs)
      }
      else Some False)"

definition slice_write :: "slice \<Rightarrow> range \<Rightarrow> u16 list \<Rightarrow> (bool \<times> slice) option" where
  "slice_write s r vs = do {
     ok \<leftarrow> (if slice_contains s r then do {
              n \<leftarrow> range_length r;
              Some (n = length vs)
            }
            else Some False);
     if ok then do {
       s' \<leftarrow> cells_in_mut s r (\<lambda>cs. upd_zip try_set_value cs vs);
       Some (True, s')
     }
     else Some (False, s)
   }"

definition slice_write_unchecked :: "slice \<Rightarrow> range \<Rightarrow> u16 list \<Rightarrow> (bool \<times> slice) option" where
  "slice_write_unchecked s r vs = do {
     ok \<leftarrow> (if slice_contains s r then do {
              n \<leftarrow> range_length r;
              Some (n = length vs)
            }
            else Some False);
     if ok then do {
       s' \<leftarrow> cells_in_mut s r (\<lambda>cs. upd_zip (\<lambda>c v. c\<lparr>c_value := v\<rparr>) cs vs);
       Some (True, s')
     }
     else Some (False, s)
   }"

definition slice_read :: "slice \<Rightarrow> range \<Rightarrow> u16 list option option" where
  "slice_read s r =
     (if \<not> slice_contains s r then Some None
      else do {
        cs \<leftarrow> cells_in s r;
        Some (all_some (map try_value cs))
      })"

definition slice_read_unchecked :: "slice \<Rightarrow> range \<Rightarrow> u16 list option option" where
  "slice_read_unchecked s r =
     (if \<not> slice_contains s r then Some None
      else do {
        cs \<leftarrow> cells_in s r;
        Some (Some (map c_value cs))
      })"

definition slice_readable :: "cell_type \<Rightarrow> slice \<Rightarrow> range \<Rightarrow> bool option" where
  "slice_readable ty s r =
     (if slice_contains s r then do {
        cs \<leftarrow> cells_in s r;
        Some (list_all (accepts_read ty) cs)
      }
      else Some False)"

section \<open>Well-formed slices\<close>

text \<open>The representation invariant: one cell per address of a well-formed range.\<close>

definition wf_slice :: "slice \<Rightarrow> bool" where
  "wf_slice s \<longleftrightarrow>
     wf_range (sl_range s) \<and> length (sl_buffer s) = r_end (sl_range s) - r_start (sl_range s)"

text \<open>The cell at an address of the slice.\<close>

definition cell_at :: "slice \<Rightarrow> usize \<Rightarrow> cell" where
  "cell_at s a = sl_buffer s ! (a - r_start (sl_range s))"

lemma wf_sliceD [dest]:
  "wf_slice s \<Longrightarrow> wf_range (sl_range s)"
  "wf_slice s \<Longrightarrow> length (sl_buffer s) = r_end (sl_range s) - r_start (sl_range s)"
  by (simp_all add: wf_slice_def)

lemma slice_eqI:
  assumes "wf_slice s" "wf_slice t" "sl_range s = sl_range t"
    and "\<And>a. a \<in> addrs (sl_range s) \<Longrightarrow> cell_at s a = cell_at t a"
  shows "s = t"
proof -
  have "sl_buffer s = sl_buffer t"
  proof (rule nth_equalityI)
    show "length (sl_buffer s) = length (sl_buffer t)"
      using assms(1-3) by (simp add: wf_slice_def)
  next
    fix i assume "i < length (sl_buffer s)"
    then show "sl_buffer s ! i = sl_buffer t ! i"
      using assms(4) [of "r_start (sl_range s) + i"] assms(1,3)
      by (auto simp: cell_at_def wf_slice_def)
  qed
  then show ?thesis using assms(3) by simp
qed

lemma slice_from_range_wf [panic_free]:
  "wf_range r \<Longrightarrow> slice_from_range kind r =
     Some \<lparr>sl_range = r, sl_buffer = replicate (r_end r - r_start r) (cell_zeroed kind)\<rparr>"
  by (simp add: slice_from_range_def panic_free)

lemma wf_slice_fresh:
  "wf_range r \<Longrightarrow> wf_slice \<lparr>sl_range = r, sl_buffer = replicate (r_end r - r_start r) c\<rparr>"
  by (simp add: wf_slice_def)

lemma cells_in_eq [panic_free]:
  assumes "wf_slice s" "wf_range r" "slice_contains s r"
  shows "cells_in s r = Some (map (cell_at s) [r_start r ..< r_end r])"
proof -
  let ?b = "r_start (sl_range s)"
  have b: "?b \<le> r_start r" and e: "r_end r \<le> r_end (sl_range s)"
    using assms(3) by (simp_all add: slice_contains_def)
  have "take (r_end r - r_start r) (drop (r_start r - ?b) (sl_buffer s)) =
          map (\<lambda>a. sl_buffer s ! (a - ?b)) [r_start r ..< r_end r]"
    using take_drop_eq_map_nth [of "r_start r - ?b" "r_end r - r_start r" "sl_buffer s" ?b]
      assms(1,2) b e by (auto simp: wf_slice_def wf_range_def)
  with b assms(2) show ?thesis
    by (simp add: cells_in_def panic_free cell_at_def [abs_def])
qed

lemma slice_writable_eq [panic_free]:
  assumes "wf_slice s" "wf_range r" "slice_contains s r"
  shows "slice_writable ty s r = Some (\<forall>a \<in> addrs r. accepts_write ty (cell_at s a))"
  using assms by (simp add: slice_writable_def panic_free list_all_iff addrs_def)

lemma slice_readable_eq [panic_free]:
  assumes "wf_slice s" "wf_range r" "slice_contains s r"
  shows "slice_readable ty s r = Some (\<forall>a \<in> addrs r. accepts_read ty (cell_at s a))"
  using assms by (simp add: slice_readable_def panic_free list_all_iff addrs_def)

lemma slice_read_unchecked_eq [panic_free]:
  assumes "wf_slice s" "wf_range r" "slice_contains s r"
  shows "slice_read_unchecked s r = Some (Some (map (\<lambda>a. c_value (cell_at s a)) [r_start r ..< r_end r]))"
  using assms by (simp add: slice_read_unchecked_def panic_free comp_def)

lemma slice_read_eq [panic_free]:
  assumes "wf_slice s" "wf_range r" "slice_contains s r"
    and "\<And>a. a \<in> addrs r \<Longrightarrow> accepts_read ty (cell_at s a)"
  shows "slice_read s r = Some (Some (map (\<lambda>a. c_value (cell_at s a)) [r_start r ..< r_end r]))"
proof -
  have "all_some (map (\<lambda>a. try_value (cell_at s a)) [r_start r ..< r_end r]) =
          Some (map (\<lambda>a. c_value (cell_at s a)) [r_start r ..< r_end r])"
    by (rule all_some_cong_Some) (use assms(4) in \<open>auto intro: accepts_read_get\<close>)
  with assms(1-3) show ?thesis
    by (simp add: slice_read_def panic_free comp_def)
qed

text \<open>Updating a sub-slice in place changes exactly its addresses.\<close>

lemma cells_in_mut_spec:
  assumes "wf_slice s" "wf_range r" "slice_contains s r" "length vs = r_end r - r_start r"
  obtains s' where "cells_in_mut s r (\<lambda>cs. upd_zip f cs vs) = Some s'"
    and "wf_slice s'" and "sl_range s' = sl_range s"
    and "\<And>a. a \<in> addrs (sl_range s) \<Longrightarrow> cell_at s' a =
           (if a \<in> addrs r then f (cell_at s a) (vs ! (a - r_start r)) else cell_at s a)"
proof -
  let ?b = "r_start (sl_range s)" and ?n = "r_end r - r_start r"
  let ?off = "r_start r - ?b"
  let ?s' = "s\<lparr>sl_buffer := splice_at ?off ?n (\<lambda>cs. upd_zip f cs vs) (sl_buffer s)\<rparr>"
  have b: "?b \<le> r_start r" and e: "r_end r \<le> r_end (sl_range s)" and se: "r_start r \<le> r_end r"
    using assms(2,3) by (auto simp: slice_contains_def)
  have len: "length (sl_buffer s) = r_end (sl_range s) - ?b"
    using assms(1) by (simp add: wf_slice_def)
  have bound: "?off + ?n \<le> length (sl_buffer s)"
    using b e se len by simp
  have "cells_in_mut s r (\<lambda>cs. upd_zip f cs vs) = Some ?s'"
    using b assms(2) by (simp add: cells_in_mut_def panic_free)
  moreover have "wf_slice ?s'" "sl_range ?s' = sl_range s"
    using assms(1) by (simp_all add: wf_slice_def)
  moreover have "cell_at ?s' a =
      (if a \<in> addrs r then f (cell_at s a) (vs ! (a - r_start r)) else cell_at s a)"
    if a: "a \<in> addrs (sl_range s)" for a
  proof -
    have i: "a - ?b < length (sl_buffer s)"
      using a len by auto
    have "cell_at ?s' a = (if ?off \<le> a - ?b \<and> a - ?b < ?off + ?n
        then upd_zip f (take ?n (drop ?off (sl_buffer s))) vs ! (a - ?b - ?off)
        else sl_buffer s ! (a - ?b))"
      using splice_at_nth [OF _ i bound, of "\<lambda>cs. upd_zip f cs vs"] by (simp add: cell_at_def)
    moreover have "(?off \<le> a - ?b \<and> a - ?b < ?off + ?n) = (a \<in> addrs r)"
      using a b e se by auto
    moreover have "upd_zip f (take ?n (drop ?off (sl_buffer s))) vs ! (a - ?b - ?off) =
        f (cell_at s a) (vs ! (a - r_start r))" if "a \<in> addrs r"
      using that a b e se bound assms(4)
      by (subst upd_zip_nth) (auto simp: cell_at_def)
    ultimately show ?thesis
      by (simp add: cell_at_def)
  qed
  ultimately show thesis
    by (rule that)
qed

lemma slice_write_spec:
  assumes "wf_slice s" "wf_range r" "slice_contains s r" "length vs = r_end r - r_start r"
  obtains s' where "slice_write s r vs = Some (True, s')"
    and "wf_slice s'" and "sl_range s' = sl_range s"
    and "\<And>a. a \<in> addrs (sl_range s) \<Longrightarrow> cell_at s' a =
           (if a \<in> addrs r then try_set_value (cell_at s a) (vs ! (a - r_start r)) else cell_at s a)"
  by (rule cells_in_mut_spec [OF assms, of try_set_value])
    (use assms that in \<open>simp add: slice_write_def panic_free\<close>)

lemma slice_write_unchecked_spec:
  assumes "wf_slice s" "wf_range r" "slice_contains s r" "length vs = r_end r - r_start r"
  obtains s' where "slice_write_unchecked s r vs = Some (True, s')"
    and "wf_slice s'" and "sl_range s' = sl_range s"
    and "\<And>a. a \<in> addrs (sl_range s) \<Longrightarrow> cell_at s' a =
           (if a \<in> addrs r then (cell_at s a)\<lparr>c_value := vs ! (a - r_start r)\<rparr> else cell_at s a)"
  by (rule cells_in_mut_spec [OF assms, of "\<lambda>c v. c\<lparr>c_value := v\<rparr>"])
    (use assms that in \<open>simp add: slice_write_unchecked_def panic_free\<close>)

end
