(* ===== verification/Ordered_Map.thy ===== *)
theory Ordered_Map
  imports Prelude
begin

text \<open>
  The ordered map of Rust's standard library, \<open>BTreeMap\<close>, as far as the program uses it:
  insertion that replaces an equal key, removal that hands the value back, lookup, and iteration
  in ascending key order. The contract is the locale \<open>ordered_map\<close>; the instance is a list of
  entries in strictly ascending key order.
\<close>

locale ordered_map =
  fixes ins :: "'k::linorder \<Rightarrow> 'v \<Rightarrow> 'm \<Rightarrow> 'm"
    and rem :: "'k \<Rightarrow> 'm \<Rightarrow> ('v \<times> 'm) option"
    and get :: "'m \<Rightarrow> 'k \<Rightarrow> 'v option"
    and entries :: "'m \<Rightarrow> ('k \<times> 'v) list"
    and invar :: "'m \<Rightarrow> bool"
  assumes entries_ascending: "invar m \<Longrightarrow> sorted_wrt (<) (map fst (entries m))"
    and get_entries: "invar m \<Longrightarrow> get m = map_of (entries m)"
    and invar_ins: "invar m \<Longrightarrow> invar (ins k v m)"
    and get_ins: "invar m \<Longrightarrow> get (ins k v m) = (get m)(k \<mapsto> v)"
    and rem_None: "invar m \<Longrightarrow> rem k m = None \<longleftrightarrow> get m k = None"
    and rem_Some: "invar m \<Longrightarrow> rem k m = Some (v, m') \<Longrightarrow>
                     get m k = Some v \<and> invar m' \<and> get m' = (get m)(k := None)"
begin

lemma distinct_keys: "invar m \<Longrightarrow> distinct (map fst (entries m))"
  using entries_ascending by (simp add: strict_sorted_iff)

lemma mem_entries: "invar m \<Longrightarrow> (k, v) \<in> set (entries m) \<longleftrightarrow> get m k = Some v"
  using distinct_keys [of m] get_entries [of m] by (auto simp: map_of_eq_Some_iff)

lemma entries_ins:
  "invar m \<Longrightarrow> set (entries (ins k v m)) = Set.insert (k, v) {e \<in> set (entries m). fst e \<noteq> k}"
  by (auto simp: mem_entries invar_ins get_ins split: if_splits)

lemma entries_rem:
  assumes "invar m" "rem k m = Some (v, m')"
  shows "set (entries m') = {e \<in> set (entries m). fst e \<noteq> k}"
  using rem_Some [OF assms] assms(1) by (auto simp: mem_entries split: if_splits)

lemma ins_after_rem_same_keys:
  assumes "invar m" "rem k m = Some (v, m')"
  shows "get (ins k v m') = get m"
  using rem_Some [OF assms] assms(1) by (auto simp: get_ins)

end

section \<open>The instance\<close>

fun bt_insert :: "'k::linorder \<Rightarrow> 'v \<Rightarrow> ('k \<times> 'v) list \<Rightarrow> ('k \<times> 'v) list" where
  "bt_insert k v [] = [(k, v)]"
| "bt_insert k v ((k', v') # m) =
     (if k < k' then (k, v) # (k', v') # m
      else if k = k' then (k, v) # m
      else (k', v') # bt_insert k v m)"

fun bt_remove :: "'k \<Rightarrow> ('k \<times> 'v) list \<Rightarrow> ('v \<times> ('k \<times> 'v) list) option" where
  "bt_remove k [] = None"
| "bt_remove k ((k', v') # m) =
     (if k = k' then Some (v', m)
      else map_option (\<lambda>(v, m'). (v, (k', v') # m')) (bt_remove k m))"

definition bt_sorted :: "('k::linorder \<times> 'v) list \<Rightarrow> bool" where
  "bt_sorted m \<longleftrightarrow> sorted_wrt (<) (map fst m)"

lemma set_bt_insert: "bt_sorted m \<Longrightarrow> set (bt_insert k v m) = Set.insert (k, v) {e \<in> set m. fst e \<noteq> k}"
  by (induction k v m rule: bt_insert.induct) (auto simp: bt_sorted_def)

lemma bt_sorted_insert: "bt_sorted m \<Longrightarrow> bt_sorted (bt_insert k v m)"
proof (induction k v m rule: bt_insert.induct)
  case (2 k v k' v' m)
  then have "bt_sorted m" and lt: "\<forall>x \<in> set m. k' < fst x"
    by (auto simp: bt_sorted_def)
  with 2 show ?case
    using set_bt_insert [of m k v] by (auto simp: bt_sorted_def)
qed (simp add: bt_sorted_def)

lemma map_of_bt_insert: "bt_sorted m \<Longrightarrow> map_of (bt_insert k v m) = (map_of m)(k \<mapsto> v)"
  by (induction k v m rule: bt_insert.induct) (auto simp: bt_sorted_def)

lemma bt_remove_filter:
  "distinct (map fst m) \<Longrightarrow>
     bt_remove k m = map_option (\<lambda>v. (v, filter (\<lambda>e. fst e \<noteq> k) m)) (map_of m k)"
proof (induction k m rule: bt_remove.induct)
  case (2 k k' v' m)
  have "filter (\<lambda>e. fst e \<noteq> k) m = m" if "k = k'"
    using 2(2) that by (auto simp: filter_id_conv)
  with 2 show ?case
    by (auto simp: option.map_comp comp_def)
qed simp

lemma bt_sorted_distinct: "bt_sorted m \<Longrightarrow> distinct (map fst m)"
  by (simp add: bt_sorted_def strict_sorted_iff)

lemma bt_sorted_filter: "bt_sorted m \<Longrightarrow> bt_sorted (filter P m)"
  by (induction m) (auto simp: bt_sorted_def)

lemma map_of_filter_key: "map_of (filter (\<lambda>e. fst e \<noteq> k) m) = (map_of m)(k := None)"
  by (induction m) auto

interpretation bt: ordered_map bt_insert bt_remove map_of "\<lambda>m. m" bt_sorted
proof
  fix m :: "('k::linorder \<times> 'v) list" and k
  assume inv: "bt_sorted m"
  show "bt_remove k m = None \<longleftrightarrow> map_of m k = None"
    using inv by (simp add: bt_remove_filter bt_sorted_distinct)
  fix v m'
  assume "bt_remove k m = Some (v, m')"
  then show "map_of m k = Some v \<and> bt_sorted m' \<and> map_of m' = (map_of m)(k := None)"
    using inv by (auto simp: bt_remove_filter bt_sorted_distinct bt_sorted_filter map_of_filter_key)
qed (simp_all add: bt_sorted_insert map_of_bt_insert bt_sorted_def [symmetric])

section \<open>Ordered sets\<close>

text \<open>\<open>BTreeSet\<close> is the map whose values carry nothing.\<close>

lemma bt_insert_keys: "bt_sorted m \<Longrightarrow> fst ` set (bt_insert k v m) = Set.insert k (fst ` set m)"
  using set_bt_insert [of m k v] by force

lemma bt_fold_insert:
  "bt_sorted m \<Longrightarrow> bt_sorted (fold (\<lambda>k. bt_insert k ()) ks m) \<and>
     fst ` set (fold (\<lambda>k. bt_insert k ()) ks m) = set ks \<union> fst ` set m"
  by (induction ks arbitrary: m) (auto simp: bt_sorted_insert bt_insert_keys)

end
