(* ===== verification/Store_Memory.thy ===== *)
theory Store_Memory
  imports Store_Slice Ordered_Map
begin

text \<open>
  The register store (\<^verbatim>\<open>ferrowl-store/src/memory.rs\<close>): per device key an ordered map from ranges
  to slices. Regions are declared with \<open>add_ranges\<close>, which merges overlapping declarations;
  reads and writes walk the slices that cover the addressed range.

  The write observer of the source is an installed or absent callback; here \<open>m_tap\<close> says
  whether one is installed, and the operations that report to it return the reports they make.
\<close>

section \<open>Data\<close>

datatype memory_error =
    UnknownKey
  | AddressNotReadable
  | AddressNotWritable
  | LengthMismatch (lm_expected: usize) (lm_got: usize)

type_synonym slicemap = "(range \<times> slice) list"

record 'k memory =
  m_slices :: "'k \<Rightarrow> slicemap option"
  m_tap :: bool

datatype write_source = Remote | Poll | Command | Script

record 'k store_write =
  sw_source :: write_source
  sw_id :: 'k
  sw_range :: range
  sw_old :: "u16 list"
  sw_new :: "u16 list"

definition memory_default :: "'k memory" where
  "memory_default = \<lparr>m_slices = (\<lambda>_. None), m_tap = False\<rparr>"

section \<open>Walking the slices that cover a range\<close>

text \<open>
  The closure of the source carries state across its calls (the words collected so far, the
  index of the next value), so the walk threads a state \<open>'s\<close> through it.
\<close>

definition walk_advance :: "range \<Rightarrow> usize \<Rightarrow> range option" where
  "walk_advance rg count = do {
     start \<leftarrow> usize_add (r_start rg) count;
     len \<leftarrow> range_length rg;
     rest \<leftarrow> usize_sub len count;
     range_new start rest
   }"

fun walk_slices ::
  "('s \<Rightarrow> slice \<Rightarrow> range \<Rightarrow> (bool \<times> 's) option) \<Rightarrow> slicemap \<Rightarrow> range \<Rightarrow> 's \<Rightarrow> (bool \<times> 's) option"
where
  "walk_slices f [] rg st = do {
     n \<leftarrow> range_length rg;
     Some (n = 0, st)
   }"
| "walk_slices f ((r, s) # m) rg st =
     (if r_start r \<le> r_start rg \<and> r_end r > r_start rg then do {
        count \<leftarrow> usize_sub (min (r_end rg) (r_end r)) (r_start rg);
        if count \<noteq> 0 then do {
          seg \<leftarrow> range_new (r_start rg) count;
          (go, st') \<leftarrow> f st s seg;
          if \<not> go then Some (False, st')
          else do {
            rg' \<leftarrow> walk_advance rg count;
            walk_slices f m rg' st'
          }
        }
        else walk_slices f m rg st
      }
      else walk_slices f m rg st)"

fun walk_slices_mut ::
  "('s \<Rightarrow> slice \<Rightarrow> range \<Rightarrow> (bool \<times> slice \<times> 's) option) \<Rightarrow> slicemap \<Rightarrow> range \<Rightarrow> 's
     \<Rightarrow> (bool \<times> slicemap) option"
where
  "walk_slices_mut f [] rg st = do {
     n \<leftarrow> range_length rg;
     Some (n = 0, [])
   }"
| "walk_slices_mut f ((r, s) # m) rg st =
     (if r_start r \<le> r_start rg \<and> r_end r > r_start rg then do {
        count \<leftarrow> usize_sub (min (r_end rg) (r_end r)) (r_start rg);
        if count \<noteq> 0 then do {
          seg \<leftarrow> range_new (r_start rg) count;
          (go, s', st') \<leftarrow> f st s seg;
          if \<not> go then Some (False, (r, s') # m)
          else do {
            rg' \<leftarrow> walk_advance rg count;
            (res, m') \<leftarrow> walk_slices_mut f m rg' st';
            Some (res, (r, s') # m')
          }
        }
        else do {
          (res, m') \<leftarrow> walk_slices_mut f m rg st;
          Some (res, (r, s) # m')
        }
      }
      else do {
        (res, m') \<leftarrow> walk_slices_mut f m rg st;
        Some (res, (r, s) # m')
      })"

section \<open>Declaring ranges\<close>

text \<open>The keys a range overlaps, in key order.\<close>

fun intersecting :: "range \<Rightarrow> range list \<Rightarrow> range list option" where
  "intersecting r [] = Some []"
| "intersecting r (k # ks) = do {
     i \<leftarrow> range_intersect r k;
     rest \<leftarrow> intersecting r ks;
     Some (if i \<noteq> None then k # rest else rest)
   }"

text \<open>Writing the cells of an absorbed slice into the merged buffer, from an offset on.\<close>

fun put_cells :: "usize \<Rightarrow> cell list \<Rightarrow> cell list \<Rightarrow> cell list option" where
  "put_cells off [] buf = Some buf"
| "put_cells off (c # cs) buf =
     (if off < length buf then put_cells (Suc off) cs (buf[off := c]) else None)"

fun absorb :: "usize \<Rightarrow> range list \<Rightarrow> slicemap \<Rightarrow> slice \<Rightarrow> (slicemap \<times> slice) option" where
  "absorb start [] m merged = Some (m, merged)"
| "absorb start (t # ts) m merged = do {
     (s, m') \<leftarrow> bt_remove t m;
     off \<leftarrow> usize_sub (r_start (sl_range s)) start;
     buf \<leftarrow> put_cells off (sl_buffer s) (sl_buffer merged);
     absorb start ts m' (merged\<lparr>sl_buffer := buf\<rparr>)
   }"

definition widen_access :: "access \<Rightarrow> access \<Rightarrow> access option" where
  "widen_access a b =
     (if a = b then Some a
      else case (a, b) of
        (Read, Write) \<Rightarrow> Some ReadWrite
      | (Write, Read) \<Rightarrow> Some ReadWrite
      | _ \<Rightarrow> None)"

definition widen_cell :: "cell_kind \<Rightarrow> cell \<Rightarrow> cell option" where
  "widen_cell kind c =
     (if ck_ty (c_kind c) \<noteq> ck_ty kind then None
      else map_option (\<lambda>a. c\<lparr>c_kind := (c_kind c)\<lparr>ck_access := a\<rparr>\<rparr>)
             (widen_access (ck_access (c_kind c)) (ck_access kind)))"

text \<open>
  In the next four operations the outer option is the panic and the inner one the early
  \<open>return false\<close> of an incompatible overlap.
\<close>

fun widen_cells :: "cell_kind \<Rightarrow> usize list \<Rightarrow> cell list \<Rightarrow> cell list option option" where
  "widen_cells kind [] buf = Some (Some buf)"
| "widen_cells kind (i # is) buf =
     (if i < length buf then
        (case widen_cell kind (buf ! i) of
           None \<Rightarrow> Some None
         | Some c \<Rightarrow> widen_cells kind is (buf[i := c]))
      else None)"

fun widen_targets ::
  "cell_kind \<Rightarrow> range \<Rightarrow> usize \<Rightarrow> range list \<Rightarrow> cell list \<Rightarrow> cell list option option"
where
  "widen_targets kind r start [] buf = Some (Some buf)"
| "widen_targets kind r start (t # ts) buf = do {
     i \<leftarrow> range_intersect r t;
     (case i of
        None \<Rightarrow> widen_targets kind r start ts buf
      | Some rg \<Rightarrow> do {
          lo \<leftarrow> usize_sub (r_start rg) start;
          hi \<leftarrow> usize_sub (r_end rg) start;
          res \<leftarrow> widen_cells kind [lo ..< hi] buf;
          (case res of
             None \<Rightarrow> Some None
           | Some buf' \<Rightarrow> widen_targets kind r start ts buf')
        })
   }"

definition add_range :: "cell_kind \<Rightarrow> slicemap \<Rightarrow> range \<Rightarrow> slicemap option option" where
  "add_range kind m r = do {
     targets \<leftarrow> intersecting r (map fst m);
     if targets = [] then do {
       s \<leftarrow> slice_from_range kind r;
       Some (Some (bt_insert r s m))
     }
     else do {
       let start = min (r_start r) (r_start (hd targets));
       let e = max (r_end r) (r_end (last targets));
       sz \<leftarrow> usize_sub e start;
       u \<leftarrow> range_new start sz;
       fresh \<leftarrow> slice_from_range kind u;
       (m', merged) \<leftarrow> absorb start targets m fresh;
       res \<leftarrow> widen_targets kind r start targets (sl_buffer merged);
       (case res of
          None \<Rightarrow> Some None
        | Some buf \<Rightarrow> Some (Some (bt_insert u (merged\<lparr>sl_buffer := buf\<rparr>) m')))
     }
   }"

fun add_range_list :: "cell_kind \<Rightarrow> range list \<Rightarrow> slicemap \<Rightarrow> slicemap option option" where
  "add_range_list kind [] m = Some (Some m)"
| "add_range_list kind (r # rs) m = do {
     res \<leftarrow> add_range kind m r;
     (case res of
        None \<Rightarrow> Some None
      | Some m' \<Rightarrow> add_range_list kind rs m')
   }"

definition add_ranges :: "'k memory \<Rightarrow> 'k \<Rightarrow> cell_kind \<Rightarrow> range list \<Rightarrow> (bool \<times> 'k memory) option" where
  "add_ranges mem key kind ranges = do {
     res \<leftarrow> add_range_list kind (sort_key r_start ranges)
              (case m_slices mem key of None \<Rightarrow> [] | Some m \<Rightarrow> m);
     (case res of
        None \<Rightarrow> Some (False, mem)
      | Some m \<Rightarrow>
          Some (True, if m \<noteq> [] then mem\<lparr>m_slices := (m_slices mem)(key \<mapsto> m)\<rparr> else mem))
   }"

section \<open>Reading and writing\<close>

definition contains_key :: "'k memory \<Rightarrow> 'k \<Rightarrow> bool" where
  "contains_key mem key \<longleftrightarrow> m_slices mem key \<noteq> None"

definition set_write_tap :: "'k memory \<Rightarrow> 'k memory" where
  "set_write_tap mem = mem\<lparr>m_tap := True\<rparr>"

definition writable :: "'k memory \<Rightarrow> 'k \<Rightarrow> cell_type \<Rightarrow> range \<Rightarrow> (memory_error, unit) result option" where
  "writable mem key ty rg =
     (case m_slices mem key of
        None \<Rightarrow> Some (Err UnknownKey)
      | Some m \<Rightarrow> do {
          (ok, _) \<leftarrow> walk_slices (\<lambda>_ s seg. do {
                       b \<leftarrow> slice_writable ty s seg;
                       Some (b, ())
                     }) m rg ();
          Some (if ok then Ok () else Err AddressNotWritable)
        })"

definition readable :: "'k memory \<Rightarrow> 'k \<Rightarrow> cell_type \<Rightarrow> range \<Rightarrow> (memory_error, unit) result option" where
  "readable mem key ty rg =
     (case m_slices mem key of
        None \<Rightarrow> Some (Err UnknownKey)
      | Some m \<Rightarrow> do {
          (ok, _) \<leftarrow> walk_slices (\<lambda>_ s seg. do {
                       b \<leftarrow> slice_readable ty s seg;
                       Some (b, ())
                     }) m rg ();
          Some (if ok then Ok () else Err AddressNotReadable)
        })"

text \<open>The closures of the four walks that move values.\<close>

definition collect_words ::
  "(slice \<Rightarrow> range \<Rightarrow> u16 list option option) \<Rightarrow> u16 list \<Rightarrow> slice \<Rightarrow> range \<Rightarrow> (bool \<times> u16 list) option"
where
  "collect_words rd out s seg = do {
     v \<leftarrow> rd s seg;
     Some (True, (case v of Some ws \<Rightarrow> out @ ws | None \<Rightarrow> out))
   }"

definition place_words ::
  "(slice \<Rightarrow> range \<Rightarrow> u16 list \<Rightarrow> (bool \<times> slice) option) \<Rightarrow> u16 list \<Rightarrow> usize \<Rightarrow> slice \<Rightarrow> range
     \<Rightarrow> (bool \<times> slice \<times> usize) option"
where
  "place_words wr vs idx s seg = do {
     count \<leftarrow> range_length seg;
     stop \<leftarrow> usize_add idx count;
     ws \<leftarrow> slice_index vs idx stop;
     (_, s') \<leftarrow> wr s seg ws;
     Some (True, s', stop)
   }"

definition mem_read ::
  "'k memory \<Rightarrow> 'k \<Rightarrow> cell_type \<Rightarrow> range \<Rightarrow> (memory_error, u16 list) result option"
where
  "mem_read mem key ty rg = do {
     ok \<leftarrow> readable mem key ty rg;
     (case ok of
        Err e \<Rightarrow> Some (Err e)
      | Ok _ \<Rightarrow> do {
          m \<leftarrow> m_slices mem key;
          _ \<leftarrow> range_length rg;
          (_, out) \<leftarrow> walk_slices (collect_words slice_read) m rg [];
          Some (Ok out)
        })
   }"

definition read_unchecked :: "'k memory \<Rightarrow> 'k \<Rightarrow> range \<Rightarrow> u16 list option option" where
  "read_unchecked mem key rg =
     (case m_slices mem key of
        None \<Rightarrow> Some None
      | Some m \<Rightarrow> do {
          _ \<leftarrow> range_length rg;
          (covered, out) \<leftarrow> walk_slices (collect_words slice_read_unchecked) m rg [];
          Some (if covered then Some out else None)
        })"

definition mem_write ::
  "'k memory \<Rightarrow> 'k \<Rightarrow> cell_type \<Rightarrow> range \<Rightarrow> u16 list \<Rightarrow> ((memory_error, unit) result \<times> 'k memory) option"
where
  "mem_write mem key ty rg vs = do {
     n \<leftarrow> range_length rg;
     if n \<noteq> length vs then Some (Err (LengthMismatch n (length vs)), mem)
     else do {
       ok \<leftarrow> writable mem key ty rg;
       (case ok of
          Err e \<Rightarrow> Some (Err e, mem)
        | Ok _ \<Rightarrow> do {
            m \<leftarrow> m_slices mem key;
            (_, m') \<leftarrow> walk_slices_mut (place_words slice_write vs) m rg 0;
            Some (Ok (), mem\<lparr>m_slices := (m_slices mem)(key \<mapsto> m')\<rparr>)
          })
     }
   }"

definition write_unchecked :: "'k memory \<Rightarrow> 'k \<Rightarrow> range \<Rightarrow> u16 list \<Rightarrow> (bool \<times> 'k memory) option" where
  "write_unchecked mem key rg vs = do {
     n \<leftarrow> range_length rg;
     if n \<noteq> length vs then Some (False, mem)
     else (case m_slices mem key of
        None \<Rightarrow> Some (False, mem)
      | Some m \<Rightarrow> do {
          (covered, m') \<leftarrow> walk_slices_mut (place_words slice_write_unchecked vs) m rg 0;
          Some (covered, mem\<lparr>m_slices := (m_slices mem)(key \<mapsto> m')\<rparr>)
        })
   }"

text \<open>The sourced writes also return the reports the tap receives.\<close>

definition write_from ::
  "'k memory \<Rightarrow> write_source \<Rightarrow> 'k \<Rightarrow> cell_type \<Rightarrow> range \<Rightarrow> u16 list
     \<Rightarrow> ((memory_error, unit) result \<times> 'k memory \<times> 'k store_write list) option"
where
  "write_from mem source key ty rg vs = do {
     n \<leftarrow> range_length rg;
     if n \<noteq> length vs then Some (Err (LengthMismatch n (length vs)), mem, [])
     else do {
       ok \<leftarrow> writable mem key ty rg;
       (case ok of
          Err e \<Rightarrow> Some (Err e, mem, [])
        | Ok _ \<Rightarrow> do {
            old \<leftarrow> (if m_tap mem then read_unchecked mem key rg else Some None);
            (res, mem') \<leftarrow> mem_write mem key ty rg vs;
            (case res of
               Err e \<Rightarrow> Some (Err e, mem', [])
             | Ok _ \<Rightarrow>
                 Some (Ok (), mem',
                   case (m_tap mem', old) of
                     (True, Some ws) \<Rightarrow>
                       [\<lparr>sw_source = source, sw_id = key, sw_range = rg, sw_old = ws, sw_new = vs\<rparr>]
                   | _ \<Rightarrow> []))
          })
     }
   }"

definition write_unchecked_from ::
  "'k memory \<Rightarrow> write_source \<Rightarrow> 'k \<Rightarrow> range \<Rightarrow> u16 list
     \<Rightarrow> (bool \<times> 'k memory \<times> 'k store_write list) option"
where
  "write_unchecked_from mem source key rg vs = do {
     old \<leftarrow> (if m_tap mem then read_unchecked mem key rg else Some None);
     (written, mem') \<leftarrow> write_unchecked mem key rg vs;
     Some (written, mem',
       case (written, m_tap mem', old) of
         (True, True, Some ws) \<Rightarrow>
           [\<lparr>sw_source = source, sw_id = key, sw_range = rg, sw_old = ws, sw_new = vs\<rparr>]
       | _ \<Rightarrow> [])
   }"

end
