(* ===== verification/Store_Walk.thy ===== *)
theory Store_Walk
  imports Store_Memory
begin

text \<open>
  What the slice walks of the register store compute, over the abstraction of a slice map as a
  partial function from addresses to cells. The invariant \<open>wf_map\<close> is the non-overlap and key
  discipline the source's comments state: entries ascend by key, every slice is well formed and
  keyed by its own range, and no two slices share an address.
\<close>

fun wf_map :: "slicemap \<Rightarrow> bool" where
  "wf_map [] = True"
| "wf_map ((r, s) # m) \<longleftrightarrow>
     wf_slice s \<and> sl_range s = r \<and>
     (\<forall>e \<in> set m. r < fst e \<and> addrs r \<inter> addrs (fst e) = {}) \<and> wf_map m"

fun lookup_cell :: "slicemap \<Rightarrow> usize \<Rightarrow> cell option" where
  "lookup_cell [] a = None"
| "lookup_cell ((r, s) # m) a =
     (if r_start r \<le> a \<and> a < r_end r then Some (cell_at s a) else lookup_cell m a)"

lemma wf_map_entry:
  "wf_map m \<Longrightarrow> (r, s) \<in> set m \<Longrightarrow> wf_slice s \<and> sl_range s = r \<and> wf_range r"
  by (induction m rule: wf_map.induct) auto

lemma wf_map_sorted: "wf_map m \<Longrightarrow> bt_sorted m"
  by (induction m rule: wf_map.induct) (auto simp: bt_sorted_def)

lemma wf_map_disjoint:
  "wf_map m \<Longrightarrow> (r, s) \<in> set m \<Longrightarrow> (r', s') \<in> set m \<Longrightarrow> r \<noteq> r' \<Longrightarrow> addrs r \<inter> addrs r' = {}"
proof (induction m rule: wf_map.induct)
  case (2 r0 s0 m)
  have tl: "addrs r0 \<inter> addrs k = {}" if "(k, v) \<in> set m" for k v
    using 2(2) that by fastforce
  consider "r = r0" "(r', s') \<in> set m" | "r' = r0" "(r, s) \<in> set m"
    | "(r, s) \<in> set m" "(r', s') \<in> set m"
    using 2(3-5) by auto
  then show ?case
    by cases (use tl 2(1,2,5) in \<open>simp_all add: Int_commute\<close>)
qed simp

text \<open>The same invariant as a property of the set of entries of a sorted map.\<close>

lemma wf_mapI:
  assumes "bt_sorted m"
    and "\<And>r s. (r, s) \<in> set m \<Longrightarrow> wf_slice s \<and> sl_range s = r"
    and "\<And>r s r' s'. (r, s) \<in> set m \<Longrightarrow> (r', s') \<in> set m \<Longrightarrow> r \<noteq> r' \<Longrightarrow> addrs r \<inter> addrs r' = {}"
  shows "wf_map m"
  using assms
proof (induction m rule: wf_map.induct)
  case (2 r s m)
  have "bt_sorted m" using 2(2) by (simp add: bt_sorted_def)
  then have "wf_map m"
    using 2(1) 2(3,4) by (meson list.set_intros(2))
  moreover have "r < fst e \<and> addrs r \<inter> addrs (fst e) = {}" if "e \<in> set m" for e
  proof -
    have "r < fst e" using 2(2) that by (simp add: bt_sorted_def)
    then show ?thesis using 2(4) [of r s "fst e" "snd e"] that by simp
  qed
  ultimately show ?case using 2(3) [of r s] by simp
qed simp

lemma lookup_cell_mem:
  "wf_map m \<Longrightarrow> (r, s) \<in> set m \<Longrightarrow> a \<in> addrs r \<Longrightarrow> lookup_cell m a = Some (cell_at s a)"
proof (induction m rule: wf_map.induct)
  case (2 r0 s0 m)
  show ?case
  proof (cases "(r, s) = (r0, s0)")
    case False
    then have "(r, s) \<in> set m" using 2(3) by auto
    then have "addrs r0 \<inter> addrs r = {}" using 2(2) by fastforce
    then have "a \<notin> addrs r0" using 2(4) by blast
    with 2 \<open>(r, s) \<in> set m\<close> show ?thesis by auto
  qed (use 2 in auto)
qed simp

lemma lookup_cell_Some:
  "lookup_cell m a = Some c \<Longrightarrow> \<exists>r s. (r, s) \<in> set m \<and> a \<in> addrs r \<and> c = cell_at s a"
  by (induction m a rule: lookup_cell.induct) (auto split: if_splits)

lemma lookup_cell_None: "lookup_cell m a = None \<longleftrightarrow> (\<forall>(r, s) \<in> set m. a \<notin> addrs r)"
  by (induction m a rule: lookup_cell.induct) auto

text \<open>Slices after the head of a well-formed map lie above every address of the head.\<close>

lemma wf_map_tail_above:
  assumes "wf_map ((r, s) # m)" "lookup_cell m a = Some c"
  shows "r_start r \<le> a" and "r_start r < r_end r \<Longrightarrow> r_end r \<le> a"
proof -
  obtain r' s' where m: "(r', s') \<in> set m" and a: "a \<in> addrs r'"
    using lookup_cell_Some [OF assms(2)] by blast
  then have lt: "r < r'" and dj: "addrs r \<inter> addrs r' = {}"
    using assms(1) by fastforce+
  from lt have st: "r_start r \<le> r_start r'"
    by (auto simp: range_order_defs)
  with a show "r_start r \<le> a" by auto
  have "r_start r' \<in> addrs r'" using a by auto
  with dj have "r_start r' \<notin> addrs r" by blast
  with st a show "r_start r < r_end r \<Longrightarrow> r_end r \<le> a" by auto
qed

lemma walk_advance_Some [panic_free]:
  "wf_range rg \<Longrightarrow> count \<le> r_end rg - r_start rg \<Longrightarrow>
     walk_advance rg count = Some (MkRange (r_start rg + count) (r_end rg))"
  by (auto simp: walk_advance_def wf_range_def range_length_def usize_add_def usize_sub_def range_new_def)

text \<open>
  The two ways a step of a walk can go. Either the head covers the next address: it handles a
  segment up to \<open>e\<close>, and the remaining range starts there. Or it does not (or nothing remains),
  and the walk goes on with the rest of the map.
\<close>

definition walk_hits :: "range \<Rightarrow> range \<Rightarrow> bool" where
  "walk_hits r rg \<longleftrightarrow> r_start r \<le> r_start rg \<and> r_start rg < r_end r \<and> r_start rg < r_end rg"

definition hit_end :: "range \<Rightarrow> range \<Rightarrow> usize" where
  "hit_end r rg = min (r_end rg) (r_end r)"

abbreviation hit_seg :: "range \<Rightarrow> range \<Rightarrow> range" where
  "hit_seg r rg \<equiv> MkRange (r_start rg) (hit_end r rg)"

abbreviation hit_rest :: "range \<Rightarrow> range \<Rightarrow> range" where
  "hit_rest r rg \<equiv> MkRange (hit_end r rg) (r_end rg)"

lemma hit_bounds:
  assumes "walk_hits r rg"
  shows "r_start rg < hit_end r rg" "hit_end r rg \<le> r_end rg" "hit_end r rg \<le> r_end r"
  using assms by (auto simp: walk_hits_def hit_end_def)

lemma hit_wf:
  assumes "wf_range rg" "walk_hits r rg"
  shows "wf_range (hit_seg r rg)" "wf_range (hit_rest r rg)"
  using assms hit_bounds [OF assms(2)] by (auto simp: wf_range_def)

lemma hit_addrs: "walk_hits r rg \<Longrightarrow> addrs rg = addrs (hit_seg r rg) \<union> addrs (hit_rest r rg)"
  using hit_bounds by fastforce

lemma hit_contains: "sl_range s = r \<Longrightarrow> walk_hits r rg \<Longrightarrow> slice_contains s (hit_seg r rg)"
  using hit_bounds by (auto simp: slice_contains_def walk_hits_def)

lemma hit_lookup_seg:
  "walk_hits r rg \<Longrightarrow> a \<in> addrs (hit_seg r rg) \<Longrightarrow> lookup_cell ((r, s) # m) a = Some (cell_at s a)"
  using hit_bounds by (fastforce simp: walk_hits_def)

lemma hit_lookup_rest:
  "walk_hits r rg \<Longrightarrow> a \<in> addrs (hit_rest r rg) \<Longrightarrow> lookup_cell ((r, s) # m) a = lookup_cell m a"
  by (auto simp: hit_end_def)

lemmas hit_facts = hit_wf hit_contains hit_lookup_seg hit_lookup_rest

lemma miss_lookup:
  assumes wf: "wf_map ((r, s) # m)" and miss: "\<not> walk_hits r rg"
  shows "(\<forall>a \<in> addrs rg. lookup_cell ((r, s) # m) a = lookup_cell m a) \<or>
         (r_start rg \<in> addrs rg \<and>
            lookup_cell ((r, s) # m) (r_start rg) = None \<and> lookup_cell m (r_start rg) = None)"
proof (cases "r_start rg < r_start r \<and> r_start rg < r_end rg")
  case True
  then have "lookup_cell m (r_start rg) = None"
    using wf_map_tail_above(1) [OF wf, of "r_start rg"] by (cases "lookup_cell m (r_start rg)") auto
  with True show ?thesis by auto
next
  case False
  with miss show ?thesis by (auto simp: walk_hits_def)
qed

lemma hit_steps:
  assumes "wf_range rg" "walk_hits r rg"
  shows "usize_sub (min (r_end rg) (r_end r)) (r_start rg) = Some (hit_end r rg - r_start rg)"
    and "range_new (r_start rg) (hit_end r rg - r_start rg) = Some (hit_seg r rg)"
    and "walk_advance rg (hit_end r rg - r_start rg) = Some (hit_rest r rg)"
  using hit_bounds [OF assms(2)] assms by (auto simp: panic_free hit_end_def [symmetric] dest: wf_rangeD)

lemma walk_slices_hit:
  assumes "wf_range rg" "walk_hits r rg"
  shows "walk_slices f ((r, s) # m) rg st = do {
           (go, st') \<leftarrow> f st s (hit_seg r rg);
           if \<not> go then Some (False, st') else walk_slices f m (hit_rest r rg) st'
         }"
  using assms(2) hit_bounds [OF assms(2)] hit_steps [OF assms]
  by (simp add: walk_hits_def del: range_new_eq_Some usize_sub_eq_Some cong: if_cong)

lemma walk_slices_miss:
  assumes "wf_range rg" "\<not> walk_hits r rg"
  shows "walk_slices f ((r, s) # m) rg st = walk_slices f m rg st"
  using assms by (auto simp: walk_hits_def panic_free)

lemma walk_slices_mut_hit:
  assumes "wf_range rg" "walk_hits r rg"
  shows "walk_slices_mut f ((r, s) # m) rg st = do {
           (go, s', st') \<leftarrow> f st s (hit_seg r rg);
           if \<not> go then Some (False, (r, s') # m)
           else do {
             (res, m') \<leftarrow> walk_slices_mut f m (hit_rest r rg) st';
             Some (res, (r, s') # m')
           }
         }"
  using assms(2) hit_bounds [OF assms(2)] hit_steps [OF assms]
  by (simp add: walk_hits_def del: range_new_eq_Some usize_sub_eq_Some cong: if_cong)

lemma walk_slices_mut_miss:
  assumes "wf_range rg" "\<not> walk_hits r rg"
  shows "walk_slices_mut f ((r, s) # m) rg st = do {
           (res, m') \<leftarrow> walk_slices_mut f m rg st;
           Some (res, (r, s) # m')
         }"
  using assms by (auto simp: walk_hits_def panic_free)

text \<open>Induction along a walk over a well-formed map.\<close>

lemma walk_induct [consumes 2, case_names Nil Hit Miss]:
  assumes "wf_map m" "wf_range rg"
    and "\<And>rg st. wf_range rg \<Longrightarrow> P [] rg st"
    and "\<And>r s m rg st. wf_map ((r, s) # m) \<Longrightarrow> wf_range rg \<Longrightarrow> walk_hits r rg \<Longrightarrow>
           (\<And>st'. P m (hit_rest r rg) st') \<Longrightarrow> P ((r, s) # m) rg st"
    and "\<And>r s m rg st. wf_map ((r, s) # m) \<Longrightarrow> wf_range rg \<Longrightarrow> \<not> walk_hits r rg \<Longrightarrow>
           P m rg st \<Longrightarrow> P ((r, s) # m) rg st"
  shows "P m rg st"
  using assms(1,2)
proof (induction m arbitrary: rg st rule: wf_map.induct)
  case (2 r s m)
  have "P m rg' st'" if "wf_range rg'" for rg' st'
    using 2(1) [OF _ that] 2(2) by simp
  then show ?case
    using assms(4,5) 2(2,3) hit_wf(2) by (cases "walk_hits r rg") auto
qed (rule assms(3))

section \<open>What the walks compute\<close>

text \<open>The addresses of a range are all covered by cells with a given property.\<close>

definition all_cells :: "(cell \<Rightarrow> bool) \<Rightarrow> slicemap \<Rightarrow> range \<Rightarrow> bool" where
  "all_cells Q m rg \<longleftrightarrow> (\<forall>a \<in> addrs rg. \<exists>c. lookup_cell m a = Some c \<and> Q c)"

lemma all_cells_Nil [simp]: "all_cells Q [] rg \<longleftrightarrow> r_end rg \<le> r_start rg"
  by (auto simp: all_cells_def intro: exI [of _ "r_start rg"])

lemma all_cells_hit:
  "walk_hits r rg \<Longrightarrow> all_cells Q ((r, s) # m) rg \<longleftrightarrow>
     (\<forall>a \<in> addrs (hit_seg r rg). Q (cell_at s a)) \<and> all_cells Q m (hit_rest r rg)"
  unfolding all_cells_def
  by (subst hit_addrs, assumption)
    (simp add: ball_Un hit_lookup_seg hit_lookup_rest cong: ball_cong del: mem_addrs lookup_cell.simps)

lemma all_cells_miss:
  assumes "wf_map ((r, s) # m)" "\<not> walk_hits r rg"
  shows "all_cells Q ((r, s) # m) rg \<longleftrightarrow> all_cells Q m rg"
  using miss_lookup [OF assms]
  by (auto simp: all_cells_def simp del: mem_addrs lookup_cell.simps)

text \<open>A walk that tests every segment tests every address, and demands that each is covered.\<close>

lemma walk_slices_test:
  assumes "wf_map m" "wf_range rg"
    and f: "\<And>st s seg. wf_slice s \<Longrightarrow> wf_range seg \<Longrightarrow> slice_contains s seg \<Longrightarrow>
              \<exists>st'. f st s seg = Some (\<forall>a \<in> addrs seg. Q (cell_at s a), st')"
  shows "\<exists>st'. walk_slices f m rg st = Some (all_cells Q m rg, st')"
  using assms(1,2)
proof (induction m rg st rule: walk_induct)
  case (Hit r s m rg st)
  then obtain st' where "f st s (hit_seg r rg) =
      Some (\<forall>a \<in> addrs (hit_seg r rg). Q (cell_at s a), st')"
    using f hit_facts by (metis wf_map.simps(2))
  with Hit(2-4) show ?case
    by (auto simp: walk_slices_hit all_cells_hit simp del: mem_addrs walk_slices.simps)
qed (auto simp: panic_free walk_slices_miss all_cells_miss simp del: walk_slices.simps(2))

text \<open>A walk that collects words returns the words at all addresses, in address order.\<close>

abbreviation covered :: "slicemap \<Rightarrow> range \<Rightarrow> bool" where
  "covered \<equiv> all_cells (\<lambda>_. True)"

definition words_at :: "slicemap \<Rightarrow> range \<Rightarrow> u16 list" where
  "words_at m rg = map (\<lambda>a. c_value (the (lookup_cell m a))) [r_start rg ..< r_end rg]"

lemma length_words_at [simp]: "length (words_at m rg) = r_end rg - r_start rg"
  by (simp add: words_at_def)

lemma words_at_hit:
  assumes "walk_hits r rg"
  shows "words_at ((r, s) # m) rg =
           map (\<lambda>a. c_value (cell_at s a)) [r_start rg ..< hit_end r rg] @ words_at m (hit_rest r rg)"
  using hit_bounds [OF assms] hit_lookup_seg [OF assms, of _ s m] hit_lookup_rest [OF assms, of _ s m]
  by (simp add: words_at_def upt_split [of "r_start rg" "hit_end r rg" "r_end rg"] del: lookup_cell.simps)

lemma words_at_miss:
  assumes "wf_map ((r, s) # m)" "\<not> walk_hits r rg" "covered m rg"
  shows "words_at ((r, s) # m) rg = words_at m rg"
proof -
  have "\<forall>a \<in> addrs rg. lookup_cell ((r, s) # m) a = lookup_cell m a"
    using miss_lookup [OF assms(1,2)] assms(3) unfolding all_cells_def by fastforce
  then show ?thesis
    by (simp add: words_at_def del: lookup_cell.simps)
qed

lemma walk_slices_collect:
  assumes "wf_map m" "wf_range rg"
    and f: "\<And>out s seg. wf_slice s \<Longrightarrow> wf_range seg \<Longrightarrow> slice_contains s seg \<Longrightarrow>
              (\<forall>a \<in> addrs seg. Q (cell_at s a)) \<Longrightarrow>
              f out s seg =
                Some (True, out @ map (\<lambda>a. c_value (cell_at s a)) [r_start seg ..< r_end seg])"
    and Q: "\<forall>a \<in> addrs rg. \<forall>c. lookup_cell m a = Some c \<longrightarrow> Q c"
  shows "\<exists>out'. walk_slices f m rg out = Some (covered m rg, out') \<and>
           (covered m rg \<longrightarrow> out' = out @ words_at m rg)"
  using assms(1,2) Q
proof (induction m rg out rule: walk_induct)
  case (Nil rg out)
  then show ?case by (auto simp: panic_free words_at_def)
next
  case (Hit r s m rg out)
  have "\<forall>a \<in> addrs (hit_seg r rg). Q (cell_at s a)"
    using Hit(5) hit_addrs [OF Hit(3)] hit_lookup_seg [OF Hit(3)] by (metis UnI1)
  then have seg: "f out s (hit_seg r rg) = Some (True, out @ map (\<lambda>a. c_value (cell_at s a))
      [r_start rg ..< hit_end r rg])"
    using f Hit(1-3) hit_facts by (metis range.sel(1,2) wf_map.simps(2))
  have "\<forall>a \<in> addrs (hit_rest r rg). \<forall>c. lookup_cell m a = Some c \<longrightarrow> Q c"
    using Hit(5) hit_addrs [OF Hit(3)] hit_lookup_rest [OF Hit(3)] by (metis UnI2)
  from Hit(4) [OF this, of "out @ map (\<lambda>a. c_value (cell_at s a)) [r_start rg ..< hit_end r rg]"] seg Hit(2,3) show ?case
    by (simp add: walk_slices_hit all_cells_hit words_at_hit del: walk_slices.simps)
next
  case (Miss r s m rg out)
  have "lookup_cell ((r, s) # m) a = Some c" if "lookup_cell m a = Some c" for a c
    using wf_map_tail_above(2) [OF Miss(1) that] that by auto
  with Miss(5) have "\<forall>a \<in> addrs rg. \<forall>c. lookup_cell m a = Some c \<longrightarrow> Q c"
    by (simp del: mem_addrs lookup_cell.simps)
  from Miss(4) [OF this] Miss(1-3) show ?case
    by (auto simp: walk_slices_miss all_cells_miss words_at_miss simp del: walk_slices.simps)
qed

text \<open>
  A walk that places words rewrites every address of the range up to the first uncovered one,
  and nothing else.
\<close>

definition reached :: "slicemap \<Rightarrow> range \<Rightarrow> usize \<Rightarrow> bool" where
  "reached m rg a \<longleftrightarrow> a \<in> addrs rg \<and> (\<forall>b \<in> {r_start rg .. a}. lookup_cell m b \<noteq> None)"

definition placed_at ::
  "(cell \<Rightarrow> u16 \<Rightarrow> cell) \<Rightarrow> u16 list \<Rightarrow> usize \<Rightarrow> slicemap \<Rightarrow> range \<Rightarrow> usize \<Rightarrow> cell option"
where
  "placed_at upd vs idx m rg a =
     (if reached m rg a
      then map_option (\<lambda>c. upd c (vs ! (idx + (a - r_start rg)))) (lookup_cell m a)
      else lookup_cell m a)"

lemma reached_covered: "covered m rg \<Longrightarrow> reached m rg a \<longleftrightarrow> a \<in> addrs rg"
  unfolding reached_def all_cells_def by (auto dest: bspec)

lemma reached_hit:
  assumes "walk_hits r rg"
  shows "reached ((r, s) # m) rg a \<longleftrightarrow> a \<in> addrs (hit_seg r rg) \<or> reached m (hit_rest r rg) a"
proof (cases "a \<in> addrs (hit_rest r rg)")
  case True
  have "r_start r \<le> r_start rg" using assms by (simp add: walk_hits_def)
  moreover have "hit_end r rg = r_end r" "r_end r \<le> a" "a \<in> addrs rg"
    using True hit_bounds [OF assms] by (auto simp: hit_end_def split: if_splits)
  moreover have "{r_start rg .. a} = {r_start rg ..< r_end r} \<union> {r_end r .. a}"
    using calculation hit_bounds(1) [OF assms] by auto
  ultimately have "(\<forall>x \<in> {r_start rg .. a}. lookup_cell ((r, s) # m) x \<noteq> None) \<longleftrightarrow>
      (\<forall>x \<in> {r_end r .. a}. lookup_cell m x \<noteq> None)"
    by (simp add: ball_Un)
  with True \<open>hit_end r rg = r_end r\<close> \<open>a \<in> addrs rg\<close> show ?thesis
    by (auto simp: reached_def simp del: lookup_cell.simps)
next
  case False
  have "lookup_cell ((r, s) # m) b \<noteq> None" if "a < hit_end r rg" "b \<in> {r_start rg .. a}" for b
    using hit_lookup_seg [OF assms, of b] that by (simp del: lookup_cell.simps)
  then have "reached ((r, s) # m) rg a" if "a \<in> addrs (hit_seg r rg)"
    using that hit_bounds [OF assms] by (auto simp: reached_def simp del: lookup_cell.simps)
  with False show ?thesis
    using hit_addrs [OF assms] by (auto simp: reached_def simp del: lookup_cell.simps mem_addrs)
qed

lemma reached_miss:
  assumes "wf_map ((r, s) # m)" "\<not> walk_hits r rg"
  shows "reached ((r, s) # m) rg a \<longleftrightarrow> reached m rg a"
proof -
  show ?thesis
  proof (rule disjE [OF miss_lookup [OF assms]])
    assume 1: "\<forall>b \<in> addrs rg. lookup_cell ((r, s) # m) b = lookup_cell m b"
    have "b \<in> addrs rg" if "a \<in> addrs rg" "b \<in> {r_start rg .. a}" for b
      using that by simp
    with 1 show ?thesis
      by (auto simp: reached_def simp del: lookup_cell.simps mem_addrs)
  next
    assume "r_start rg \<in> addrs rg \<and> lookup_cell ((r, s) # m) (r_start rg) = None \<and>
      lookup_cell m (r_start rg) = None"
    then have "\<not> reached ((r, s) # m) rg a" "\<not> reached m rg a"
      unfolding reached_def by (meson atLeastAtMost_iff mem_addrs order_refl)+
    then show ?thesis by simp
  qed
qed

lemma reached_covers: "reached m rg a \<Longrightarrow> lookup_cell m a \<noteq> None"
  unfolding reached_def by simp

lemma placed_at_hit:
  assumes "wf_map ((r, s) # m)" "walk_hits r rg"
  shows "placed_at upd vs idx ((r, s) # m) rg a =
    (if a \<in> addrs r
     then Some (if a \<in> addrs (hit_seg r rg) then upd (cell_at s a) (vs ! (idx + (a - r_start rg)))
                else cell_at s a)
     else placed_at upd vs (idx + (hit_end r rg - r_start rg)) m (hit_rest r rg) a)"
proof (cases "a \<in> addrs r")
  case True
  then have "\<not> reached m (hit_rest r rg) a" by (auto simp: hit_end_def reached_def)
  then have "reached ((r, s) # m) rg a \<longleftrightarrow> a \<in> addrs (hit_seg r rg)"
    using reached_hit [OF assms(2)] by simp
  with True show ?thesis by (simp add: placed_at_def)
next
  case False
  then have "a \<notin> addrs (hit_seg r rg)"
    using hit_bounds [OF assms(2)] assms(2) by (auto simp: walk_hits_def)
  then have "reached ((r, s) # m) rg a \<longleftrightarrow> reached m (hit_rest r rg) a"
    using reached_hit [OF assms(2), of s m a] by blast
  moreover have "idx + (a - r_start rg) = idx + (hit_end r rg - r_start rg) + (a - hit_end r rg)"
    if "reached m (hit_rest r rg) a"
    using that hit_bounds [OF assms(2)] by (auto simp: reached_def)
  ultimately show ?thesis
    using False
    by (auto simp: placed_at_def add.assoc
        simp del: Nat.add_diff_assoc Nat.add_diff_assoc2 Nat.diff_diff_right)
qed

lemma placed_at_miss:
  assumes "wf_map ((r, s) # m)" "\<not> walk_hits r rg"
  shows "placed_at upd vs idx ((r, s) # m) rg a =
    (if a \<in> addrs r then Some (cell_at s a) else placed_at upd vs idx m rg a)"
proof -
  have "\<not> reached m rg a" if a: "a \<in> addrs r"
  proof
    assume "reached m rg a"
    then obtain c where "lookup_cell m a = Some c" using reached_covers by blast
    with wf_map_tail_above(2) [OF assms(1)] a show False by fastforce
  qed
  then show ?thesis
    by (auto simp: placed_at_def reached_miss [OF assms])
qed

lemma wf_map_replace:
  assumes "wf_map ((r, s) # m)" "map fst m' = map fst m" "wf_map m'" "wf_slice s'" "sl_range s' = r"
  shows "wf_map ((r, s') # m')"
proof -
  have "list_all (\<lambda>k. r < k \<and> addrs r \<inter> addrs k = {}) (map fst m)"
    using assms(1) by (simp add: list_all_iff)
  then have "\<forall>e \<in> set m'. r < fst e \<and> addrs r \<inter> addrs (fst e) = {}"
    unfolding assms(2) [symmetric] by (simp add: list_all_iff)
  with assms(3-5) show ?thesis by simp
qed

lemma walk_slices_mut_place:
  assumes "wf_map m" "wf_range rg"
    and wr: "\<And>s seg ws. wf_slice s \<Longrightarrow> wf_range seg \<Longrightarrow> slice_contains s seg \<Longrightarrow>
       length ws = r_end seg - r_start seg \<Longrightarrow>
       \<exists>s'. wr s seg ws = Some (True, s') \<and> wf_slice s' \<and> sl_range s' = sl_range s \<and>
         (\<forall>a \<in> addrs (sl_range s). cell_at s' a =
           (if a \<in> addrs seg then upd (cell_at s a) (ws ! (a - r_start seg)) else cell_at s a))"
    and "idx + (r_end rg - r_start rg) \<le> length vs" "length vs \<le> usize_max"
  shows "\<exists>m'. walk_slices_mut (place_words wr vs) m rg idx = Some (covered m rg, m') \<and>
           map fst m' = map fst m \<and> wf_map m' \<and> (\<forall>a. lookup_cell m' a = placed_at upd vs idx m rg a)"
  using assms(1,2,4)
proof (induction m rg idx rule: walk_induct)
  case (Nil rg idx)
  then show ?case by (auto simp: panic_free placed_at_def)
next
  case (Hit r s m rg idx)
  let ?n = "hit_end r rg - r_start rg"
  let ?ws = "take ?n (drop idx vs)"
  note b = hit_bounds [OF Hit(3)]
  have s: "wf_slice s" "sl_range s = r" using Hit(1) by auto
  have len: "length ?ws = r_end (hit_seg r rg) - r_start (hit_seg r rg)" using Hit(5) b by simp
  obtain s' where s': "wr s (hit_seg r rg) ?ws = Some (True, s')" "wf_slice s'" "sl_range s' = r"
    and at: "\<forall>a \<in> addrs r. cell_at s' a = (if a \<in> addrs (hit_seg r rg)
        then upd (cell_at s a) (?ws ! (a - r_start rg)) else cell_at s a)"
    using wr [OF s(1) hit_wf(1) [OF Hit(2,3)] hit_contains [OF s(2) Hit(3)] len]
    unfolding s(2) range.sel by blast
  have len': "idx + ?n + (r_end (hit_rest r rg) - r_start (hit_rest r rg)) \<le> length vs"
    using Hit(5) b by simp
  obtain m' where m': "walk_slices_mut (place_words wr vs) m (hit_rest r rg) (idx + ?n) =
        Some (covered m (hit_rest r rg), m')" "map fst m' = map fst m" "wf_map m'"
      "\<forall>a. lookup_cell m' a = placed_at upd vs (idx + ?n) m (hit_rest r rg) a"
    using Hit(4) [OF len'] by blast
  have "place_words wr vs idx s (hit_seg r rg) = Some (True, s', idx + ?n)"
    using Hit(5) assms(5) b hit_wf(1) [OF Hit(2,3)] s'(1)
    by (simp add: place_words_def panic_free)
  then have walk: "walk_slices_mut (place_words wr vs) ((r, s) # m) rg idx =
      Some (covered ((r, s) # m) rg, (r, s') # m')"
    using m'(1) Hit(2,3) by (simp add: walk_slices_mut_hit all_cells_hit del: walk_slices_mut.simps)
  have "wf_map ((r, s') # m')"
    by (rule wf_map_replace [OF Hit(1) m'(2,3) s'(2,3)])
  moreover have "lookup_cell ((r, s') # m') a = placed_at upd vs idx ((r, s) # m) rg a" for a
  proof (cases "a \<in> addrs r")
    case True
    then show ?thesis
      using at len by (auto simp: placed_at_hit [OF Hit(1,3)])
  next
    case False
    then show ?thesis
      using m'(4) unfolding placed_at_hit [OF Hit(1,3)] by auto
  qed
  ultimately show ?case
    using walk m'(2) by (intro exI [of _ "(r, s') # m'"]) (simp del: lookup_cell.simps wf_map.simps)
next
  case (Miss r s m rg idx)
  then obtain m' where m': "walk_slices_mut (place_words wr vs) m rg idx = Some (covered m rg, m')"
      "map fst m' = map fst m" "wf_map m'" "\<forall>a. lookup_cell m' a = placed_at upd vs idx m rg a"
    by auto
  have "wf_map ((r, s) # m')"
    by (rule wf_map_replace [OF Miss(1) m'(2,3)]) (use Miss(1) in simp_all)
  moreover have "lookup_cell ((r, s) # m') a = placed_at upd vs idx ((r, s) # m) rg a" for a
    using m'(4) by (simp add: placed_at_miss [OF Miss(1,3)])
  moreover have "walk_slices_mut (place_words wr vs) ((r, s) # m) rg idx =
      Some (covered ((r, s) # m) rg, (r, s) # m')"
    using m'(1) by (simp add: walk_slices_mut_miss [OF Miss(2,3)] all_cells_miss [OF Miss(1,3)]
        del: walk_slices_mut.simps)
  ultimately show ?case
    using m'(2) by (intro exI [of _ "(r, s) # m'"]) (simp del: lookup_cell.simps wf_map.simps)
qed

end
