(* ===== verification/Store_Ops.thy ===== *)
theory Store_Ops
  imports Store_Walk
begin

text \<open>
  The contract of the register store as its clients see it: a device key is registered or not,
  a registered device is a partial function from addresses to cells, and reads and writes are
  functions on that view. The locale \<open>register_store\<close> states the contract and derives what
  clients use (read after write, independence of other addresses and devices, no effect of a
  refused write); \<open>mem_read\<close> and \<open>mem_write\<close> of \<^verbatim>\<open>memory.rs\<close> are shown to meet it.
\<close>

section \<open>The abstract store\<close>

type_synonym addr_space = "usize \<Rightarrow> cell option"

definition holds_on :: "(cell \<Rightarrow> bool) \<Rightarrow> addr_space \<Rightarrow> range \<Rightarrow> bool" where
  "holds_on Q sp rg \<longleftrightarrow> (\<forall>a \<in> set [r_start rg ..< r_end rg]. \<exists>c. sp a = Some c \<and> Q c)"

definition words_of :: "addr_space \<Rightarrow> range \<Rightarrow> u16 list" where
  "words_of sp rg = map (\<lambda>a. c_value (the (sp a))) [r_start rg ..< r_end rg]"

definition store_words :: "range \<Rightarrow> u16 list \<Rightarrow> addr_space \<Rightarrow> addr_space" where
  "store_words rg vs sp a =
     (if r_start rg \<le> a \<and> a < r_end rg
      then map_option (\<lambda>c. c\<lparr>c_value := vs ! (a - r_start rg)\<rparr>) (sp a) else sp a)"

definition read_spec ::
  "bool \<Rightarrow> addr_space \<Rightarrow> cell_type \<Rightarrow> range \<Rightarrow> (memory_error, u16 list) result"
where
  "read_spec known sp ty rg =
     (if \<not> known then Err UnknownKey
      else if holds_on (accepts_read ty) sp rg then Ok (words_of sp rg)
      else Err AddressNotReadable)"

definition write_spec ::
  "bool \<Rightarrow> addr_space \<Rightarrow> cell_type \<Rightarrow> range \<Rightarrow> u16 list \<Rightarrow> (memory_error, unit) result"
where
  "write_spec known sp ty rg vs =
     (if r_end rg - r_start rg \<noteq> length vs
      then Err (LengthMismatch (r_end rg - r_start rg) (length vs))
      else if \<not> known then Err UnknownKey
      else if holds_on (accepts_write ty) sp rg then Ok ()
      else Err AddressNotWritable)"

lemma holds_on_store_words [simp]:
  assumes "\<And>c v. Q (c\<lparr>c_value := v\<rparr>) = Q c"
  shows "holds_on Q (store_words rg' vs sp) rg = holds_on Q sp rg"
proof -
  have "(\<exists>c. store_words rg' vs sp a = Some c \<and> Q c) \<longleftrightarrow> (\<exists>c. sp a = Some c \<and> Q c)" for a
    using assms by (cases "sp a") (auto simp: store_words_def)
  then show ?thesis by (simp add: holds_on_def)
qed

lemma words_of_store_words_same:
  assumes "holds_on Q sp rg" "length vs = r_end rg - r_start rg"
  shows "words_of (store_words rg vs sp) rg = vs"
proof (rule nth_equalityI)
  fix i assume "i < length (words_of (store_words rg vs sp) rg)"
  then have i: "i < r_end rg - r_start rg" by (simp add: words_of_def)
  then obtain c where "sp (r_start rg + i) = Some c"
    using assms(1) by (force simp: holds_on_def)
  with i show "words_of (store_words rg vs sp) rg ! i = vs ! i"
    by (auto simp: words_of_def store_words_def)
qed (simp add: words_of_def assms)

lemma words_of_store_words_disjoint:
  "addrs rg \<inter> addrs rg' = {} \<Longrightarrow> words_of (store_words rg' vs sp) rg = words_of sp rg"
  by (auto simp: words_of_def store_words_def set_eq_iff)

lemma store_words_commute:
  "addrs rg \<inter> addrs rg' = {} \<Longrightarrow>
     store_words rg vs (store_words rg' vs' sp) = store_words rg' vs' (store_words rg vs sp)"
  by (auto simp: store_words_def fun_eq_iff set_eq_iff)

lemma store_words_last_wins:
  "store_words rg vs (store_words rg vs' sp) = store_words rg vs sp"
  by (auto simp: store_words_def fun_eq_iff option.map_comp comp_def)

section \<open>The contract\<close>

locale register_store =
  fixes inv :: "'m \<Rightarrow> bool"
    and known :: "'m \<Rightarrow> 'k \<Rightarrow> bool"
    and cells :: "'m \<Rightarrow> 'k \<Rightarrow> addr_space"
    and rd :: "'m \<Rightarrow> 'k \<Rightarrow> cell_type \<Rightarrow> range \<Rightarrow> (memory_error, u16 list) result option"
    and wr :: "'m \<Rightarrow> 'k \<Rightarrow> cell_type \<Rightarrow> range \<Rightarrow> u16 list \<Rightarrow> ((memory_error, unit) result \<times> 'm) option"
  assumes rd_law: "inv m \<Longrightarrow> wf_range rg \<Longrightarrow> rd m k ty rg = Some (read_spec (known m k) (cells m k) ty rg)"
    and wr_law: "inv m \<Longrightarrow> wf_range rg \<Longrightarrow>
      \<exists>m'. wr m k ty rg vs = Some (write_spec (known m k) (cells m k) ty rg vs, m') \<and>
           inv m' \<and> known m' = known m \<and>
           cells m' = (if write_spec (known m k) (cells m k) ty rg vs = Ok ()
                       then (cells m)(k := store_words rg vs (cells m k)) else cells m)"
begin

lemma wr_result:
  assumes "inv m" "wf_range rg" "wr m k ty rg vs = Some (res, m')"
  shows "inv m'" "known m' = known m" "res = write_spec (known m k) (cells m k) ty rg vs"
  using wr_law [OF assms(1,2), of k ty vs] assms(3) by auto

lemma wr_ok:
  assumes "inv m" "wf_range rg" "wr m k ty rg vs = Some (Ok (), m')"
  shows "cells m' = (cells m)(k := store_words rg vs (cells m k))"
    and "holds_on (accepts_write ty) (cells m k) rg"
    and "length vs = r_end rg - r_start rg" and "known m k"
  using wr_law [OF assms(1,2), of k ty vs] assms(3)
  by (auto simp: write_spec_def split: if_splits)

lemma wr_refused:
  assumes "inv m" "wf_range rg" "wr m k ty rg vs = Some (Err e, m')"
  shows "cells m' = cells m" "known m' = known m"
  using wr_law [OF assms(1,2), of k ty vs] assms(3) by auto

lemma rd_after_wr:
  assumes "inv m" "wf_range rg" "wr m k ty rg vs = Some (Ok (), m')"
    and readable: "holds_on (accepts_read ty) (cells m k) rg"
  shows "rd m' k ty rg = Some (Ok vs)"
  using wr_ok [OF assms(1-3)] wr_result [OF assms(1-3)] readable assms(2)
  by (simp add: rd_law read_spec_def words_of_store_words_same)

lemma rd_other:
  assumes "inv m" "wf_range rg" "wr m k ty rg vs = Some (res, m')"
    and "wf_range rg'" and "k' \<noteq> k \<or> addrs rg' \<inter> addrs rg = {}"
  shows "rd m' k' ty' rg' = rd m k' ty' rg'"
proof (cases "res = Ok ()")
  case True
  then show ?thesis
    using wr_ok(1) [of m rg k ty vs m'] wr_result [OF assms(1-3)] assms
    by (auto simp: rd_law read_spec_def words_of_store_words_disjoint)
next
  case False
  then obtain e where "res = Err e" by (cases res) auto
  then show ?thesis
    using wr_refused [of m rg k ty vs e m'] wr_result [OF assms(1-3)] assms by (simp add: rd_law)
qed

lemma wr_twice:
  assumes "inv m" "wf_range rg" "wr m k ty rg vs = Some (Ok (), m')" "length ws = length vs"
  shows "\<exists>m''. wr m' k ty rg ws = Some (Ok (), m'') \<and>
           cells m'' = (cells m)(k := store_words rg ws (cells m k))"
proof -
  have "write_spec (known m' k) (cells m' k) ty rg ws = Ok ()"
    using wr_ok [OF assms(1-3)] wr_result [OF assms(1-3)] assms(4) by (simp add: write_spec_def)
  then show ?thesis
    using wr_law [OF wr_result(1) [OF assms(1-3)] assms(2), of k ty ws] wr_ok(1) [OF assms(1-3)]
    by (auto simp: store_words_last_wins)
qed

end

section \<open>The implementation meets it\<close>

definition wf_memory :: "'k memory \<Rightarrow> bool" where
  "wf_memory mem \<longleftrightarrow> (\<forall>k m. m_slices mem k = Some m \<longrightarrow> wf_map m)"

definition mem_cells :: "'k memory \<Rightarrow> 'k \<Rightarrow> addr_space" where
  "mem_cells mem k = (case m_slices mem k of None \<Rightarrow> (\<lambda>_. None) | Some m \<Rightarrow> lookup_cell m)"

lemma wf_memoryD: "wf_memory mem \<Longrightarrow> m_slices mem k = Some m \<Longrightarrow> wf_map m"
  by (auto simp: wf_memory_def)

lemma wf_memory_upd:
  "wf_memory mem \<Longrightarrow> wf_map m \<Longrightarrow> wf_memory (mem\<lparr>m_slices := (m_slices mem)(k \<mapsto> m)\<rparr>)"
  by (simp add: wf_memory_def)

lemma mem_cells_upd:
  "mem_cells (mem\<lparr>m_slices := (m_slices mem)(k \<mapsto> m)\<rparr>) = (mem_cells mem)(k := lookup_cell m)"
  by (auto simp: mem_cells_def fun_eq_iff)

lemma all_cells_holds_on: "all_cells Q m rg = holds_on Q (lookup_cell m) rg"
  by (simp add: all_cells_def holds_on_def addrs_def)

lemma words_at_words_of: "words_at m rg = words_of (lookup_cell m) rg"
  by (simp add: words_at_def words_of_def)

lemma readable_eq [panic_free]:
  assumes "wf_memory mem" "wf_range rg"
  shows "readable mem k ty rg = Some
    (if \<not> contains_key mem k then Err UnknownKey
     else if holds_on (accepts_read ty) (mem_cells mem k) rg then Ok () else Err AddressNotReadable)"
proof (cases "m_slices mem k")
  case (Some m)
  let ?f = "\<lambda>_ s seg. do { b \<leftarrow> slice_readable ty s seg; Some (b, ()) }"
  have "\<exists>st'. ?f st s seg = Some (\<forall>a \<in> addrs seg. accepts_read ty (cell_at s a), st')"
    if "wf_slice s" "wf_range seg" "slice_contains s seg" for st s seg
    using that by (simp add: slice_readable_eq del: mem_addrs)
  from walk_slices_test [OF wf_memoryD [OF assms(1) Some] assms(2) this]
  obtain st' where "walk_slices ?f m rg () = Some (all_cells (accepts_read ty) m rg, st')"
    by blast
  then show ?thesis
    using Some by (simp add: readable_def contains_key_def mem_cells_def all_cells_holds_on)
qed (simp add: readable_def contains_key_def)

lemma writable_eq [panic_free]:
  assumes "wf_memory mem" "wf_range rg"
  shows "writable mem k ty rg = Some
    (if \<not> contains_key mem k then Err UnknownKey
     else if holds_on (accepts_write ty) (mem_cells mem k) rg then Ok () else Err AddressNotWritable)"
proof (cases "m_slices mem k")
  case (Some m)
  let ?f = "\<lambda>_ s seg. do { b \<leftarrow> slice_writable ty s seg; Some (b, ()) }"
  have "\<exists>st'. ?f st s seg = Some (\<forall>a \<in> addrs seg. accepts_write ty (cell_at s a), st')"
    if "wf_slice s" "wf_range seg" "slice_contains s seg" for st s seg
    using that by (simp add: slice_writable_eq del: mem_addrs)
  from walk_slices_test [OF wf_memoryD [OF assms(1) Some] assms(2) this]
  obtain st' where "walk_slices ?f m rg () = Some (all_cells (accepts_write ty) m rg, st')"
    by blast
  then show ?thesis
    using Some by (simp add: writable_def contains_key_def mem_cells_def all_cells_holds_on)
qed (simp add: writable_def contains_key_def)

lemma collect_words_read:
  assumes "wf_slice s" "wf_range seg" "slice_contains s seg" "\<forall>a \<in> addrs seg. accepts_read ty (cell_at s a)"
  shows "collect_words slice_read out s seg =
           Some (True, out @ map (\<lambda>a. c_value (cell_at s a)) [r_start seg ..< r_end seg])"
  using slice_read_eq [OF assms(1-3), of ty] assms(4) by (simp add: collect_words_def del: mem_addrs)

lemma collect_words_read_unchecked:
  assumes "wf_slice s" "wf_range seg" "slice_contains s seg"
  shows "collect_words slice_read_unchecked out s seg =
           Some (True, out @ map (\<lambda>a. c_value (cell_at s a)) [r_start seg ..< r_end seg])"
  using slice_read_unchecked_eq [OF assms] by (simp add: collect_words_def)

lemma mem_read_eq [panic_free]:
  assumes "wf_memory mem" "wf_range rg"
  shows "mem_read mem k ty rg = Some (read_spec (contains_key mem k) (mem_cells mem k) ty rg)"
proof (cases "contains_key mem k \<and> holds_on (accepts_read ty) (mem_cells mem k) rg")
  case True
  then obtain m where m: "m_slices mem k = Some m" by (auto simp: contains_key_def)
  then have all: "all_cells (accepts_read ty) m rg"
    using True by (simp add: mem_cells_def all_cells_holds_on)
  then have cov: "covered m rg" and Q: "\<forall>a \<in> addrs rg. \<forall>c. lookup_cell m a = Some c \<longrightarrow> accepts_read ty c"
    by (auto simp: all_cells_def simp del: mem_addrs dest: bspec)
  have f: "\<And>out s seg. wf_slice s \<Longrightarrow> wf_range seg \<Longrightarrow> slice_contains s seg \<Longrightarrow>
      (\<forall>a \<in> addrs seg. accepts_read ty (cell_at s a)) \<Longrightarrow> collect_words slice_read out s seg =
        Some (True, out @ map (\<lambda>a. c_value (cell_at s a)) [r_start seg ..< r_end seg])"
    by (rule collect_words_read)
  obtain out where "walk_slices (collect_words slice_read) m rg [] = Some (covered m rg, out)"
      and "covered m rg \<longrightarrow> out = [] @ words_at m rg"
    using walk_slices_collect [OF wf_memoryD [OF assms(1) m] assms(2) f Q] by blast
  with True m assms cov show ?thesis
    by (simp add: mem_read_def read_spec_def panic_free mem_cells_def words_at_words_of)
next
  case False
  then show ?thesis
    using assms by (cases "contains_key mem k") (simp_all add: mem_read_def read_spec_def panic_free)
qed

lemma read_unchecked_eq [panic_free]:
  assumes "wf_memory mem" "wf_range rg"
  shows "read_unchecked mem k rg = Some
    (if contains_key mem k \<and> holds_on (\<lambda>_. True) (mem_cells mem k) rg
     then Some (words_of (mem_cells mem k) rg) else None)"
proof (cases "m_slices mem k")
  case (Some m)
  obtain out where "walk_slices (collect_words slice_read_unchecked) m rg [] = Some (covered m rg, out)"
      and "covered m rg \<longrightarrow> out = words_at m rg"
    using walk_slices_collect [where f = "collect_words slice_read_unchecked" and Q = "\<lambda>_. True"
        and out = "[]", OF wf_memoryD [OF assms(1) Some] assms(2) collect_words_read_unchecked] by auto
  then show ?thesis
    using Some assms(2)
    by (simp add: read_unchecked_def panic_free contains_key_def mem_cells_def all_cells_holds_on
        words_at_words_of)
qed (simp add: read_unchecked_def contains_key_def)

text \<open>Writes: the walk places the words on the covered addresses.\<close>

lemma place_write:
  assumes "wf_slice s" "wf_range seg" "slice_contains s seg" "length ws = r_end seg - r_start seg"
  shows "\<exists>s'. slice_write s seg ws = Some (True, s') \<and> wf_slice s' \<and> sl_range s' = sl_range s \<and>
    (\<forall>a \<in> addrs (sl_range s). cell_at s' a =
      (if a \<in> addrs seg then try_set_value (cell_at s a) (ws ! (a - r_start seg)) else cell_at s a))"
  by (rule slice_write_spec [OF assms]) blast

lemma place_write_unchecked:
  assumes "wf_slice s" "wf_range seg" "slice_contains s seg" "length ws = r_end seg - r_start seg"
  shows "\<exists>s'. slice_write_unchecked s seg ws = Some (True, s') \<and> wf_slice s' \<and> sl_range s' = sl_range s \<and>
    (\<forall>a \<in> addrs (sl_range s). cell_at s' a =
      (if a \<in> addrs seg then (cell_at s a)\<lparr>c_value := ws ! (a - r_start seg)\<rparr> else cell_at s a))"
  by (rule slice_write_unchecked_spec [OF assms]) blast

lemma wf_range_len: "wf_range rg \<Longrightarrow> r_end rg - r_start rg \<le> usize_max"
  by (auto simp: wf_range_def)

lemma placed_at_accepted:
  assumes "all_cells (accepts_write ty) m rg"
  shows "placed_at try_set_value vs 0 m rg = store_words rg vs (lookup_cell m)"
proof
  fix a
  have cov: "covered m rg"
    using assms by (auto simp: all_cells_def simp del: mem_addrs dest: bspec)
  show "placed_at try_set_value vs 0 m rg a = store_words rg vs (lookup_cell m) a"
  proof (cases "a \<in> addrs rg")
    case True
    then obtain c where "lookup_cell m a = Some c" "accepts_write ty c"
      using assms by (auto simp: all_cells_def simp del: mem_addrs)
    with True show ?thesis
      by (simp add: placed_at_def reached_covered [OF cov] store_words_def)
  next
    case False
    then show ?thesis
      using reached_covered [OF cov] by (auto simp: placed_at_def store_words_def)
  qed
qed

lemma placed_at_unchecked_covered:
  assumes "covered m rg"
  shows "placed_at (\<lambda>c v. c\<lparr>c_value := v\<rparr>) vs 0 m rg = store_words rg vs (lookup_cell m)"
  using reached_covered [OF assms] by (auto simp: placed_at_def store_words_def fun_eq_iff)

lemma mem_write_accepted:
  assumes "wf_memory mem" "wf_range rg" "write_spec (contains_key mem k) (mem_cells mem k) ty rg vs = Ok ()"
  obtains mem' where "mem_write mem k ty rg vs = Some (Ok (), mem')" "wf_memory mem'"
    "contains_key mem' = contains_key mem" "m_tap mem' = m_tap mem"
    "mem_cells mem' = (mem_cells mem)(k := store_words rg vs (mem_cells mem k))"
proof -
  have len: "length vs = r_end rg - r_start rg" and known: "contains_key mem k"
    and acc: "holds_on (accepts_write ty) (mem_cells mem k) rg"
    using assms(3) by (auto simp: write_spec_def split: if_splits)
  then obtain m where m: "m_slices mem k = Some m" by (auto simp: contains_key_def)
  then have all: "all_cells (accepts_write ty) m rg"
    using acc by (simp add: mem_cells_def all_cells_holds_on)
  have fit: "0 + (r_end rg - r_start rg) \<le> length vs" "length vs \<le> usize_max"
    using len wf_range_len [OF assms(2)] by simp_all
  obtain m' where walk: "walk_slices_mut (place_words slice_write vs) m rg 0 = Some (covered m rg, m')"
      "wf_map m'" "\<forall>a. lookup_cell m' a = placed_at try_set_value vs 0 m rg a"
    using walk_slices_mut_place [where wr = slice_write and upd = try_set_value,
        OF wf_memoryD [OF assms(1) m] assms(2) place_write fit] by blast
  have cells: "lookup_cell m' = store_words rg vs (lookup_cell m)"
    using walk(3) placed_at_accepted [OF all] by (simp add: fun_eq_iff)
  show thesis
  proof (rule that [of "mem\<lparr>m_slices := (m_slices mem)(k \<mapsto> m')\<rparr>"])
    show "mem_write mem k ty rg vs = Some (Ok (), mem\<lparr>m_slices := (m_slices mem)(k \<mapsto> m')\<rparr>)"
      using assms len known acc m walk(1) by (simp add: mem_write_def panic_free)
  qed (use assms(1) m walk(2) cells in
      \<open>simp_all add: wf_memory_upd mem_cells_upd contains_key_def fun_eq_iff mem_cells_def\<close>)
qed

lemma mem_write_refused:
  assumes "wf_memory mem" "wf_range rg"
    and "write_spec (contains_key mem k) (mem_cells mem k) ty rg vs = Err e"
  shows "mem_write mem k ty rg vs = Some (Err e, mem)"
  using assms by (auto simp: mem_write_def write_spec_def panic_free split: if_splits)

interpretation store: register_store wf_memory contains_key mem_cells mem_read mem_write
proof
  fix mem :: "'k memory" and rg k ty vs
  assume wf: "wf_memory mem" "wf_range rg"
  then show "mem_read mem k ty rg = Some (read_spec (contains_key mem k) (mem_cells mem k) ty rg)"
    by (rule mem_read_eq)
  let ?spec = "write_spec (contains_key mem k) (mem_cells mem k) ty rg vs"
  show "\<exists>mem'. mem_write mem k ty rg vs = Some (?spec, mem') \<and> wf_memory mem' \<and>
      contains_key mem' = contains_key mem \<and>
      mem_cells mem' = (if ?spec = Ok () then (mem_cells mem)(k := store_words rg vs (mem_cells mem k))
                        else mem_cells mem)"
  proof (cases ?spec)
    case (Inl e)
    then show ?thesis using mem_write_refused [OF wf Inl] wf by simp
  next
    case (Inr u)
    then show ?thesis using mem_write_accepted [OF wf, of k ty vs] by (metis old.unit.exhaust)
  qed
qed

text \<open>The unchecked write stores the covered prefix and reports whether it was everything.\<close>

definition prefix_words :: "range \<Rightarrow> u16 list \<Rightarrow> addr_space \<Rightarrow> addr_space" where
  "prefix_words rg vs sp a =
     (if r_start rg \<le> a \<and> a < r_end rg \<and> (\<forall>b \<in> set [r_start rg ..< Suc a]. sp b \<noteq> None)
      then map_option (\<lambda>c. c\<lparr>c_value := vs ! (a - r_start rg)\<rparr>) (sp a) else sp a)"

lemma prefix_words_covered:
  assumes "holds_on (\<lambda>_. True) sp rg"
  shows "prefix_words rg vs sp = store_words rg vs sp"
proof
  fix a
  have "\<forall>b \<in> set [r_start rg ..< Suc a]. sp b \<noteq> None" if "a < r_end rg"
    using assms that by (auto simp: holds_on_def)
  then show "prefix_words rg vs sp a = store_words rg vs sp a"
    unfolding prefix_words_def store_words_def by metis
qed

lemma placed_at_prefix:
  "placed_at (\<lambda>c v. c\<lparr>c_value := v\<rparr>) vs 0 m rg = prefix_words rg vs (lookup_cell m)"
proof
  fix a
  have "set [r_start rg ..< Suc a] = {r_start rg .. a}"
    by auto
  then have "reached m rg a \<longleftrightarrow> r_start rg \<le> a \<and> a < r_end rg \<and>
      (\<forall>b \<in> set [r_start rg ..< Suc a]. lookup_cell m b \<noteq> None)"
    by (simp only: reached_def mem_addrs conj_assoc)
  then show "placed_at (\<lambda>c v. c\<lparr>c_value := v\<rparr>) vs 0 m rg a = prefix_words rg vs (lookup_cell m) a"
    by (simp only: placed_at_def prefix_words_def add_0)
qed

lemma write_unchecked_known:
  assumes "wf_memory mem" "wf_range rg" "contains_key mem k" "length vs = r_end rg - r_start rg"
  obtains mem' where
    "write_unchecked mem k rg vs = Some (holds_on (\<lambda>_. True) (mem_cells mem k) rg, mem')"
    "wf_memory mem'" "contains_key mem' = contains_key mem" "m_tap mem' = m_tap mem"
    "mem_cells mem' = (mem_cells mem)(k := prefix_words rg vs (mem_cells mem k))"
proof -
  obtain m where m: "m_slices mem k = Some m" using assms(3) by (auto simp: contains_key_def)
  have fit: "0 + (r_end rg - r_start rg) \<le> length vs" "length vs \<le> usize_max"
    using assms(4) wf_range_len [OF assms(2)] by simp_all
  obtain m' where walk: "walk_slices_mut (place_words slice_write_unchecked vs) m rg 0 = Some (covered m rg, m')"
      "wf_map m'" "\<forall>a. lookup_cell m' a = placed_at (\<lambda>c v. c\<lparr>c_value := v\<rparr>) vs 0 m rg a"
    using walk_slices_mut_place [where wr = slice_write_unchecked and upd = "\<lambda>c v. c\<lparr>c_value := v\<rparr>",
        OF wf_memoryD [OF assms(1) m] assms(2) place_write_unchecked fit] by blast
  have cells: "lookup_cell m' = prefix_words rg vs (lookup_cell m)"
    using walk(3) placed_at_prefix by (simp add: fun_eq_iff)
  show thesis
  proof (rule that [of "mem\<lparr>m_slices := (m_slices mem)(k \<mapsto> m')\<rparr>"])
    show "write_unchecked mem k rg vs =
        Some (holds_on (\<lambda>_. True) (mem_cells mem k) rg, mem\<lparr>m_slices := (m_slices mem)(k \<mapsto> m')\<rparr>)"
      using assms m walk(1)
      by (simp add: write_unchecked_def panic_free mem_cells_def all_cells_holds_on)
  qed (use assms(1) m walk(2) cells in
      \<open>simp_all add: wf_memory_upd mem_cells_upd contains_key_def fun_eq_iff mem_cells_def\<close>)
qed

end
