(* ===== verification/Store_Declare.thy ===== *)
theory Store_Declare
  imports Store_Ops
begin

text \<open>
  Declaring ranges (\<open>Memory::add_ranges\<close> in \<^verbatim>\<open>memory.rs\<close>) against a specification on the
  address space: declaring a range gives every new address a zeroed cell of the declared kind,
  widens the cells that already exist, and is refused as soon as one of them is incompatible.
  The implementation merges slices, moves buffers and works on a copy of the map; the refinement
  shows that none of it is visible.
\<close>

section \<open>The specification\<close>

definition declare_range :: "cell_kind \<Rightarrow> range \<Rightarrow> addr_space \<Rightarrow> addr_space option" where
  "declare_range kind r sp =
     (if \<exists>a \<in> set [r_start r ..< r_end r]. \<exists>c. sp a = Some c \<and> widen_cell kind c = None then None
      else Some (\<lambda>a. if r_start r \<le> a \<and> a < r_end r
                     then (case sp a of None \<Rightarrow> Some (cell_zeroed kind) | Some c \<Rightarrow> widen_cell kind c)
                     else sp a))"

fun declare_ranges :: "cell_kind \<Rightarrow> range list \<Rightarrow> addr_space \<Rightarrow> addr_space option" where
  "declare_ranges kind [] sp = Some sp"
| "declare_ranges kind (r # rs) sp = do {
     sp' \<leftarrow> declare_range kind r sp;
     declare_ranges kind rs sp'
   }"

section \<open>The overlapped slices\<close>

lemma intersecting_eq [panic_free]:
  assumes "wf_range r" "\<forall>k \<in> set ks. wf_range k"
  shows "intersecting r ks = Some (filter (\<lambda>k. addrs r \<inter> addrs k \<noteq> {}) ks)"
  using assms(2) by (induction ks) (simp_all add: range_intersect_Some [OF assms(1)])

lemma key_entry: "k \<in> set (map fst m) \<Longrightarrow> \<exists>s. (k, s) \<in> set m"
  by auto

lemma wf_map_keys:
  assumes "wf_map m" "k \<in> set (map fst m)"
  shows "wf_range k"
proof -
  obtain s where "(k, s) \<in> set m" using key_entry [OF assms(2)] by (rule exE)
  from wf_map_entry [OF assms(1) this] show ?thesis by simp
qed

lemma wf_map_keys_sorted: "wf_map m \<Longrightarrow> sorted_wrt (<) (map fst m)"
  using wf_map_sorted by (simp add: bt_sorted_def)

lemma wf_map_keys_disjoint:
  assumes "wf_map m" "k \<in> set (map fst m)" "k' \<in> set (map fst m)" "k \<noteq> k'"
  shows "addrs k \<inter> addrs k' = {}"
proof -
  obtain s s' where "(k, s) \<in> set m" "(k', s') \<in> set m"
    using key_entry [OF assms(2)] key_entry [OF assms(3)] by (elim exE)
  from wf_map_disjoint [OF assms(1) this assms(4)] show ?thesis .
qed

text \<open>Keys that overlap a common range lie in address order.\<close>

lemma overlap_order:
  assumes "addrs k \<inter> addrs k' = {}" "k < k'" "addrs r \<inter> addrs k \<noteq> {}" "addrs r \<inter> addrs k' \<noteq> {}"
  shows "r_end k \<le> r_start k'" "r_end k < r_end k'" "r_start k < r_start k'"
proof -
  have st: "r_start k \<le> r_start k'" using assms(2) by (auto simp: range_order_defs)
  have ne: "r_start k < r_end k" "r_start k' < r_end k'"
    using assms(3,4) by auto
  then have "r_start k' \<in> addrs k'" by simp
  with assms(1) have "r_start k' \<notin> addrs k" by blast
  with st show "r_end k \<le> r_start k'" by simp
  with ne show "r_end k < r_end k'" "r_start k < r_start k'" by simp_all
qed

text \<open>
  The union the merge builds: its ends come from the range and from the first and last
  overlapped key, and it consists of the range and the overlapped keys, nothing else.
\<close>

definition union_of :: "range \<Rightarrow> range list \<Rightarrow> range" where
  "union_of r ts = MkRange (min (r_start r) (r_start (hd ts))) (max (r_end r) (r_end (last ts)))"

definition overlapped :: "range \<Rightarrow> range list \<Rightarrow> bool" where
  "overlapped r ts \<longleftrightarrow> wf_range r \<and> (\<forall>t \<in> set ts. wf_range t \<and> addrs r \<inter> addrs t \<noteq> {}) \<and>
     ts \<noteq> [] \<and> sorted_wrt (<) ts \<and>
     (\<forall>t \<in> set ts. \<forall>t' \<in> set ts. t \<noteq> t' \<longrightarrow> addrs t \<inter> addrs t' = {})"

lemma overlappedD:
  assumes "overlapped r ts"
  shows "wf_range r" "ts \<noteq> []" "sorted_wrt (<) ts" "t \<in> set ts \<Longrightarrow> wf_range t"
    "t \<in> set ts \<Longrightarrow> addrs r \<inter> addrs t \<noteq> {}"
    "t \<in> set ts \<Longrightarrow> t' \<in> set ts \<Longrightarrow> t \<noteq> t' \<Longrightarrow> addrs t \<inter> addrs t' = {}"
  using assms unfolding overlapped_def by blast+

lemma overlapped_hd: "overlapped r ts \<Longrightarrow> t \<in> set ts \<Longrightarrow> r_start (hd ts) \<le> r_start t"
  by (cases ts) (auto simp: overlapped_def range_order_defs)

lemma overlapped_last:
  assumes ov: "overlapped r ts" and t: "t \<in> set ts"
  shows "r_end t \<le> r_end (last ts)"
proof (cases "t = last ts")
  case False
  obtain us l where ts: "ts = us @ [l]" using overlappedD(2) [OF ov] by (cases ts rule: rev_cases) auto
  then have "t \<in> set us" "l \<in> set ts" "t \<noteq> l" using t False by auto
  then have "t < l" using overlappedD(3) [OF ov] ts by (simp add: sorted_wrt_append)
  then have "r_end t < r_end l"
    using overlap_order(2) overlappedD(5,6) [OF ov] t \<open>l \<in> set ts\<close> \<open>t \<noteq> l\<close> by metis
  then show ?thesis using ts by simp
qed simp

lemma sub_union:
  assumes "overlapped r ts" "t \<in> set ts"
  shows "r_start (union_of r ts) \<le> r_start t" "r_end t \<le> r_end (union_of r ts)"
  using overlapped_hd [OF assms] overlapped_last [OF assms] by (simp_all add: union_of_def)

lemma r_sub_union: "r_start (union_of r ts) \<le> r_start r" "r_end r \<le> r_end (union_of r ts)"
  by (simp_all add: union_of_def)

lemma wf_union:
  assumes "overlapped r ts"
  shows "wf_range (union_of r ts)"
proof -
  have "last ts \<in> set ts" using overlappedD(2) [OF assms] by simp
  then have "wf_range (last ts)" using overlappedD(4) [OF assms] by blast
  moreover have "wf_range r" using overlappedD(1) [OF assms] .
  ultimately show ?thesis by (auto simp: wf_range_def union_of_def)
qed

lemma addrs_union:
  assumes ov: "overlapped r ts"
  shows "addrs (union_of r ts) = addrs r \<union> (\<Union>t \<in> set ts. addrs t)"
proof (intro set_eqI iffI)
  fix a assume a: "a \<in> addrs (union_of r ts)"
  have ends: "hd ts \<in> set ts" "last ts \<in> set ts" using overlappedD(2) [OF ov] by simp_all
  obtain x y where xy: "x \<in> addrs r \<inter> addrs (hd ts)" "y \<in> addrs r \<inter> addrs (last ts)"
    using overlappedD(5) [OF ov] ends by blast
  consider "a \<in> addrs r" | "a < r_start r" | "r_end r \<le> a" by force
  then show "a \<in> addrs r \<union> (\<Union>t \<in> set ts. addrs t)"
  proof cases
    case 2
    then have "a \<in> addrs (hd ts)" using a xy by (auto simp: union_of_def)
    then show ?thesis using ends by blast
  next
    case 3
    then have "a \<in> addrs (last ts)" using a xy by (auto simp: union_of_def)
    then show ?thesis using ends by blast
  qed simp
next
  fix a assume "a \<in> addrs r \<union> (\<Union>t \<in> set ts. addrs t)"
  then consider "a \<in> addrs r" | t where "t \<in> set ts" "a \<in> addrs t" by blast
  then show "a \<in> addrs (union_of r ts)"
  proof cases
    case 1
    then show ?thesis using r_sub_union [of r ts] by simp
  next
    case 2
    then show ?thesis using sub_union [OF ov 2(1)] by simp
  qed
qed

lemma overlapped_filter:
  assumes "wf_map m" "wf_range r" "filter (\<lambda>k. addrs r \<inter> addrs k \<noteq> {}) (map fst m) \<noteq> []"
  shows "overlapped r (filter (\<lambda>k. addrs r \<inter> addrs k \<noteq> {}) (map fst m))"
proof -
  let ?ts = "filter (\<lambda>k. addrs r \<inter> addrs k \<noteq> {}) (map fst m)"
  have keys: "t \<in> set (map fst m)" "addrs r \<inter> addrs t \<noteq> {}" if "t \<in> set ?ts" for t
    using that by simp_all
  have "sorted_wrt (<) ?ts"
    by (rule sorted_wrt_filter [OF wf_map_keys_sorted [OF assms(1)]])
  moreover have "wf_range t \<and> addrs r \<inter> addrs t \<noteq> {}" if "t \<in> set ?ts" for t
    using keys [OF that] wf_map_keys [OF assms(1)] by blast
  moreover have "addrs t \<inter> addrs t' = {}" if "t \<in> set ?ts" "t' \<in> set ?ts" "t \<noteq> t'" for t t'
    by (rule wf_map_keys_disjoint [OF assms(1) keys(1) [OF that(1)] keys(1) [OF that(2)] that(3)])
  ultimately show ?thesis
    using assms(2,3) unfolding overlapped_def by blast
qed

section \<open>Inserting and removing slices\<close>

lemma wf_map_filter: "wf_map m \<Longrightarrow> wf_map (filter P m)"
  by (induction m rule: wf_map.induct) (simp_all del: mem_addrs)

lemma lookup_cell_eq_of_entry:
  assumes "wf_map m" "wf_map m'" "(k, s) \<in> set m" "(k, s) \<in> set m'" "a \<in> addrs k"
  shows "lookup_cell m a = lookup_cell m' a"
  using lookup_cell_mem [OF assms(1,3,5)] lookup_cell_mem [OF assms(2,4,5)] by simp

lemma lookup_cell_filter:
  assumes "wf_map m" "\<And>k s. (k, s) \<in> set m \<Longrightarrow> a \<in> addrs k \<Longrightarrow> P (k, s)"
  shows "lookup_cell (filter P m) a = lookup_cell m a"
proof (cases "lookup_cell m a")
  case None
  then have "\<forall>e \<in> set (filter P m). a \<notin> addrs (fst e)"
    by (force simp: lookup_cell_None)
  with None show ?thesis by (metis (no_types, lifting) case_prod_unfold lookup_cell_None)
next
  case (Some c)
  then obtain k s where e: "(k, s) \<in> set m" "a \<in> addrs k"
    using lookup_cell_Some [OF Some] by (elim exE conjE)
  then have "(k, s) \<in> set (filter P m)" using assms(2) by simp
  from lookup_cell_eq_of_entry [OF wf_map_filter [OF assms(1)] assms(1) this e(1) e(2)]
  show ?thesis .
qed

lemma bt_insert_slice:
  assumes wf: "wf_map m" and s: "wf_slice s" "sl_range s = u"
    and dj: "\<And>k s'. (k, s') \<in> set m \<Longrightarrow> addrs u \<inter> addrs k = {}"
  shows "wf_map (bt_insert u s m)"
    and "lookup_cell (bt_insert u s m) a = (if a \<in> addrs u then Some (cell_at s a) else lookup_cell m a)"
proof -
  note sorted = wf_map_sorted [OF wf]
  note ent = bt.entries_ins [OF sorted, of u s]
  show wf': "wf_map (bt_insert u s m)"
  proof (rule wf_mapI)
    show "bt_sorted (bt_insert u s m)" by (rule bt.invar_ins [OF sorted])
  next
    fix r t assume "(r, t) \<in> set (bt_insert u s m)"
    then consider "r = u" "t = s" | "(r, t) \<in> set m" unfolding ent by auto
    then show "wf_slice t \<and> sl_range t = r"
      by cases (use s wf_map_entry [OF wf] in simp_all)
  next
    fix r t r' t' assume "(r, t) \<in> set (bt_insert u s m)" "(r', t') \<in> set (bt_insert u s m)" "r \<noteq> r'"
    then consider "r = u" "(r', t') \<in> set m" | "r' = u" "(r, t) \<in> set m"
      | "(r, t) \<in> set m" "(r', t') \<in> set m" unfolding ent by auto
    then show "addrs r \<inter> addrs r' = {}"
      by cases (use dj wf_map_disjoint [OF wf _ _ \<open>r \<noteq> r'\<close>] in \<open>simp_all add: Int_commute\<close>)
  qed
  show "lookup_cell (bt_insert u s m) a = (if a \<in> addrs u then Some (cell_at s a) else lookup_cell m a)"
  proof (cases "a \<in> addrs u")
    case True
    then show ?thesis using lookup_cell_mem [OF wf', of u s] ent by simp
  next
    case False
    show ?thesis
    proof (cases "lookup_cell m a")
      case None
      then have "\<forall>e \<in> set (bt_insert u s m). a \<notin> addrs (fst e)"
        using False unfolding ent lookup_cell_None by force
      then have "lookup_cell (bt_insert u s m) a = None"
        unfolding lookup_cell_None by (simp add: case_prod_unfold)
      with None False show ?thesis by simp
    next
      case (Some c)
      then obtain k t where e: "(k, t) \<in> set m" "a \<in> addrs k"
        using lookup_cell_Some [OF Some] by (elim exE conjE)
      then have "(k, t) \<in> set (bt_insert u s m)" using False unfolding ent by auto
      from lookup_cell_eq_of_entry [OF wf' wf this e] False show ?thesis by (simp only: if_False)
    qed
  qed
qed

section \<open>Absorbing the overlapped slices\<close>

lemma put_cells_eq [panic_free]:
  "off + length cs \<le> length buf \<Longrightarrow>
     put_cells off cs buf = Some (take off buf @ cs @ drop (off + length cs) buf)"
proof (induction off cs buf rule: put_cells.induct)
  case (2 off c cs buf)
  then have "take (Suc off) (buf[off := c]) = take off buf @ [c]"
    by (simp add: take_Suc_conv_app_nth)
  with 2 show ?case by simp
qed simp

lemma wf_slice_buffer:
  "wf_slice sl \<Longrightarrow> length buf = length (sl_buffer sl) \<Longrightarrow> wf_slice (sl\<lparr>sl_buffer := buf\<rparr>)"
  by (simp add: wf_slice_def)

lemma absorb_one:
  assumes "wf_slice sl" "sl_range sl = u" "wf_slice s" "r_start u \<le> r_start (sl_range s)"
    "r_end (sl_range s) \<le> r_end u"
  obtains buf where "put_cells (r_start (sl_range s) - r_start u) (sl_buffer s) (sl_buffer sl) = Some buf"
    and "wf_slice (sl\<lparr>sl_buffer := buf\<rparr>)"
    and "\<And>a. a \<in> addrs u \<Longrightarrow> cell_at (sl\<lparr>sl_buffer := buf\<rparr>) a =
           (if a \<in> addrs (sl_range s) then cell_at s a else cell_at sl a)"
proof -
  let ?t = "sl_range s"
  let ?off = "r_start ?t - r_start u"
  let ?buf = "take ?off (sl_buffer sl) @ sl_buffer s @ drop (?off + length (sl_buffer s)) (sl_buffer sl)"
  have len: "length (sl_buffer sl) = r_end u - r_start u" "length (sl_buffer s) = r_end ?t - r_start ?t"
    and le: "r_start ?t \<le> r_end ?t"
    using assms(1-3) by (auto simp: wf_slice_def)
  have fit: "?off + length (sl_buffer s) \<le> length (sl_buffer sl)"
    using len le assms(4,5) by simp
  show thesis
  proof (rule that [of ?buf])
    show "put_cells ?off (sl_buffer s) (sl_buffer sl) = Some ?buf"
      by (rule put_cells_eq [OF fit])
    have "length ?buf = length (sl_buffer sl)" using fit by simp
    then show "wf_slice (sl\<lparr>sl_buffer := ?buf\<rparr>)"
      by (rule wf_slice_buffer [OF assms(1)])
    fix a assume a: "a \<in> addrs u"
    show "cell_at (sl\<lparr>sl_buffer := ?buf\<rparr>) a = (if a \<in> addrs ?t then cell_at s a else cell_at sl a)"
    proof -
      have i: "a - r_start u < length (sl_buffer sl)" using a len by auto
      have "?off \<le> a - r_start u \<and> a - r_start u < ?off + length (sl_buffer s) \<longleftrightarrow> a \<in> addrs ?t"
          "a \<in> addrs ?t \<Longrightarrow> a - r_start u - ?off = a - r_start ?t"
        using a assms(4) len(2) le by auto
      with nth_overwrite [OF fit i] show ?thesis
        using assms(2) by (simp add: cell_at_def del: mem_addrs)
    qed
  qed
qed

lemma absorb_spec:
  assumes "wf_map m" "distinct ts" "wf_slice sl" "sl_range sl = u"
    and "\<And>t. t \<in> set ts \<Longrightarrow> t \<in> set (map fst m) \<and> r_start u \<le> r_start t \<and> r_end t \<le> r_end u"
  shows "\<exists>sl'. absorb (r_start u) ts m sl = Some (filter (\<lambda>e. fst e \<notin> set ts) m, sl') \<and>
     wf_slice sl' \<and> sl_range sl' = u \<and>
     (\<forall>a \<in> addrs u. cell_at sl' a =
        (if \<exists>t \<in> set ts. a \<in> addrs t then the (lookup_cell m a) else cell_at sl a))"
  using assms
proof (induction ts arbitrary: m sl)
  case Nil
  then show ?case by simp
next
  case (Cons t ts)
  obtain s where s: "(t, s) \<in> set m"
    using key_entry Cons.prems(5) [of t] by (metis list.set_intros(1))
  have st: "wf_slice s" "sl_range s = t" using wf_map_entry [OF Cons.prems(1) s] by simp_all
  let ?m = "filter (\<lambda>e. fst e \<noteq> t) m"
  note dist = bt_sorted_distinct [OF wf_map_sorted [OF Cons.prems(1)]]
  have rm: "bt_remove t m = Some (s, ?m)"
    using bt_remove_filter [OF dist, of t] map_of_is_SomeI [OF dist s] by simp
  have bounds: "r_start u \<le> r_start (sl_range s)" "r_end (sl_range s) \<le> r_end u"
    using Cons.prems(5) [of t] st(2) by simp_all
  obtain buf where buf: "put_cells (r_start (sl_range s) - r_start u) (sl_buffer s) (sl_buffer sl) = Some buf"
      "wf_slice (sl\<lparr>sl_buffer := buf\<rparr>)"
    and at: "\<And>a. a \<in> addrs u \<Longrightarrow> cell_at (sl\<lparr>sl_buffer := buf\<rparr>) a =
           (if a \<in> addrs (sl_range s) then cell_at s a else cell_at sl a)"
    using absorb_one [OF Cons.prems(3,4) st(1) bounds] by blast
  have rest: "t' \<in> set (map fst ?m) \<and> r_start u \<le> r_start t' \<and> r_end t' \<le> r_end u"
    if "t' \<in> set ts" for t'
    using Cons.prems(2,5) that by fastforce
  obtain sl' where ih: "absorb (r_start u) ts ?m (sl\<lparr>sl_buffer := buf\<rparr>) =
        Some (filter (\<lambda>e. fst e \<notin> set ts) ?m, sl')" "wf_slice sl'" "sl_range sl' = u"
    and cells: "\<forall>a \<in> addrs u. cell_at sl' a = (if \<exists>t \<in> set ts. a \<in> addrs t
        then the (lookup_cell ?m a) else cell_at (sl\<lparr>sl_buffer := buf\<rparr>) a)"
    using Cons.IH [OF wf_map_filter [OF Cons.prems(1)] _ buf(2) _ rest] Cons.prems(2,4) by auto
  have "absorb (r_start u) (t # ts) m sl = Some (filter (\<lambda>e. fst e \<notin> set (t # ts)) m, sl')"
    using rm buf(1) ih(1) bounds by (simp add: panic_free conj_commute)
  moreover have "cell_at sl' a = (if \<exists>t \<in> set (t # ts). a \<in> addrs t
      then the (lookup_cell m a) else cell_at sl a)" if a: "a \<in> addrs u" for a
  proof (cases "a \<in> addrs t")
    case True
    have "a \<notin> addrs t'" if "t' \<in> set ts" for t'
    proof -
      have "addrs t \<inter> addrs t' = {}"
        using wf_map_keys_disjoint [OF Cons.prems(1), of t t'] Cons.prems(2,5) that by auto
      with True show ?thesis by blast
    qed
    then have "\<not> (\<exists>t \<in> set ts. a \<in> addrs t)" by blast
    then show ?thesis
      using cells at [OF a] a True st(2) lookup_cell_mem [OF Cons.prems(1) s True]
      by (simp del: mem_addrs)
  next
    case False
    then have "lookup_cell ?m a = lookup_cell m a"
      by (intro lookup_cell_filter [OF Cons.prems(1)]) auto
    with False show ?thesis
      using cells at [OF a] a st(2) by (simp del: mem_addrs)
  qed
  ultimately show ?case using ih(2,3) by (intro exI [of _ sl']) (simp del: mem_addrs)
qed

section \<open>Widening the overlapped cells\<close>

lemma widen_cells_append:
  "widen_cells kind (xs @ ys) buf = do {
     res \<leftarrow> widen_cells kind xs buf;
     (case res of None \<Rightarrow> Some None | Some buf' \<Rightarrow> widen_cells kind ys buf')
   }"
  by (induction kind xs buf rule: widen_cells.induct) (auto split: option.splits)

lemma widen_cells_eq [panic_free]:
  "distinct is \<Longrightarrow> \<forall>i \<in> set is. i < length buf \<Longrightarrow> widen_cells kind is buf = Some
     (if \<exists>i \<in> set is. widen_cell kind (buf ! i) = None then None
      else Some (map (\<lambda>i. if i \<in> set is then the (widen_cell kind (buf ! i)) else buf ! i) [0 ..< length buf]))"
proof (induction kind "is" buf rule: widen_cells.induct)
  case (1 kind buf)
  then show ?case by (simp add: map_nth)
next
  case (2 kind i "is" buf)
  show ?case
  proof (cases "widen_cell kind (buf ! i)")
    case None
    with 2 show ?thesis by simp
  next
    case (Some c)
    have neq: "buf[i := c] ! j = buf ! j" if "j \<in> set is" for j
      using 2(2) that by (metis distinct.simps(2) nth_list_update_neq)
    have ih: "widen_cells kind is (buf[i := c]) = Some
      (if \<exists>j \<in> set is. widen_cell kind (buf ! j) = None then None
       else Some (map (\<lambda>j. if j \<in> set is then the (widen_cell kind (buf ! j)) else buf[i := c] ! j)
              [0 ..< length buf]))"
      using 2(1) [OF _ Some] 2(2,3) neq by (simp cong: if_cong bex_cong map_cong)
    have "(if j \<in> set is then the (widen_cell kind (buf ! j)) else buf[i := c] ! j) =
        (if j \<in> set (i # is) then the (widen_cell kind (buf ! j)) else buf ! j)"
      if "j < length buf" for j
      using 2(2) Some that by (cases "j = i") auto
    then show ?thesis
      using 2(3) Some ih by (simp cong: map_cong if_cong)
  qed
qed

text \<open>The buffer positions of the addresses a range shares with the overlapped keys.\<close>

definition shared_idx :: "range \<Rightarrow> usize \<Rightarrow> range list \<Rightarrow> usize list" where
  "shared_idx r start ts =
     concat (map (\<lambda>t. [max (r_start r) (r_start t) - start ..< min (r_end r) (r_end t) - start]) ts)"

lemma widen_targets_eq:
  assumes "wf_range r" "\<forall>t \<in> set ts. wf_range t \<and> addrs r \<inter> addrs t \<noteq> {} \<and> start \<le> r_start t" "start \<le> r_start r"
  shows "widen_targets kind r start ts buf = widen_cells kind (shared_idx r start ts) buf"
  using assms(2)
proof (induction ts arbitrary: buf)
  case (Cons t ts)
  have t: "wf_range t" "addrs r \<inter> addrs t \<noteq> {}" "start \<le> r_start t" using Cons.prems by simp_all
  have "start \<le> max (r_start r) (r_start t)" "start \<le> min (r_end r) (r_end t)"
    using t(1,3) assms(1,3) by (auto simp: wf_range_def)
  then have "widen_targets kind r start (t # ts) buf = do {
      res \<leftarrow> widen_cells kind [max (r_start r) (r_start t) - start ..< min (r_end r) (r_end t) - start] buf;
      (case res of None \<Rightarrow> Some None | Some buf' \<Rightarrow> widen_targets kind r start ts buf')
    }"
    using t(2) by (simp add: range_intersect_Some [OF assms(1) t(1)] usize_sub_Some del: mem_addrs
        min.bounded_iff le_max_iff_disj)
  moreover have "widen_targets kind r start ts buf' = widen_cells kind (shared_idx r start ts) buf'" for buf'
    using Cons.IH Cons.prems by simp
  ultimately show ?case
    by (simp add: shared_idx_def widen_cells_append del: widen_targets.simps cong: option.case_cong)
qed (simp add: shared_idx_def)

lemma set_shared_idx:
  assumes "\<forall>t \<in> set ts. start \<le> r_start t" "start \<le> r_start r"
  shows "i \<in> set (shared_idx r start ts) \<longleftrightarrow> start + i \<in> addrs r \<and> (\<exists>t \<in> set ts. start + i \<in> addrs t)"
  using assms(1)
proof (induction ts)
  case (Cons t ts)
  have "i \<in> set [max (r_start r) (r_start t) - start ..< min (r_end r) (r_end t) - start] \<longleftrightarrow>
      start + i \<in> addrs r \<and> start + i \<in> addrs t"
    using Cons.prems assms(2) by auto
  with Cons show ?case by (auto simp: shared_idx_def simp del: mem_addrs set_upt)
qed (simp add: shared_idx_def)

lemma distinct_shared_idx:
  assumes "\<forall>t \<in> set ts. start \<le> r_start t" "start \<le> r_start r" "distinct ts"
    "\<forall>t \<in> set ts. \<forall>t' \<in> set ts. t \<noteq> t' \<longrightarrow> addrs t \<inter> addrs t' = {}"
  shows "distinct (shared_idx r start ts)"
  using assms(1,3,4)
proof (induction ts)
  case (Cons t ts)
  have ih: "distinct (shared_idx r start ts)"
    using Cons by simp
  have "i \<notin> set (shared_idx r start ts)"
    if "i \<in> set [max (r_start r) (r_start t) - start ..< min (r_end r) (r_end t) - start]" for i
  proof
    assume "i \<in> set (shared_idx r start ts)"
    then obtain t' where "t' \<in> set ts" "start + i \<in> addrs t'"
      using set_shared_idx [of ts start r i] Cons.prems(1) assms(2) by auto
    moreover have "start + i \<in> addrs t"
      using that Cons.prems(1) by auto
    moreover have "addrs t \<inter> addrs t' = {}"
      using Cons.prems(2,3) \<open>t' \<in> set ts\<close> by (metis distinct.simps(2) list.set_intros)
    ultimately show False by blast
  qed
  then have "set [max (r_start r) (r_start t) - start ..< min (r_end r) (r_end t) - start] \<inter>
      set (shared_idx r start ts) = {}" by blast
  with ih show ?case by (simp add: shared_idx_def del: set_upt)
qed (simp add: shared_idx_def)

section \<open>One range\<close>

lemma add_range_fresh:
  assumes "wf_map m" "wf_range r" "filter (\<lambda>k. addrs r \<inter> addrs k \<noteq> {}) (map fst m) = []"
  shows "\<exists>m'. add_range kind m r = Some (Some m') \<and> wf_map m' \<and>
           declare_range kind r (lookup_cell m) = Some (lookup_cell m')"
proof -
  let ?s = "\<lparr>sl_range = r, sl_buffer = replicate (r_end r - r_start r) (cell_zeroed kind)\<rparr>"
  have none: "addrs r \<inter> addrs k = {}" if "(k, s) \<in> set m" for k s
  proof -
    have "k \<in> set (map fst m)" using that by force
    with assms(3) show ?thesis by (simp only: filter_empty_conv) blast
  qed
  have step: "add_range kind m r = Some (Some (bt_insert r ?s m))"
    using assms(3) wf_map_keys [OF assms(1)]
    by (simp add: add_range_def intersecting_eq [OF assms(2)] slice_from_range_wf [OF assms(2)]
        del: filter_map map_is_Nil_conv)
  note ins = bt_insert_slice [OF assms(1) wf_slice_fresh [OF assms(2)] _ none, of "cell_zeroed kind", simplified]
  have uncovered: "lookup_cell m a = None" if "a \<in> addrs r" for a
    using none that unfolding lookup_cell_None by blast
  have "cell_at ?s a = cell_zeroed kind" if "a \<in> addrs r" for a
    using that by (auto simp: cell_at_def)
  then have "lookup_cell (bt_insert r ?s m) = (\<lambda>a. if r_start r \<le> a \<and> a < r_end r
      then (case lookup_cell m a of None \<Rightarrow> Some (cell_zeroed kind) | Some c \<Rightarrow> widen_cell kind c)
      else lookup_cell m a)"
    using uncovered by (auto simp: ins(2) fun_eq_iff)
  with step ins(1) uncovered show ?thesis
    by (auto simp: declare_range_def)
qed

text \<open>The merged slice before the insertion, for every address of the union.\<close>

lemma add_range_merged:
  assumes "wf_map m" "wf_range r"
    and ts: "ts = filter (\<lambda>k. addrs r \<inter> addrs k \<noteq> {}) (map fst m)" "ts \<noteq> []"
  defines "u \<equiv> union_of r ts"
  obtains sl where
    "absorb (r_start u) ts m \<lparr>sl_range = u, sl_buffer = replicate (r_end u - r_start u) (cell_zeroed kind)\<rparr>
       = Some (filter (\<lambda>e. fst e \<notin> set ts) m, sl)"
    "wf_slice sl" "sl_range sl = u"
    "\<And>a. a \<in> addrs u \<Longrightarrow> cell_at sl a = (case lookup_cell m a of None \<Rightarrow> cell_zeroed kind | Some c \<Rightarrow> c)"
    "\<And>a. a \<in> addrs u \<Longrightarrow> (\<exists>t \<in> set ts. a \<in> addrs t) \<longleftrightarrow> lookup_cell m a \<noteq> None"
proof -
  have ov: "overlapped r ts" using overlapped_filter [OF assms(1,2)] ts by simp
  have keys: "t \<in> set (map fst m)" if "t \<in> set ts" for t using that ts(1) by simp
  let ?f = "\<lparr>sl_range = u, sl_buffer = replicate (r_end u - r_start u) (cell_zeroed kind)\<rparr>"
  have dist: "distinct ts" using overlappedD(3) [OF ov] by (simp add: strict_sorted_iff)
  have sub: "t \<in> set (map fst m) \<and> r_start u \<le> r_start t \<and> r_end t \<le> r_end u" if "t \<in> set ts" for t
    using keys [OF that] sub_union [OF ov that] by (simp add: u_def)
  have fresh: "wf_slice ?f" using wf_slice_fresh wf_union [OF ov] by (simp add: u_def)
  obtain sl where sl: "absorb (r_start u) ts m ?f = Some (filter (\<lambda>e. fst e \<notin> set ts) m, sl)"
      "wf_slice sl" "sl_range sl = u"
    and at: "\<forall>a \<in> addrs u. cell_at sl a =
        (if \<exists>t \<in> set ts. a \<in> addrs t then the (lookup_cell m a) else cell_at ?f a)"
    using absorb_spec [OF assms(1) dist fresh slice.select_convs(1) sub] by blast
  have cov: "(\<exists>t \<in> set ts. a \<in> addrs t) \<longleftrightarrow> lookup_cell m a \<noteq> None" if a: "a \<in> addrs u" for a
  proof
    assume "\<exists>t \<in> set ts. a \<in> addrs t"
    then obtain t s where "(t, s) \<in> set m" "a \<in> addrs t" using keys key_entry by metis
    from lookup_cell_mem [OF assms(1) this] show "lookup_cell m a \<noteq> None" by simp
  next
    assume "lookup_cell m a \<noteq> None"
    then obtain k s where k: "(k, s) \<in> set m" "a \<in> addrs k"
      using lookup_cell_Some by blast
    from a addrs_union [OF ov] consider "a \<in> addrs r" | "\<exists>t \<in> set ts. a \<in> addrs t"
      unfolding u_def by blast
    then show "\<exists>t \<in> set ts. a \<in> addrs t"
    proof cases
      case 1
      then have "k \<in> set ts" using k ts(1) by force
      with k(2) show ?thesis by blast
    qed
  qed
  have "cell_at sl a = (case lookup_cell m a of None \<Rightarrow> cell_zeroed kind | Some c \<Rightarrow> c)"
    if a: "a \<in> addrs u" for a
    using at a cov [OF a] by (cases "lookup_cell m a") (auto simp: cell_at_def)
  with sl cov show thesis by (intro that)
qed

lemma add_range_unfold:
  assumes "wf_map m" "wf_range r"
    and ts: "ts = filter (\<lambda>k. addrs r \<inter> addrs k \<noteq> {}) (map fst m)" "ts \<noteq> []"
  defines "u \<equiv> union_of r ts"
  shows "add_range kind m r = do {
    (m', merged) \<leftarrow> absorb (r_start u) ts m
       \<lparr>sl_range = u, sl_buffer = replicate (r_end u - r_start u) (cell_zeroed kind)\<rparr>;
    res \<leftarrow> widen_cells kind (shared_idx r (r_start u) ts) (sl_buffer merged);
    (case res of None \<Rightarrow> Some None
     | Some buf \<Rightarrow> Some (Some (bt_insert u (merged\<lparr>sl_buffer := buf\<rparr>) m')))
  }"
proof -
  have ov: "overlapped r ts" using overlapped_filter [OF assms(1,2)] ts by simp
  have int: "intersecting r (map fst m) = Some ts"
    using intersecting_eq [OF assms(2)] wf_map_keys [OF assms(1)] ts(1) by blast
  have wfu: "wf_range u" using wf_union [OF ov] by (simp add: u_def)
  have ends: "min (r_start r) (r_start (hd ts)) = r_start u" "max (r_end r) (r_end (last ts)) = r_end u"
    by (simp_all add: u_def union_of_def)
  have new: "usize_sub (r_end u) (r_start u) = Some (r_end u - r_start u)"
      "range_new (r_start u) (r_end u - r_start u) = Some u"
    using wfu by (auto simp: wf_range_def)
  have wid: "widen_targets kind r (r_start u) ts buf = widen_cells kind (shared_idx r (r_start u) ts) buf" for buf
    using ov sub_union [OF ov] r_sub_union [of r ts] overlappedD(4,5) [OF ov]
    by (intro widen_targets_eq [OF assms(2)]) (simp_all add: u_def del: mem_addrs)
  show ?thesis
    unfolding add_range_def int
    by (simp add: ts(2) Let_def ends new wid slice_from_range_wf [OF wfu]
        del: usize_sub_eq_Some range_new_eq_Some)
qed

text \<open>
  A slice over the union that shows the address space \<open>sp\<close>: its own cells where the overlapped
  slices had them, fresh ones elsewhere.
\<close>

definition shows_space :: "cell_kind \<Rightarrow> slice \<Rightarrow> range \<Rightarrow> range list \<Rightarrow> addr_space \<Rightarrow> bool" where
  "shows_space kind sl r ts sp \<longleftrightarrow>
     overlapped r ts \<and> wf_slice sl \<and> sl_range sl = union_of r ts \<and>
     (\<forall>a \<in> addrs (union_of r ts).
        cell_at sl a = (case sp a of None \<Rightarrow> cell_zeroed kind | Some c \<Rightarrow> c) \<and>
        ((\<exists>t \<in> set ts. a \<in> addrs t) \<longleftrightarrow> sp a \<noteq> None))"

lemma shared_idx_shows:
  assumes "shows_space kind sl r ts sp"
  defines "start \<equiv> r_start (union_of r ts)"
  shows "i \<in> set (shared_idx r start ts) \<longleftrightarrow> start + i \<in> addrs r \<and> sp (start + i) \<noteq> None"
    and "i \<in> set (shared_idx r start ts) \<Longrightarrow> i < length (sl_buffer sl)"
    and "i \<in> set (shared_idx r start ts) \<Longrightarrow> sl_buffer sl ! i = the (sp (start + i))"
    and "distinct (shared_idx r start ts)"
proof -
  have ov: "overlapped r ts" using assms by (simp add: shows_space_def)
  have starts: "\<forall>t \<in> set ts. start \<le> r_start t" "start \<le> r_start r"
    using sub_union [OF ov] r_sub_union [of r ts] by (simp_all add: start_def)
  have sl: "wf_slice sl" "sl_range sl = union_of r ts"
    and cov: "\<And>a. a \<in> addrs (union_of r ts) \<Longrightarrow> (\<exists>t \<in> set ts. a \<in> addrs t) \<longleftrightarrow> sp a \<noteq> None"
    and at: "\<And>a. a \<in> addrs (union_of r ts) \<Longrightarrow>
      cell_at sl a = (case sp a of None \<Rightarrow> cell_zeroed kind | Some c \<Rightarrow> c)"
    using assms unfolding shows_space_def by blast+
  show mem: "i \<in> set (shared_idx r start ts) \<longleftrightarrow> start + i \<in> addrs r \<and> sp (start + i) \<noteq> None"
    using set_shared_idx [OF starts, of i] cov [of "start + i"] addrs_union [OF ov] by blast
  have in_u: "start + i \<in> addrs (union_of r ts)" if "i \<in> set (shared_idx r start ts)"
    using mem that addrs_union [OF ov] by blast
  show "i \<in> set (shared_idx r start ts) \<Longrightarrow> i < length (sl_buffer sl)"
    using in_u sl by (auto simp: wf_slice_def start_def)
  show "i \<in> set (shared_idx r start ts) \<Longrightarrow> sl_buffer sl ! i = the (sp (start + i))"
    using at [OF in_u] mem sl(2) by (auto simp: cell_at_def start_def simp del: mem_addrs)
  show "distinct (shared_idx r start ts)"
    using overlappedD(3,6) [OF ov]
    by (intro distinct_shared_idx [OF starts]) (auto simp: strict_sorted_iff simp del: mem_addrs)
qed

lemma widen_shows:
  assumes sh: "shows_space kind sl r ts sp"
  defines "start \<equiv> r_start (union_of r ts)"
  shows "\<exists>buf. widen_cells kind (shared_idx r start ts) (sl_buffer sl) =
      Some (if declare_range kind r sp = None then None else Some buf) \<and>
    length buf = length (sl_buffer sl) \<and>
    (\<forall>sp' a. declare_range kind r sp = Some sp' \<longrightarrow> a \<in> addrs (union_of r ts) \<longrightarrow>
       Some (cell_at (sl\<lparr>sl_buffer := buf\<rparr>) a) = (if a \<in> addrs r then sp' a else Some (cell_at sl a)))"
proof -
  let ?idx = "shared_idx r start ts"
  note idx = shared_idx_shows [OF sh, folded start_def]
  have sl: "wf_slice sl" "sl_range sl = union_of r ts"
    using sh by (simp_all add: shows_space_def)
  have start: "start \<le> r_start r" using r_sub_union [of r ts] by (simp add: start_def)
  let ?buf = "map (\<lambda>i. if i \<in> set ?idx then the (widen_cell kind (sl_buffer sl ! i)) else sl_buffer sl ! i)
    [0 ..< length (sl_buffer sl)]"
  have bad: "(\<exists>i \<in> set ?idx. widen_cell kind (sl_buffer sl ! i) = None) \<longleftrightarrow> declare_range kind r sp = None"
  proof -
    have "(\<exists>i \<in> set ?idx. widen_cell kind (sl_buffer sl ! i) = None) \<longleftrightarrow>
        (\<exists>a \<in> addrs r. \<exists>c. sp a = Some c \<and> widen_cell kind c = None)"
    proof
      assume "\<exists>a \<in> addrs r. \<exists>c. sp a = Some c \<and> widen_cell kind c = None"
      then obtain a c where a: "a \<in> addrs r" "sp a = Some c" "widen_cell kind c = None" by blast
      then have "start + (a - start) = a" using start by auto
      with a have "a - start \<in> set ?idx" "sl_buffer sl ! (a - start) = c"
        using idx(1) [of "a - start"] idx(3) [of "a - start"] by simp_all
      with a(3) show "\<exists>i \<in> set ?idx. widen_cell kind (sl_buffer sl ! i) = None" by blast
    qed (use idx(1,3) in fastforce)
    then show ?thesis by (simp add: declare_range_def addrs_def)
  qed
  have "widen_cells kind ?idx (sl_buffer sl) = Some (if declare_range kind r sp = None then None else Some ?buf)"
    using widen_cells_eq [OF idx(4)] idx(2) bad by simp
  moreover have "Some (cell_at (sl\<lparr>sl_buffer := ?buf\<rparr>) a) = (if a \<in> addrs r then sp' a else Some (cell_at sl a))"
    if d: "declare_range kind r sp = Some sp'" and a: "a \<in> addrs (union_of r ts)" for sp' a
  proof -
    have i: "start + (a - start) = a" "a - start < length (sl_buffer sl)"
      using a sl by (auto simp: start_def wf_slice_def)
    have upd: "cell_at (sl\<lparr>sl_buffer := ?buf\<rparr>) a = (if a \<in> addrs r \<and> sp a \<noteq> None
        then the (widen_cell kind (the (sp a))) else cell_at sl a)"
      using i idx(1) [of "a - start"] idx(3) [of "a - start"] sl(2)
      by (auto simp: cell_at_def start_def [symmetric] simp del: mem_addrs)
    have sp': "sp' a = (case sp a of None \<Rightarrow> Some (cell_zeroed kind) | Some c \<Rightarrow> widen_cell kind c)"
      and ok: "\<And>c. sp a = Some c \<Longrightarrow> widen_cell kind c \<noteq> None" if "a \<in> addrs r"
      using d that by (auto simp: declare_range_def split: if_splits)
    have "cell_at sl a = cell_zeroed kind" if "sp a = None"
      using sh a that by (auto simp: shows_space_def)
    with upd sp' ok show ?thesis by (cases "sp a") (auto simp del: mem_addrs)
  qed
  ultimately show ?thesis by (intro exI [of _ ?buf]) (simp del: mem_addrs)
qed

lemma declare_outside: "declare_range kind r sp = Some sp' \<Longrightarrow> a \<notin> addrs r \<Longrightarrow> sp' a = sp a"
  by (auto simp: declare_range_def split: if_splits)

lemma rest_outside:
  assumes "wf_map m" "overlapped r ts" "ts = filter (\<lambda>k. addrs r \<inter> addrs k \<noteq> {}) (map fst m)"
    and e: "(k, s) \<in> set (filter (\<lambda>e. fst e \<notin> set ts) m)"
  shows "addrs (union_of r ts) \<inter> addrs k = {}"
proof -
  have k: "k \<in> set (map fst m)" "k \<notin> set ts" using e by force+
  then have "addrs r \<inter> addrs k = {}" using assms(3) by simp
  moreover have "addrs t \<inter> addrs k = {}" if "t \<in> set ts" for t
    using wf_map_keys_disjoint [OF assms(1) _ k(1), of t] that k(2) assms(3) by auto
  ultimately show ?thesis using addrs_union [OF assms(2)] by blast
qed

text \<open>Inserting the widened slice in place of the overlapped ones shows the declared space.\<close>

lemma insert_merged:
  assumes "wf_map m" and ts: "ts = filter (\<lambda>k. addrs r \<inter> addrs k \<noteq> {}) (map fst m)"
    and sh: "shows_space kind sl r ts (lookup_cell m)" and len: "length buf = length (sl_buffer sl)"
    and d: "declare_range kind r (lookup_cell m) = Some sp'"
    and at: "\<And>a. a \<in> addrs (union_of r ts) \<Longrightarrow>
       Some (cell_at (sl\<lparr>sl_buffer := buf\<rparr>) a) = (if a \<in> addrs r then sp' a else Some (cell_at sl a))"
  defines "m' \<equiv> bt_insert (union_of r ts) (sl\<lparr>sl_buffer := buf\<rparr>) (filter (\<lambda>e. fst e \<notin> set ts) m)"
  shows "wf_map m'" "lookup_cell m' = sp'"
proof -
  have ov: "overlapped r ts" and sl: "wf_slice sl" "sl_range (sl\<lparr>sl_buffer := buf\<rparr>) = union_of r ts"
    using sh by (simp_all add: shows_space_def)
  have other: "addrs (union_of r ts) \<inter> addrs k = {}"
    if "(k, s) \<in> set (filter (\<lambda>e. fst e \<notin> set ts) m)" for k s
    by (rule rest_outside [OF assms(1) ov ts that])
  have ins: "wf_map m'" "\<And>a. lookup_cell m' a =
      (if a \<in> addrs (union_of r ts) then Some (cell_at (sl\<lparr>sl_buffer := buf\<rparr>) a)
       else lookup_cell (filter (\<lambda>e. fst e \<notin> set ts) m) a)"
    unfolding m'_def
    by (rule bt_insert_slice [OF wf_map_filter [OF assms(1)] wf_slice_buffer [OF sl(1) len] sl(2)],
        erule other)+
  show "wf_map m'" by (rule ins(1))
  show "lookup_cell m' = sp'"
  proof
    fix a
    show "lookup_cell m' a = sp' a"
    proof (cases "a \<in> addrs (union_of r ts)")
      case True
      have "lookup_cell m a = Some (cell_at sl a)" if "a \<notin> addrs r"
      proof -
        have "\<exists>t \<in> set ts. a \<in> addrs t" using True that addrs_union [OF ov] by blast
        with sh True show ?thesis unfolding shows_space_def by fastforce
      qed
      with at [OF True] declare_outside [OF d] show ?thesis
        using ins(2) [of a] True by (auto simp del: mem_addrs split: if_splits)
    next
      case False
      then have "a \<notin> addrs r" using addrs_union [OF ov] by blast
      moreover have "lookup_cell (filter (\<lambda>e. fst e \<notin> set ts) m) a = lookup_cell m a"
        using False addrs_union [OF ov] by (intro lookup_cell_filter [OF assms(1)]) auto
      ultimately show ?thesis
        using ins(2) [of a] False declare_outside [OF d] by (simp del: mem_addrs)
    qed
  qed
qed

lemma add_range_merge:
  assumes "wf_map m" "wf_range r"
    and ts: "ts = filter (\<lambda>k. addrs r \<inter> addrs k \<noteq> {}) (map fst m)" "ts \<noteq> []"
  shows "\<exists>res. add_range kind m r = Some res \<and>
           map_option lookup_cell res = declare_range kind r (lookup_cell m) \<and>
           (\<forall>m'. res = Some m' \<longrightarrow> wf_map m')"
proof -
  define u where "u = union_of r ts"
  let ?m = "filter (\<lambda>e. fst e \<notin> set ts) m"
  have ov: "overlapped r ts" using overlapped_filter [OF assms(1,2)] ts by simp
  obtain sl where sl: "absorb (r_start u) ts m
       \<lparr>sl_range = u, sl_buffer = replicate (r_end u - r_start u) (cell_zeroed kind)\<rparr> = Some (?m, sl)"
    and sh: "shows_space kind sl r ts (lookup_cell m)"
    using add_range_merged [OF assms, of kind] ov unfolding shows_space_def u_def by metis
  obtain buf where buf: "widen_cells kind (shared_idx r (r_start u) ts) (sl_buffer sl) =
        Some (if declare_range kind r (lookup_cell m) = None then None else Some buf)"
      "length buf = length (sl_buffer sl)"
    and at: "\<And>sp' a. declare_range kind r (lookup_cell m) = Some sp' \<Longrightarrow> a \<in> addrs (union_of r ts) \<Longrightarrow>
       Some (cell_at (sl\<lparr>sl_buffer := buf\<rparr>) a) = (if a \<in> addrs r then sp' a else Some (cell_at sl a))"
    using widen_shows [OF sh] unfolding u_def by blast
  note step = add_range_unfold [OF assms, of kind, folded u_def, unfolded sl]
  show ?thesis
  proof (cases "declare_range kind r (lookup_cell m)")
    case None
    then show ?thesis using step buf(1) by simp
  next
    case (Some sp')
    note ins = insert_merged [OF assms(1) ts(1) sh buf(2) Some at [OF Some], folded u_def]
    show ?thesis using step buf(1) Some ins by simp
  qed
qed

theorem add_range_refines:
  assumes "wf_map m" "wf_range r"
  obtains res where "add_range kind m r = Some res"
    "map_option lookup_cell res = declare_range kind r (lookup_cell m)"
    "\<And>m'. res = Some m' \<Longrightarrow> wf_map m'"
proof (cases "filter (\<lambda>k. addrs r \<inter> addrs k \<noteq> {}) (map fst m) = []")
  case True
  from add_range_fresh [OF assms True, of kind] that show thesis by auto
next
  case False
  from add_range_merge [OF assms refl False, of kind] that show thesis by blast
qed

section \<open>A list of ranges, and a device\<close>

lemma add_range_list_refines:
  assumes "wf_map m" "\<forall>r \<in> set rs. wf_range r"
  shows "\<exists>res. add_range_list kind rs m = Some res \<and>
           map_option lookup_cell res = declare_ranges kind rs (lookup_cell m) \<and>
           (\<forall>m'. res = Some m' \<longrightarrow> wf_map m')"
  using assms
proof (induction rs arbitrary: m)
  case (Cons r rs)
  obtain res where res: "add_range kind m r = Some res"
      "map_option lookup_cell res = declare_range kind r (lookup_cell m)" "\<And>m'. res = Some m' \<Longrightarrow> wf_map m'"
    using add_range_refines [OF Cons.prems(1), of r kind] Cons.prems(2) by auto
  show ?case
  proof (cases res)
    case None
    with res(1) res(2) [symmetric] show ?thesis by simp
  next
    case (Some m')
    with Cons.IH [OF res(3)] Cons.prems(2) res(1) res(2) [symmetric] show ?thesis by simp
  qed
qed simp

lemma lookup_cell_Nil [simp]: "lookup_cell [] = (\<lambda>_. None)"
  by (simp add: fun_eq_iff)

end
