(* ===== verification/Store_Properties.thy ===== *)
theory Store_Properties
  imports Store_Declare
begin

text \<open>
  Properties of the register store as a whole: declarations refine their specification, the
  invariant holds in every reachable store and no operation on one panics, and what reads,
  checked writes, unchecked writes and the write observer do.
\<close>

section \<open>What a declaration does to existing cells\<close>

text \<open>A cell after a declaration: same type and value, and at least the access it had.\<close>

definition cell_widened :: "cell \<Rightarrow> cell \<Rightarrow> bool" where
  "cell_widened c c' \<longleftrightarrow>
     c_value c' = c_value c \<and> ck_ty (c_kind c') = ck_ty (c_kind c) \<and>
     (ck_access (c_kind c') = ck_access (c_kind c) \<or> ck_access (c_kind c') = ReadWrite)"

lemma cell_widened_refl [simp]: "cell_widened c c"
  by (simp add: cell_widened_def)

lemma cell_widened_trans: "cell_widened a b \<Longrightarrow> cell_widened b c \<Longrightarrow> cell_widened a c"
  by (auto simp: cell_widened_def)

lemma widen_cell_widened: "widen_cell kind c = Some c' \<Longrightarrow> cell_widened c c'"
  by (auto simp: widen_cell_def widen_access_def cell_widened_def split: if_splits access.splits)

lemma declare_range_widened:
  assumes "declare_range kind r sp = Some sp'" "sp a = Some c"
  shows "\<exists>c'. sp' a = Some c' \<and> cell_widened c c'"
proof (cases "a \<in> addrs r")
  case True
  with assms have "sp' a = widen_cell kind c" "widen_cell kind c \<noteq> None"
    by (auto simp: declare_range_def split: if_splits)
  then show ?thesis using widen_cell_widened by fastforce
next
  case False
  with assms declare_outside [OF assms(1) False] show ?thesis by simp
qed

lemma declare_ranges_widened:
  "declare_ranges kind rs sp = Some sp' \<Longrightarrow> sp a = Some c \<Longrightarrow> \<exists>c'. sp' a = Some c' \<and> cell_widened c c'"
proof (induction kind rs sp arbitrary: c rule: declare_ranges.induct)
  case (2 kind r rs sp)
  then obtain sp1 where sp1: "declare_range kind r sp = Some sp1" "declare_ranges kind rs sp1 = Some sp'"
    by (auto simp: bind_eq_Some_conv)
  obtain c1 where c1: "sp1 a = Some c1" "cell_widened c c1"
    using declare_range_widened [OF sp1(1) 2(3)] by blast
  from 2(1) [OF sp1 c1(1)] c1(2) show ?case using cell_widened_trans by blast
qed simp

section \<open>Reachable stores\<close>

lemma wf_memory_default [simp]: "wf_memory memory_default"
  by (simp add: wf_memory_def memory_default_def)

lemma add_ranges_eq:
  assumes "wf_memory mem" "\<forall>r \<in> set ranges. wf_range r"
  shows "\<exists>mem'. add_ranges mem k kind ranges =
      Some (declare_ranges kind (sort_key r_start ranges) (mem_cells mem k) \<noteq> None, mem') \<and>
    wf_memory mem' \<and> m_tap mem' = m_tap mem \<and>
    (case declare_ranges kind (sort_key r_start ranges) (mem_cells mem k) of
       None \<Rightarrow> mem' = mem
     | Some sp \<Rightarrow> mem_cells mem' = (mem_cells mem)(k := sp))"
proof -
  let ?m = "case m_slices mem k of None \<Rightarrow> [] | Some m \<Rightarrow> m"
  have m: "wf_map ?m" "lookup_cell ?m = mem_cells mem k"
    using assms(1) by (auto simp: wf_memory_def mem_cells_def split: option.splits)
  obtain res where res: "add_range_list kind (sort_key r_start ranges) ?m = Some res"
      "map_option lookup_cell res = declare_ranges kind (sort_key r_start ranges) (mem_cells mem k)"
      "\<And>m'. res = Some m' \<Longrightarrow> wf_map m'"
    using add_range_list_refines [OF m(1), of "sort_key r_start ranges" kind] assms(2) m(2) by auto
  show ?thesis
  proof (cases res)
    case None
    with res(1) res(2) [symmetric] assms(1) show ?thesis by (simp add: add_ranges_def)
  next
    case (Some m')
    have cells: "mem_cells mem = (mem_cells mem)(k := lookup_cell m')" if "m' = []"
    proof -
      have "declare_ranges kind (sort_key r_start ranges) (mem_cells mem k) = Some (\<lambda>_. None)"
        using that res(2) Some by simp
      then have "mem_cells mem k = (\<lambda>_. None)"
        using declare_ranges_widened by (metis not_Some_eq option.distinct(1))
      then show ?thesis using that by auto
    qed
    with Some res(1) res(2) [symmetric] res(3) [OF Some] assms(1) show ?thesis
      by (auto simp: add_ranges_def wf_memory_upd mem_cells_upd)
  qed
qed

text \<open>
  The operations that change a store, as one step relation; the reports to the tap and the
  returned values are the business of the theorems below.
\<close>

inductive store_step :: "'k memory \<Rightarrow> 'k memory \<Rightarrow> bool" where
  declares: "\<forall>r \<in> set ranges. wf_range r \<Longrightarrow> add_ranges mem k kind ranges = Some (ok, mem') \<Longrightarrow>
     store_step mem mem'"
| writes: "wf_range rg \<Longrightarrow> mem_write mem k ty rg vs = Some (res, mem') \<Longrightarrow> store_step mem mem'"
| writes_unchecked: "wf_range rg \<Longrightarrow> write_unchecked mem k rg vs = Some (b, mem') \<Longrightarrow> store_step mem mem'"
| writes_from: "wf_range rg \<Longrightarrow> write_from mem src k ty rg vs = Some (res, mem', ev) \<Longrightarrow> store_step mem mem'"
| writes_unchecked_from: "wf_range rg \<Longrightarrow> write_unchecked_from mem src k rg vs = Some (b, mem', ev) \<Longrightarrow>
     store_step mem mem'"
| taps: "store_step mem (set_write_tap mem)"

inductive store_reachable :: "'k memory \<Rightarrow> bool" where
  initial: "store_reachable memory_default"
| step: "store_reachable mem \<Longrightarrow> store_step mem mem' \<Longrightarrow> store_reachable mem'"

lemma write_unchecked_unknown:
  "wf_range rg \<Longrightarrow> \<not> (contains_key mem k \<and> length vs = r_end rg - r_start rg) \<Longrightarrow>
     write_unchecked mem k rg vs = Some (False, mem)"
  by (auto simp: write_unchecked_def contains_key_def panic_free)

lemma write_unchecked_total:
  assumes "wf_memory mem" "wf_range rg"
  obtains b mem' where "write_unchecked mem k rg vs = Some (b, mem')" "wf_memory mem'"
    "contains_key mem' = contains_key mem" "m_tap mem' = m_tap mem"
proof (cases "contains_key mem k \<and> length vs = r_end rg - r_start rg")
  case True
  with write_unchecked_known [OF assms, of k vs] that show thesis by blast
next
  case False
  from write_unchecked_unknown [OF assms(2) False] assms(1) that show thesis by blast
qed

text \<open>The sourced writes are the plain ones plus the report.\<close>

lemma write_from_eq:
  assumes "wf_memory mem" "wf_range rg" "mem_write mem k ty rg vs = Some (res, mem')"
  shows "write_from mem src k ty rg vs = Some (res, mem',
    if m_tap mem \<and> res = Ok ()
    then [\<lparr>sw_source = src, sw_id = k, sw_range = rg, sw_old = words_of (mem_cells mem k) rg, sw_new = vs\<rparr>]
    else [])"
proof (cases "write_spec (contains_key mem k) (mem_cells mem k) ty rg vs")
  case (Inl e)
  with mem_write_refused [OF assms(1,2) Inl] assms show ?thesis
    by (auto simp: write_from_def write_spec_def panic_free split: if_splits)
next
  case (Inr u)
  then have ok: "write_spec (contains_key mem k) (mem_cells mem k) ty rg vs = Ok ()" by simp
  then have cov: "contains_key mem k" "holds_on (accepts_write ty) (mem_cells mem k) rg"
      "r_end rg - r_start rg = length vs"
    by (auto simp: write_spec_def split: if_splits)
  then have "holds_on (\<lambda>_. True) (mem_cells mem k) rg"
    by (auto simp: holds_on_def)
  moreover obtain mem'' where "mem_write mem k ty rg vs = Some (Ok (), mem'')" "m_tap mem'' = m_tap mem"
    using mem_write_accepted [OF assms(1,2) ok] by blast
  ultimately show ?thesis
    using assms cov by (auto simp: write_from_def panic_free)
qed

lemma write_unchecked_from_eq:
  assumes "wf_memory mem" "wf_range rg" "write_unchecked mem k rg vs = Some (b, mem')"
  shows "write_unchecked_from mem src k rg vs = Some (b, mem',
    if m_tap mem \<and> b
    then [\<lparr>sw_source = src, sw_id = k, sw_range = rg, sw_old = words_of (mem_cells mem k) rg, sw_new = vs\<rparr>]
    else [])"
proof -
  have tap: "m_tap mem' = m_tap mem"
    using write_unchecked_total [OF assms(1,2), of k vs] assms(3) by auto
  show ?thesis
  proof (cases b)
    case True
    have "contains_key mem k \<and> length vs = r_end rg - r_start rg"
      using write_unchecked_unknown [OF assms(2), of mem k vs] True assms(3) by auto
    then have "holds_on (\<lambda>_. True) (mem_cells mem k) rg" "contains_key mem k"
      using write_unchecked_known [OF assms(1,2), of k vs] True assms(3) by auto
    with True tap assms show ?thesis
      by (simp add: write_unchecked_from_def panic_free)
  next
    case False
    with tap assms show ?thesis by (simp add: write_unchecked_from_def panic_free)
  qed
qed

lemma store_step_wf: "store_step mem mem' \<Longrightarrow> wf_memory mem \<Longrightarrow> wf_memory mem'"
proof (induction rule: store_step.induct)
  case (declares ranges mem k kind ok mem')
  then show ?case using add_ranges_eq [of mem ranges k kind] by auto
next
  case (writes rg mem k ty vs res mem')
  from store.wr_result(1) [OF writes(3,1,2)] show ?case .
next
  case (writes_unchecked rg mem k vs b mem')
  then show ?case using write_unchecked_total [of mem rg k vs] by auto
next
  case (writes_from rg mem src k ty vs res mem' ev)
  then obtain r m where "mem_write mem k ty rg vs = Some (r, m)" "wf_memory m"
    using store.wr_law [of mem rg k ty vs] by auto
  with writes_from write_from_eq [of mem rg k ty vs r m src] show ?case by auto
next
  case (writes_unchecked_from rg mem src k vs b mem' ev)
  then obtain r m where "write_unchecked mem k rg vs = Some (r, m)" "wf_memory m"
    using write_unchecked_total [of mem rg k vs] by blast
  with writes_unchecked_from write_unchecked_from_eq [of mem rg k vs r m src] show ?case by auto
next
  case (taps mem)
  then show ?case by (simp add: set_write_tap_def wf_memory_def)
qed

lemma store_reachable_wf: "store_reachable mem \<Longrightarrow> wf_memory mem"
  by (induction rule: store_reachable.induct) (auto intro: store_step_wf)

section \<open>Properties\<close>

text \<open>
  The store the witnesses evaluate on: device 1 with four writable registers at 0 to 3 holding
  words, declared and written through the operations themselves.
\<close>

definition demo_slices :: slicemap where
  "demo_slices = [(MkRange 0 4, \<lparr>sl_range = MkRange 0 4,
     sl_buffer = [cell_from_u16 (kind_read_write Register) 10, cell_from_u16 (kind_read_write Register) 11,
                  cell_from_u16 (kind_read_write Register) 12, cell_from_u16 (kind_read_write Register) 13]\<rparr>)]"

definition demo_at :: "'k \<Rightarrow> 'k memory" where
  "demo_at k = \<lparr>m_slices = [k \<mapsto> demo_slices], m_tap = True\<rparr>"

definition demo_memory :: "nat memory" where
  "demo_memory = \<lparr>m_slices = [1 \<mapsto> demo_slices], m_tap = True\<rparr>"

text \<open>The equations that run the store's operations on a concrete store.\<close>

lemmas store_eval =
  add_ranges_def add_range_def mem_read_def mem_write_def write_unchecked_def read_unchecked_def
  writable_def readable_def collect_words_def place_words_def walk_advance_def
  slice_from_range_def slice_write_def slice_write_unchecked_def slice_read_def
  slice_read_unchecked_def slice_writable_def slice_readable_def slice_contains_def cells_in_def
  cells_in_mut_def splice_at_def slice_index_def range_intersect_def range_new_def range_length_def
  usize_add_def usize_sub_def usize_max_def cell_zeroed_def cell_from_u16_def accepts_write_def
  accepts_read_def try_set_value_def try_value_def kind_read_write_def kind_read_def kind_write_def

lemma replicate_4: "replicate 4 x = [x, x, x, x]"
  by (simp add: numeral_eq_Suc)

lemma demo_at_reachable: "store_reachable (demo_at k)"
proof -
  let ?m = "\<lparr>m_slices = [k \<mapsto> [(MkRange 0 4, \<lparr>sl_range = MkRange 0 4,
    sl_buffer = replicate 4 (cell_zeroed (kind_read_write Register))\<rparr>)]], m_tap = False\<rparr>"
  have "add_ranges memory_default k (kind_read_write Register) [MkRange 0 4] = Some (True, ?m)"
    by (simp add: memory_default_def store_eval)
  then have 1: "store_reachable ?m"
    by (rule store_reachable.step [OF store_reachable.initial store_step.declares, rotated])
      (simp add: usize_max_def)
  have "mem_write ?m k Register (MkRange 0 4) [10, 11, 12, 13] = Some (Ok (), (demo_at k)\<lparr>m_tap := False\<rparr>)"
    by (simp add: demo_at_def demo_slices_def store_eval replicate_4)
  then have "store_reachable ((demo_at k)\<lparr>m_tap := False\<rparr>)"
    by (rule store_reachable.step [OF 1 store_step.writes, rotated]) (simp add: usize_max_def)
  from store_reachable.step [OF this store_step.taps] show ?thesis
    by (simp add: set_write_tap_def demo_at_def)
qed

lemma demo_reachable: "store_reachable demo_memory"
  using demo_at_reachable [of "1 :: nat"] by (simp add: demo_at_def demo_memory_def)

text \<open>
  C1. Declaring ranges on a reachable store never panics and does to the addresses of the device
  exactly what the specification says: the ranges, in order of their start, give new addresses
  zeroed cells of the declared kind and widen existing ones; if one is incompatible the call
  returns false and the store is the one before the call. Other devices and the tap stay as they
  were.
\<close>

theorem add_ranges_refines:
  assumes "store_reachable mem" "\<forall>r \<in> set ranges. wf_range r"
  shows "\<exists>mem'. add_ranges mem k kind ranges =
      Some (declare_ranges kind (sort_key r_start ranges) (mem_cells mem k) \<noteq> None, mem') \<and>
    m_tap mem' = m_tap mem \<and>
    (case declare_ranges kind (sort_key r_start ranges) (mem_cells mem k) of
       None \<Rightarrow> mem' = mem
     | Some sp \<Rightarrow> mem_cells mem' = (mem_cells mem)(k := sp))"
  using add_ranges_eq [OF store_reachable_wf [OF assms(1)] assms(2)] by blast

theorem add_ranges_refines_witness:
  "\<exists>mem'. add_ranges demo_memory 1 (kind_read Coil) [MkRange 2 6] = Some (False, mem') \<and> mem' = demo_memory"
proof -
  have "declare_ranges (kind_read Coil) (sort_key r_start [MkRange 2 6]) (mem_cells demo_memory 1) = None"
    by (auto simp: declare_range_def mem_cells_def demo_memory_def demo_slices_def cell_at_def widen_cell_def
        cell_from_u16_def kind_read_def kind_read_write_def intro!: bexI [of _ 2])
  then show ?thesis
    using add_ranges_refines [OF demo_reachable, of "[MkRange 2 6]" 1 "kind_read Coil"]
    by (simp add: usize_max_def)
qed

text \<open>
  C3. In every reachable store the slices of a device are in ascending key order, every slice is
  keyed by its own range and has one cell per address of it, and no two slices share an address.
\<close>

theorem slices_never_overlap:
  assumes "store_reachable mem" "m_slices mem k = Some m"
  shows "sorted_wrt (<) (map fst m) \<and>
    (\<forall>(r, s) \<in> set m. sl_range s = r \<and> r_start r \<le> r_end r \<and> length (sl_buffer s) = r_end r - r_start r) \<and>
    (\<forall>(r, s) \<in> set m. \<forall>(r', s') \<in> set m. r \<noteq> r' \<longrightarrow> addrs r \<inter> addrs r' = {})"
proof (intro conjI)
  have wf: "wf_map m" using store_reachable_wf [OF assms(1)] assms(2) by (rule wf_memoryD)
  show "sorted_wrt (<) (map fst m)" by (rule wf_map_keys_sorted [OF wf])
  show "\<forall>(r, s) \<in> set m. sl_range s = r \<and> r_start r \<le> r_end r \<and> length (sl_buffer s) = r_end r - r_start r"
    using wf_map_entry [OF wf] by (auto simp: wf_slice_def)
  show "\<forall>(r, s) \<in> set m. \<forall>(r', s') \<in> set m. r \<noteq> r' \<longrightarrow> addrs r \<inter> addrs r' = {}"
    using wf_map_disjoint [OF wf] by blast
qed

theorem slices_never_overlap_witness:
  "sorted_wrt (<) (map fst demo_slices) \<and> length (sl_buffer (snd (hd demo_slices))) = 4"
  using slices_never_overlap [OF demo_reachable, of 1 demo_slices]
  by (simp add: demo_memory_def demo_slices_def)



text \<open>
  A declaration, granted or refused, keeps every existing cell of every device: its value
  and its type stay, and the access it permits is kept or widened to both directions.
\<close>

theorem add_ranges_keeps_cells:
  assumes "store_reachable mem" "\<forall>r \<in> set ranges. wf_range r"
    and "add_ranges mem k kind ranges = Some (ok, mem')" "mem_cells mem k' a = Some c"
  shows "\<exists>c'. mem_cells mem' k' a = Some c' \<and> cell_widened c c'"
proof -
  have "mem' = mem \<or> (\<exists>sp. declare_ranges kind (sort_key r_start ranges) (mem_cells mem k) = Some sp \<and>
      mem_cells mem' = (mem_cells mem)(k := sp))"
    using add_ranges_eq [OF store_reachable_wf [OF assms(1)] assms(2), of k kind] assms(3)
    by (auto split: option.splits)
  then show ?thesis
    using assms(4) declare_ranges_widened by fastforce
qed

theorem add_ranges_keeps_cells_witness:
  "\<exists>mem' c'. add_ranges demo_memory 1 (kind_read Coil) [MkRange 3 4] = Some (False, mem') \<and>
     mem_cells mem' 1 2 = Some c' \<and> cell_widened (cell_from_u16 (kind_read_write Register) 12) c'"
proof -
  have run: "add_ranges demo_memory 1 (kind_read Coil) [MkRange 3 4] = Some (False, demo_memory)"
    by (simp add: demo_memory_def demo_slices_def store_eval widen_cell_def replicate_4)
  show ?thesis
    using add_ranges_keeps_cells [OF demo_reachable _ run, of 1 2 "cell_from_u16 (kind_read_write Register) 12"] run
    by (simp add: usize_max_def mem_cells_def demo_memory_def demo_slices_def cell_at_def)
qed

text \<open>
  A checked read answers from the cells alone: unknown key, address not readable when some
  address is missing or does not accept reads of the type, otherwise the words at exactly the
  addressed range in address order.
\<close>

theorem mem_read_exact:
  assumes "store_reachable mem" "wf_range rg"
  shows "mem_read mem k ty rg = Some
    (if \<not> contains_key mem k then Err UnknownKey
     else if \<exists>a \<in> addrs rg. \<forall>c. mem_cells mem k a = Some c \<longrightarrow> \<not> accepts_read ty c then Err AddressNotReadable
     else Ok (map (\<lambda>a. c_value (the (mem_cells mem k a))) [r_start rg ..< r_end rg]))"
  using mem_read_eq [OF store_reachable_wf [OF assms(1)] assms(2), of k ty]
  by (simp add: read_spec_def holds_on_def words_of_def addrs_def) (metis not_None_eq)

theorem mem_read_exact_witness: "mem_read demo_memory 1 Register (MkRange 1 3) = Some (Ok [11, 12])"
proof -
  have "wf_range (MkRange 1 3)" by (simp add: usize_max_def)
  from mem_read_exact [OF demo_reachable this, of 1 Register] show ?thesis
    by (auto simp: contains_key_def demo_memory_def demo_slices_def mem_cells_def cell_at_def
        cell_from_u16_def accepts_read_def kind_read_write_def upt_rec [of _ 3] nth_Cons')
qed

text \<open>
  C6. What an accepted write stores, a read of the same range returns, on every device whose
  cells there also permit reading.
\<close>

theorem write_then_read:
  assumes "store_reachable mem" "wf_range rg" "mem_write mem k ty rg vs = Some (Ok (), mem')"
    and "readable mem k ty rg = Some (Ok ())"
  shows "mem_read mem' k ty rg = Some (Ok vs)"
proof -
  note wf = store_reachable_wf [OF assms(1)]
  have "holds_on (accepts_read ty) (mem_cells mem k) rg"
    using assms(4) by (simp add: readable_eq [OF wf assms(2)] split: if_splits)
  from store.rd_after_wr [OF wf assms(2,3) this] show ?thesis .
qed

theorem write_then_read_witness:
  "\<exists>mem'. mem_write demo_memory 1 Register (MkRange 1 3) [7, 8] = Some (Ok (), mem') \<and>
     mem_read mem' 1 Register (MkRange 1 3) = Some (Ok [7, 8])"
proof -
  have wf: "wf_range (MkRange 1 3)" by (simp add: usize_max_def)
  obtain mem' where w: "mem_write demo_memory 1 Register (MkRange 1 3) [7, 8] = Some (Ok (), mem')"
    by (simp add: demo_memory_def demo_slices_def store_eval)
  moreover have "readable demo_memory 1 Register (MkRange 1 3) = Some (Ok ())"
    by (simp add: demo_memory_def demo_slices_def store_eval)
  ultimately show ?thesis using write_then_read [OF demo_reachable wf w] by blast
qed

text \<open>
  C7. A checked write touches nothing else: whatever it returns, a read of another device or of
  a range without a common address gives what it gave before, and a refused write (by length
  mismatch, unknown key or an address that does not accept it, in this order) leaves the store
  unchanged.
\<close>

theorem write_touches_nothing_else:
  assumes "store_reachable mem" "wf_range rg" "mem_write mem k ty rg vs = Some (res, mem')"
  shows "(wf_range rg' \<longrightarrow> k' \<noteq> k \<or> addrs rg' \<inter> addrs rg = {} \<longrightarrow>
      mem_read mem' k' ty' rg' = mem_read mem k' ty' rg') \<and>
    (\<forall>e. res = Err e \<longrightarrow> mem' = mem \<and>
      e = (if r_end rg - r_start rg \<noteq> length vs then LengthMismatch (r_end rg - r_start rg) (length vs)
           else if \<not> contains_key mem k then UnknownKey else AddressNotWritable))"
proof (intro conjI impI allI)
  note wf = store_reachable_wf [OF assms(1)]
  show "mem_read mem' k' ty' rg' = mem_read mem k' ty' rg'"
    if "wf_range rg'" "k' \<noteq> k \<or> addrs rg' \<inter> addrs rg = {}"
    using store.rd_other [OF wf assms(2,3) that] .
  fix e assume e: "res = Err e"
  then have spec: "write_spec (contains_key mem k) (mem_cells mem k) ty rg vs = Err e"
    using store.wr_result(3) [OF wf assms(2,3)] by simp
  show "mem' = mem" using mem_write_refused [OF wf assms(2) spec] assms(3) by simp
  show "e = (if r_end rg - r_start rg \<noteq> length vs then LengthMismatch (r_end rg - r_start rg) (length vs)
      else if \<not> contains_key mem k then UnknownKey else AddressNotWritable)"
    using spec by (auto simp: write_spec_def split: if_splits)
qed

theorem write_touches_nothing_else_witness:
  "mem_write demo_memory 1 Register (MkRange 3 6) [1, 2, 3] = Some (Err AddressNotWritable, demo_memory) \<and>
   AddressNotWritable = (if r_end (MkRange 3 6) - r_start (MkRange 3 6) \<noteq> length [1 :: u16, 2, 3]
     then LengthMismatch (r_end (MkRange 3 6) - r_start (MkRange 3 6)) (length [1 :: u16, 2, 3])
     else if \<not> contains_key demo_memory 1 then UnknownKey else AddressNotWritable)"
proof -
  have wf: "wf_range (MkRange 3 6)" by (simp add: usize_max_def)
  have run: "mem_write demo_memory 1 Register (MkRange 3 6) [1, 2, 3] = Some (Err AddressNotWritable, demo_memory)"
    by (simp add: demo_memory_def demo_slices_def store_eval)
  then show ?thesis using write_touches_nothing_else [OF demo_reachable wf run] by blast
qed

text \<open>
  A sourced write does what the plain write does and, when an observer is installed and the
  write succeeds, reports it exactly once, with the words the range held before and the words
  written; a refused write and a store without observer report nothing.
\<close>

theorem write_from_reports:
  assumes "store_reachable mem" "wf_range rg" "write_from mem src k ty rg vs = Some (res, mem', reports)"
  shows "mem_write mem k ty rg vs = Some (res, mem') \<and>
    reports = (if m_tap mem \<and> res = Ok ()
      then [\<lparr>sw_source = src, sw_id = k, sw_range = rg,
             sw_old = map (\<lambda>a. c_value (the (mem_cells mem k a))) [r_start rg ..< r_end rg], sw_new = vs\<rparr>]
      else [])"
proof -
  note wf = store_reachable_wf [OF assms(1)]
  obtain res' m where w: "mem_write mem k ty rg vs = Some (res', m)"
    using store.wr_law [OF wf assms(2), of k ty vs] by blast
  from write_from_eq [OF wf assms(2) w, of src] assms(3) w show ?thesis
    by (simp add: words_of_def)
qed

theorem write_from_reports_witness:
  "\<exists>mem' reports. write_from demo_memory Remote 1 Register (MkRange 1 3) [7, 8] = Some (Ok (), mem', reports) \<and>
     map sw_old reports = [[11, 12]] \<and> map sw_new reports = [[7, 8]]"
proof -
  have wf: "wf_range (MkRange 1 3)" by (simp add: usize_max_def)
  obtain mem' reports where w: "write_from demo_memory Remote 1 Register (MkRange 1 3) [7, 8] = Some (Ok (), mem', reports)"
    by (simp add: write_from_def demo_memory_def demo_slices_def store_eval)
  moreover have "map (\<lambda>a. c_value (the (mem_cells demo_memory 1 a))) [1 ..< 3] = [11, 12]"
    by (simp add: demo_memory_def demo_slices_def mem_cells_def cell_at_def cell_from_u16_def upt_rec [of _ 3] nth_Cons')
  ultimately show ?thesis
    using write_from_reports [OF demo_reachable wf w] by (simp add: demo_memory_def)
qed

text \<open>
  The unchecked write ignores access directions but not coverage: on a known device with
  matching length it stores the words at every address up to the first one without a cell, keeps
  everything else, and returns whether the whole range was covered. So a refused unchecked write
  over a partly covered range has still changed the covered prefix.
\<close>

theorem write_unchecked_prefix:
  assumes "store_reachable mem" "wf_range rg" "contains_key mem k" "length vs = r_end rg - r_start rg"
  shows "\<exists>mem'. write_unchecked mem k rg vs = Some (\<forall>a \<in> addrs rg. mem_cells mem k a \<noteq> None, mem') \<and>
    (\<forall>k' a. mem_cells mem' k' a =
       (if k' = k \<and> a \<in> addrs rg \<and> (\<forall>b \<in> {r_start rg .. a}. mem_cells mem k b \<noteq> None)
        then map_option (\<lambda>c. c\<lparr>c_value := vs ! (a - r_start rg)\<rparr>) (mem_cells mem k a)
        else mem_cells mem k' a))"
proof -
  obtain mem' where m: "write_unchecked mem k rg vs = Some (holds_on (\<lambda>_. True) (mem_cells mem k) rg, mem')"
      "mem_cells mem' = (mem_cells mem)(k := prefix_words rg vs (mem_cells mem k))"
    using write_unchecked_known [OF store_reachable_wf [OF assms(1)] assms(2-4)] by blast
  have iff: "holds_on (\<lambda>_. True) (mem_cells mem k) rg \<longleftrightarrow> (\<forall>a \<in> addrs rg. mem_cells mem k a \<noteq> None)"
    by (auto simp: holds_on_def addrs_def)
  have pre: "set [r_start rg ..< Suc a] = {r_start rg .. a}" for a by auto
  have "mem_cells mem' k' a =
     (if k' = k \<and> a \<in> addrs rg \<and> (\<forall>b \<in> {r_start rg .. a}. mem_cells mem k b \<noteq> None)
      then map_option (\<lambda>c. c\<lparr>c_value := vs ! (a - r_start rg)\<rparr>) (mem_cells mem k a)
      else mem_cells mem k' a)" for k' a
    unfolding m(2) prefix_words_def fun_upd_apply pre mem_addrs conj_assoc
    by (cases "k' = k") (simp_all only: simp_thms if_True if_False refl)
  then show ?thesis unfolding m(1) iff by blast
qed

theorem write_unchecked_prefix_witness:
  "\<exists>mem'. write_unchecked demo_memory 1 (MkRange 3 5) [7, 8] = Some (False, mem') \<and>
     mem_cells mem' 1 3 = Some (cell_from_u16 (kind_read_write Register) 7)"
proof -
  have wf: "wf_range (MkRange 3 5)" by (simp add: usize_max_def)
  have "contains_key demo_memory 1" by (simp add: contains_key_def demo_memory_def)
  from write_unchecked_prefix [OF demo_reachable wf this, of "[7, 8]"]
  obtain mem' where m: "write_unchecked demo_memory 1 (MkRange 3 5) [7, 8] =
        Some (\<forall>a \<in> addrs (MkRange 3 5). mem_cells demo_memory 1 a \<noteq> None, mem')"
    and at: "mem_cells mem' 1 3 = (if 1 = (1 :: nat) \<and> 3 \<in> addrs (MkRange 3 5) \<and>
        (\<forall>b \<in> {r_start (MkRange 3 5) .. 3}. mem_cells demo_memory 1 b \<noteq> None)
      then map_option (\<lambda>c. c\<lparr>c_value := [7, 8] ! (3 - r_start (MkRange 3 5))\<rparr>) (mem_cells demo_memory 1 3)
      else mem_cells demo_memory 1 3)"
    by auto
  have "mem_cells demo_memory 1 4 = None"
      "mem_cells demo_memory 1 3 = Some (cell_from_u16 (kind_read_write Register) 13)"
    by (simp_all add: demo_memory_def demo_slices_def mem_cells_def cell_at_def)
  with m at show ?thesis by (auto simp: cell_from_u16_def intro: exI [of _ 4])
qed

end
