(* ===== verification/Backoff.thy ===== *)
theory Backoff
  imports Prelude
begin

text \<open>
  The retry driver every reconnecting task shares (\<^verbatim>\<open>ferrowl-util/src/backoff.rs\<close>). The closures
  the driver awaits are its environment: a run is given the outcome of each attempt together with
  whether the wait that follows it is aborted, and is still running when they are used up. The
  waits it asks for are recorded.
\<close>

section \<open>Durations\<close>

text \<open>A duration is a number of nanoseconds, at most \<open>Duration::MAX\<close>; doubling past it panics.\<close>

type_synonym duration = nat

definition duration_max :: duration where
  "duration_max = 18446744073709551615 * 1000000000 + 999999999"

definition from_secs :: "nat \<Rightarrow> duration" where
  "from_secs s = s * 1000000000"

definition duration_twice :: "duration \<Rightarrow> duration option" where
  "duration_twice d = (if 2 * d \<le> duration_max then Some (2 * d) else None)"

record backoff_policy =
  bp_initial :: duration
  bp_max :: duration

definition backoff_policy_default :: backoff_policy where
  "backoff_policy_default = \<lparr>bp_initial = from_secs 1, bp_max = from_secs 30\<rparr>"

datatype 'e attempt_outcome =
    Done
  | Failed (ao_error: 'e) (ao_reconnect: bool) (ao_reset: bool)

section \<open>The driver\<close>

datatype 'e run_end = Returned "('e, unit) result" | Running (re_backoff: duration)

fun backoff_loop ::
  "backoff_policy \<Rightarrow> duration \<Rightarrow> ('e attempt_outcome \<times> bool) list \<Rightarrow> duration list
     \<Rightarrow> ('e run_end \<times> duration list) option"
where
  "backoff_loop p b [] waits = Some (Running b, waits)"
| "backoff_loop p b ((Done, aborted) # env) waits = Some (Returned (Ok ()), waits)"
| "backoff_loop p b ((Failed e reconnect reset, aborted) # env) waits =
     (if \<not> reconnect then Some (Returned (Err e), waits)
      else let b' = (if reset then bp_initial p else b) in
        if aborted then Some (Returned (Ok ()), waits @ [b'])
        else do {
          d \<leftarrow> duration_twice b';
          backoff_loop p (min d (bp_max p)) env (waits @ [b'])
        })"

definition run_with_backoff ::
  "backoff_policy \<Rightarrow> ('e attempt_outcome \<times> bool) list \<Rightarrow> ('e run_end \<times> duration list) option"
where
  "run_with_backoff p env = backoff_loop p (bp_initial p) env []"

text \<open>
  The same loop with the closures as functions on a task's state, as its callers pass them: what
  the environment supplies to each attempt and to the wait after it is a list of inputs.
\<close>

fun backoff_run ::
  "backoff_policy \<Rightarrow> ('i \<Rightarrow> 's \<Rightarrow> ('e attempt_outcome \<times> 's) option)
     \<Rightarrow> ('w \<Rightarrow> duration \<Rightarrow> 's \<Rightarrow> bool \<times> 's) \<Rightarrow> duration \<Rightarrow> ('i \<times> 'w) list \<Rightarrow> 's
     \<Rightarrow> ('e run_end \<times> 's) option"
where
  "backoff_run p attempt wait b [] s = Some (Running b, s)"
| "backoff_run p attempt wait b ((i, w) # env) s = do {
     (out, s1) \<leftarrow> attempt i s;
     (case out of
        Done \<Rightarrow> Some (Returned (Ok ()), s1)
      | Failed e reconnect reset \<Rightarrow>
          if \<not> reconnect then Some (Returned (Err e), s1)
          else let b' = (if reset then bp_initial p else b); (aborted, s2) = wait w b' s1 in
            if aborted then Some (Returned (Ok ()), s2)
            else do {
              d \<leftarrow> duration_twice b';
              backoff_run p attempt wait (min d (bp_max p)) env s2
            })
   }"

section \<open>The interruptible wait\<close>

text \<open>
  One wait: the channel delivers commands (or reports that it is closed, \<open>None\<close>) at given times,
  and each round of the loop takes the next of them or the deadline, whichever is first; when both
  are ready at once either may be taken (\<open>tie\<close> chooses the timer). The result is whether the wait
  was ended early, when it ended, and the lines logged.
\<close>

fun wait_loop ::
  "nat \<Rightarrow> ('c \<Rightarrow> bool) \<Rightarrow> string \<Rightarrow> bool \<Rightarrow> nat \<Rightarrow> (nat \<times> 'c option) list \<Rightarrow> string list
     \<Rightarrow> bool \<times> nat \<times> string list"
where
  "wait_loop deadline is_terminate msg tie now [] log = (False, deadline, log)"
| "wait_loop deadline is_terminate msg tie now ((t, ev) # evs) log =
     (let ready = max now t in
      if deadline < ready \<or> (deadline = ready \<and> tie) then (False, deadline, log)
      else case ev of
        None \<Rightarrow> (True, ready, log)
      | Some c \<Rightarrow>
          if is_terminate c then (True, ready, log)
          else wait_loop deadline is_terminate msg tie ready evs (log @ [msg]))"

definition wait_backoff ::
  "nat \<Rightarrow> duration \<Rightarrow> string \<Rightarrow> ('c \<Rightarrow> bool) \<Rightarrow> bool \<Rightarrow> (nat \<times> 'c option) list \<Rightarrow> bool \<times> nat \<times> string list"
where
  "wait_backoff now backoff msg is_terminate tie evs =
     wait_loop (now + backoff) is_terminate msg tie now evs []"

section \<open>Properties\<close>

text \<open>A policy that can be doubled and starts below its cap, as the default one does.\<close>

definition sane_policy :: "backoff_policy \<Rightarrow> bool" where
  "sane_policy p \<longleftrightarrow> bp_initial p \<le> bp_max p \<and> 2 * bp_max p \<le> duration_max"

lemma sane_policy_default: "sane_policy backoff_policy_default"
  by (simp add: sane_policy_def backoff_policy_default_def from_secs_def duration_max_def)

lemma duration_twice_Some [panic_free]: "2 * d \<le> duration_max \<Longrightarrow> duration_twice d = Some (2 * d)"
  by (simp add: duration_twice_def)

lemma pow_cap: "min (2 * min (a * 2 ^ k) m) m = min (a * 2 ^ Suc k) (m :: nat)"
  by (auto simp: min_def)

lemma backoff_loop_total:
  assumes "sane_policy p" "b \<le> bp_max p"
  shows "\<exists>res ws. backoff_loop p b env waits = Some (res, waits @ ws) \<and> (\<forall>w \<in> set ws. w \<le> bp_max p)"
  using assms
proof (induction p b env waits rule: backoff_loop.induct)
  case (3 p b e reconnect reset aborted env waits)
  let ?b = "if reset then bp_initial p else b"
  have b: "?b \<le> bp_max p" "2 * ?b \<le> duration_max"
    using 3(2,3) by (auto simp: sane_policy_def)
  show ?case
  proof (cases "reconnect \<and> \<not> aborted")
    case True
    then obtain res ws where "backoff_loop p (min (2 * ?b) (bp_max p)) env (waits @ [?b]) =
        Some (res, (waits @ [?b]) @ ws)" "\<forall>w \<in> set ws. w \<le> bp_max p"
      using 3(1) [of ?b "2 * ?b"] 3(2) b by (auto simp: panic_free)
    with True b show ?thesis
      by (intro exI [of _ res] exI [of _ "?b # ws"]) (simp add: panic_free Let_def)
  next
    case False
    with b show ?thesis by (auto simp: Let_def)
  qed
qed auto

text \<open>
  With a policy that starts at or below its cap, a retry run never panics and no wait it asks
  for exceeds the cap, whatever the outcomes of the attempts.
\<close>

theorem backoff_waits_bounded:
  assumes "sane_policy p"
  shows "\<exists>res waits. run_with_backoff p env = Some (res, waits) \<and> (\<forall>w \<in> set waits. w \<le> bp_max p)"
  using backoff_loop_total [of p "bp_initial p" env "[]"] assms
  by (auto simp: run_with_backoff_def sane_policy_def)

theorem backoff_waits_bounded_witness:
  "\<exists>res waits. run_with_backoff backoff_policy_default (replicate 6 (Failed () True False, False)) = Some (res, waits) \<and>
     (\<forall>w \<in> set waits. w \<le> from_secs 30)"
  using backoff_waits_bounded [OF sane_policy_default, of "replicate 6 (Failed () True False, False)"]
  by (simp add: backoff_policy_default_def)

text \<open>Failures that do not reset keep doubling.\<close>

lemma backoff_loop_doubles:
  assumes "sane_policy p"
  shows "backoff_loop p (min (bp_initial p * 2 ^ k) (bp_max p)) (replicate n (Failed e True False, False)) waits =
    Some (Running (min (bp_initial p * 2 ^ (k + n)) (bp_max p)),
      waits @ map (\<lambda>i. min (bp_initial p * 2 ^ (k + i)) (bp_max p)) [0 ..< n])"
proof (induction n arbitrary: k waits)
  case (Suc n)
  let ?w = "\<lambda>i. min (bp_initial p * 2 ^ i) (bp_max p)"
  have d: "duration_twice (?w k) = Some (2 * ?w k)"
    using assms by (auto simp: panic_free sane_policy_def)
  have "map (\<lambda>i. ?w (k + i)) [0 ..< Suc n] = ?w k # map (\<lambda>i. ?w (Suc k + i)) [0 ..< n]"
    by (subst upt_conv_Cons) (simp_all add: map_Suc_upt [symmetric] del: upt_Suc)
  with d Suc.IH [of "Suc k" "waits @ [?w k]"] show ?case
    by (simp add: Let_def pow_cap [simplified] del: upt_Suc)
qed simp

text \<open>
  Consecutive failures with nothing useful in between are followed by waits that start at the
  initial one, double each time and stop at the cap.
\<close>

theorem backoff_waits_double:
  assumes "sane_policy p"
  shows "run_with_backoff p (replicate n (Failed e True False, False)) =
    Some (Running (min (bp_initial p * 2 ^ n) (bp_max p)),
      map (\<lambda>i. min (bp_initial p * 2 ^ i) (bp_max p)) [0 ..< n])"
  using backoff_loop_doubles [OF assms, of 0 n e "[]"] assms
  by (simp add: run_with_backoff_def sane_policy_def min_absorb1)

theorem backoff_waits_double_witness:
  "run_with_backoff backoff_policy_default (replicate 3 (Failed () True False, False)) =
     Some (Running (min (bp_initial backoff_policy_default * 2 ^ 3) (bp_max backoff_policy_default)),
       map (\<lambda>i. min (bp_initial backoff_policy_default * 2 ^ i) (bp_max backoff_policy_default)) [0 ..< 3])"
  by (rule backoff_waits_double [OF sane_policy_default])

text \<open>What ends a run: an attempt that is done, one that must not reconnect, an aborted wait.\<close>

fun decides :: "'e attempt_outcome \<times> bool \<Rightarrow> ('e, unit) result option" where
  "decides (Done, _) = Some (Ok ())"
| "decides (Failed e reconnect _, aborted) =
     (if \<not> reconnect then Some (Err e) else if aborted then Some (Ok ()) else None)"

lemma backoff_loop_end:
  assumes "sane_policy p" "b \<le> bp_max p" "backoff_loop p b env waits = Some (res, ws)"
  shows "(case List.find (\<lambda>x. decides x \<noteq> None) env of
            Some x \<Rightarrow> res = Returned (the (decides x))
          | None \<Rightarrow> \<exists>d \<le> bp_max p. res = Running d)"
  using assms
proof (induction p b env waits rule: backoff_loop.induct)
  case (3 p b e reconnect reset aborted env waits)
  let ?b = "if reset then bp_initial p else b"
  have b: "?b \<le> bp_max p" "2 * ?b \<le> duration_max"
    using 3(2,3) by (auto simp: sane_policy_def)
  show ?case
  proof (cases "reconnect \<and> \<not> aborted")
    case True
    then have "backoff_loop p (min (2 * ?b) (bp_max p)) env (waits @ [?b]) = Some (res, ws)"
      using 3(4) b by (simp add: Let_def panic_free)
    with 3(1) [of ?b "2 * ?b"] True 3(2) b show ?thesis by (simp add: panic_free)
  next
    case False
    with 3(4) show ?thesis by (auto simp: Let_def split: if_splits)
  qed
qed auto

text \<open>
  C10. A retry run returns as soon as one of its attempts is done, one fails without permission
  to reconnect, or one of its waits is aborted, with the outcome of the first such event; until
  then it keeps running.
\<close>

theorem backoff_run_ends:
  assumes "sane_policy p" "run_with_backoff p env = Some (res, waits)"
  shows "case List.find (\<lambda>x. decides x \<noteq> None) env of
           Some x \<Rightarrow> res = Returned (the (decides x))
         | None \<Rightarrow> \<exists>d \<le> bp_max p. res = Running d"
  using backoff_loop_end [OF assms(1), of "bp_initial p" env "[]" res waits] assms
  by (simp add: run_with_backoff_def sane_policy_def)

theorem backoff_run_ends_witness:
  "\<exists>waits. run_with_backoff backoff_policy_default [(Failed 1 True True, False), (Failed (2 :: nat) False False, False), (Done, False)] =
     Some (Returned (Err 2), waits)"
proof -
  have run: "run_with_backoff backoff_policy_default
      [(Failed 1 True True, False), (Failed (2 :: nat) False False, False), (Done, False)] =
      Some (Returned (Err 2), [from_secs 1])"
    by (simp add: run_with_backoff_def backoff_policy_default_def duration_twice_def from_secs_def duration_max_def)
  from backoff_run_ends [OF sane_policy_default run] run show ?thesis by simp
qed

text \<open>Facts about a run with state: it follows the plain driver and keeps what its closures keep.\<close>

lemma backoff_run_follows:
  "backoff_run p attempt wait b env s = Some (r, s') \<Longrightarrow>
     \<exists>outs ws. backoff_loop p b outs waits = Some (r, waits @ ws) \<and> length outs \<le> length env"
proof (induction p attempt wait b env s arbitrary: waits rule: backoff_run.induct)
  case (1 p attempt wait b s)
  then show ?case by (intro exI [of _ "[]"]) simp
next
  case (2 p attempt wait b i w env s)
  obtain out s1 where att: "attempt i s = Some (out, s1)"
    using 2(2) by (cases "attempt i s") auto
  show ?case
  proof (cases out)
    case Done
    then show ?thesis using 2(2) att by (intro exI [of _ "[(Done, False)]"] exI [of _ "[]"]) simp
  next
    case (Failed e reconnect reset)
    let ?b = "if reset then bp_initial p else b"
    obtain aborted s2 where w: "wait w ?b s1 = (aborted, s2)" by (cases "wait w ?b s1") simp
    show ?thesis
    proof (cases "reconnect \<and> \<not> aborted")
      case True
      then obtain d where d: "duration_twice ?b = Some d"
          "backoff_run p attempt wait (min d (bp_max p)) env s2 = Some (r, s')"
        using 2(2) att Failed w by (auto simp: bind_eq_Some_conv)
      obtain outs ws where "backoff_loop p (min d (bp_max p)) outs (waits @ [?b]) = Some (r, (waits @ [?b]) @ ws)"
          "length outs \<le> length env"
        using 2(1) [OF att refl Failed _ refl w [symmetric] refl, of d "waits @ [?b]"] True d w by auto
      then show ?thesis using Failed True d
        by (intro exI [of _ "(out, False) # outs"] exI [of _ "?b # ws"]) (simp add: Let_def)
    next
      case False
      then show ?thesis using 2(2) att Failed w
        by (intro exI [of _ "[(out, True)]"] exI [of _ "if reconnect then [?b] else []"])
          (auto simp: Let_def)
    qed
  qed
qed

lemma backoff_run_keeps:
  assumes att: "\<And>i w s out s'. (i, w) \<in> set env \<Longrightarrow> Q s \<Longrightarrow> attempt i s = Some (out, s') \<Longrightarrow> Q s'"
    and wt: "\<And>i w d s a s'. (i, w) \<in> set env \<Longrightarrow> Q s \<Longrightarrow> wait w d s = (a, s') \<Longrightarrow> Q s'"
    and run: "backoff_run p attempt wait b env s = Some (r, s')" "Q s"
  shows "Q s'"
  using assms
proof (induction env arbitrary: b s)
  case (Cons x env)
  obtain i w where x: "x = (i, w)" by (cases x)
  obtain out s1 where att1: "attempt i s = Some (out, s1)"
    using Cons.prems(3) x by (cases "attempt i s") auto
  have q1: "Q s1" using Cons.prems(1) [of i w] Cons.prems(4) att1 x by simp
  have IH: "backoff_run p attempt wait b' env t = Some (r, s') \<Longrightarrow> Q t \<Longrightarrow> Q s'" for b' t
    using Cons.IH [of b' t] Cons.prems(1,2) by (meson list.set_intros(2))
  show ?case
  proof (cases out)
    case Done
    then show ?thesis using Cons.prems(3) x att1 q1 by simp
  next
    case (Failed e reconnect reset)
    let ?b = "if reset then bp_initial p else b"
    obtain aborted s2 where w: "wait w ?b s1 = (aborted, s2)" by (cases "wait w ?b s1") simp
    have q2: "Q s2" using Cons.prems(2) [of i w] q1 w x by simp
    show ?thesis using Cons.prems(3) x att1 Failed w q1 q2 IH
      by (auto simp: bind_eq_Some_conv split: if_splits)
  qed
qed simp

lemma backoff_run_returned:
  assumes over: "\<And>i s s'. attempt i s = Some (Done, s') \<Longrightarrow> Q s'"
    and gone: "\<And>i s e reset s'. attempt i s = Some (Failed e False reset, s') \<Longrightarrow> Q s'"
    and aborted: "\<And>w d s s'. wait w d s = (True, s') \<Longrightarrow> Q s'"
    and run: "backoff_run p attempt wait b env s = Some (Returned x, s')"
  shows "Q s'"
  using run
proof (induction env arbitrary: b s)
  case (Cons y env)
  obtain i w where y: "y = (i, w)" by (cases y)
  obtain out s1 where att: "attempt i s = Some (out, s1)"
    using Cons.prems y by (cases "attempt i s") auto
  show ?case
  proof (cases out)
    case Done
    then show ?thesis using Cons.prems y att over by simp
  next
    case (Failed e reconnect reset)
    obtain a s2 where w: "wait w (if reset then bp_initial p else b) s1 = (a, s2)"
      by (cases "wait w (if reset then bp_initial p else b) s1")
    show ?thesis
    proof (cases "reconnect \<and> \<not> a")
      case True
      then show ?thesis using Cons.prems Cons.IH y att Failed w by (auto simp: bind_eq_Some_conv)
    next
      case False
      then show ?thesis using Cons.prems y att Failed w gone [of i s e reset s1] aborted
        by (cases reconnect) auto
    qed
  qed
qed simp

text \<open>The wait against its deadline.\<close>

lemma wait_loop_ends:
  assumes "now \<le> deadline" "wait_loop deadline is_terminate msg tie now evs log = (early, at, log')"
  shows "at \<le> deadline \<and> (\<not> early \<longrightarrow> at = deadline) \<and>
    (\<exists>n. n \<le> length evs \<and> log' = log @ replicate n msg)"
  using assms
proof (induction deadline is_terminate msg tie now evs log rule: wait_loop.induct)
  case (2 deadline is_terminate msg tie now t ev evs log)
  show ?case
  proof (cases "\<exists>c. ev = Some c \<and> \<not> is_terminate c \<and> \<not> (deadline < max now t \<or> deadline = max now t \<and> tie)")
    case True
    then obtain c where c: "ev = Some c" "\<not> is_terminate c"
        "\<not> (deadline < max now t \<or> deadline = max now t \<and> tie)" by blast
    then have le: "max now t \<le> deadline" by linarith
    from c have "wait_loop deadline is_terminate msg tie (max now t) evs (log @ [msg]) = (early, at, log')"
      using 2(3) by (simp add: Let_def split: if_splits)
    with le c have "at \<le> deadline \<and> (\<not> early \<longrightarrow> at = deadline) \<and>
        (\<exists>n \<le> length evs. log' = (log @ [msg]) @ replicate n msg)"
      using 2(1) [OF refl c(3) c(1,2)] by blast
    then obtain n where "at \<le> deadline \<and> (\<not> early \<longrightarrow> at = deadline)" "n \<le> length evs"
        "log' = log @ replicate (Suc n) msg" by auto
    then show ?thesis by (auto simp del: replicate_Suc intro!: exI [of _ "Suc n"])
  next
    case False
    with 2(2,3) show ?thesis
      by (auto simp: Let_def intro!: exI [of _ "0 :: nat"] split: if_splits option.splits)
  qed
qed auto

text \<open>
  A backoff wait never outlasts its window: however many other commands arrive, each is
  dropped with one log line and the wait ends at the deadline set when it began, or earlier on a
  terminating command or a closed channel.
\<close>

theorem wait_backoff_deadline:
  assumes "wait_backoff now backoff msg is_terminate tie evs = (early, at, log)"
  shows "at \<le> now + backoff \<and> (\<not> early \<longrightarrow> at = now + backoff) \<and>
    (\<exists>n \<le> length evs. log = replicate n msg)"
  using wait_loop_ends [of now "now + backoff" is_terminate msg tie evs "[]" early at log] assms
  by (simp add: wait_backoff_def)

theorem wait_backoff_deadline_witness:
  "\<exists>early at log. wait_backoff 0 10 ''x'' (\<lambda>c. c = (0 :: nat)) False [(1, Some 5), (2, Some 6), (9, Some 0)] = (early, at, log) \<and>
     at \<le> 0 + 10 \<and> log = [''x'', ''x'']"
proof -
  have run: "wait_backoff 0 10 ''x'' (\<lambda>c. c = (0 :: nat)) False [(1, Some 5), (2, Some 6), (9, Some 0)] =
      (True, 9, [''x'', ''x''])"
    by (simp add: wait_backoff_def)
  from wait_backoff_deadline [OF run] run show ?thesis by auto
qed

end
