(* ===== verification/Modbus_Types.thy ===== *)
theory Modbus_Types
  imports Codec_Format Store_Properties Backoff
begin

text \<open>
  The vocabulary the Modbus tasks share: the protocol library's requests, responses, function and
  exception codes as far as the program names their variants (\<open>Other\<close> stands for the rest), the
  memory keys of \<^verbatim>\<open>ferrowl-modbus/src/key.rs\<close>, errors (\<^verbatim>\<open>error.rs\<close>), commands
  (\<^verbatim>\<open>command.rs\<close>), operations (\<^verbatim>\<open>operation.rs\<close>), log lines (\<^verbatim>\<open>log.rs\<close>), the connection flag
  (\<^verbatim>\<open>conn_state.rs\<close>), the late-bound path check (\<^verbatim>\<open>path_conflict.rs\<close>) and the helpers of
  \<^verbatim>\<open>common.rs\<close>.
\<close>

section \<open>The protocol library's data\<close>

type_synonym unit_id = u8

datatype 'o function_code =
    FC_ReadCoils | FC_ReadDiscreteInputs | FC_ReadHoldingRegisters | FC_ReadInputRegisters
  | FC_WriteSingleCoil | FC_WriteSingleRegister | FC_WriteMultipleCoils | FC_WriteMultipleRegisters
  | FC_ReadWriteMultipleRegisters
  | FC_Other 'o

datatype 'o exception_code =
    IllegalFunction | IllegalDataAddress | IllegalDataValue
  | GatewayPathUnavailable | GatewayTargetDeviceFailedToRespond
  | EC_Other 'o

datatype 'o request_pdu =
    RqReadCoils u16 u16
  | RqReadDiscreteInputs u16 u16
  | RqReadHoldingRegisters u16 u16
  | RqReadInputRegisters u16 u16
  | RqWriteSingleCoil u16 bool
  | RqWriteSingleRegister u16 u16
  | RqWriteMultipleCoils u16 "bool list"
  | RqWriteMultipleRegisters u16 "u16 list"
  | RqReadWriteMultipleRegisters u16 u16 u16 "u16 list"
  | RqOther 'o

datatype 'o response_pdu =
    RsReadCoils "bool list"
  | RsReadDiscreteInputs "bool list"
  | RsReadHoldingRegisters "u16 list"
  | RsReadInputRegisters "u16 list"
  | RsWriteSingleCoil u16 bool
  | RsWriteSingleRegister u16 u16
  | RsWriteMultipleCoils u16 u16
  | RsWriteMultipleRegisters u16 u16
  | RsReadWriteMultipleRegisters "u16 list"
  | RsException "'o function_code" "'o exception_code"
  | RsOther 'o

text \<open>
  The library's error: a device's refusal, an end of file, a failed TLS handshake with its cause
  and the certificate the peer offered, or anything else.
\<close>

datatype ('o, 'e) rmb_error =
    RmbException "'o exception_code"
  | RmbUnexpectedEof
  | RmbTlsHandshake 'e "u8 list option"
  | RmbOther 'e

section \<open>Memory keys (key.rs)\<close>

datatype 't key = Key (key_id: 't)

record slave_key =
  sk_slave_id :: unit_id
  sk_kind :: Codec_Format.reg_kind

definition slave_key_default :: slave_key where
  "slave_key_default = \<lparr>sk_slave_id = 1, sk_kind = HoldingRegister\<rparr>"

fun kind_of_fn :: "'o function_code \<Rightarrow> Codec_Format.reg_kind" where
  "kind_of_fn FC_ReadCoils = KCoil"
| "kind_of_fn FC_WriteSingleCoil = KCoil"
| "kind_of_fn FC_WriteMultipleCoils = KCoil"
| "kind_of_fn FC_ReadDiscreteInputs = DiscreteInput"
| "kind_of_fn FC_ReadHoldingRegisters = HoldingRegister"
| "kind_of_fn FC_WriteSingleRegister = HoldingRegister"
| "kind_of_fn FC_WriteMultipleRegisters = HoldingRegister"
| "kind_of_fn FC_ReadInputRegisters = InputRegister"
| "kind_of_fn _ = HoldingRegister"

definition from_slave_fn :: "unit_id \<Rightarrow> 'o function_code \<Rightarrow> slave_key" where
  "from_slave_fn slave fc = \<lparr>sk_slave_id = slave, sk_kind = kind_of_fn fc\<rparr>"

definition all_kinds_for :: "unit_id \<Rightarrow> slave_key list" where
  "all_kinds_for slave =
     map (\<lambda>k. \<lparr>sk_slave_id = slave, sk_kind = k\<rparr>) [KCoil, DiscreteInput, HoldingRegister, InputRegister]"

text \<open>
  The trait \<open>KeyParams\<close> as an interface: a keying scheme derives a key from a slave id and a
  function code, lists every key it can produce for a slave id, and keeps slave ids apart.
\<close>

locale key_params =
  fixes slave_fn :: "unit_id \<Rightarrow> 'o function_code \<Rightarrow> 't"
    and all_kinds :: "unit_id \<Rightarrow> 't list"
  assumes listed: "slave_fn s fc \<in> set (all_kinds s)"
    and separate: "s \<noteq> s' \<Longrightarrow> set (all_kinds s) \<inter> set (all_kinds s') = {}"
begin

lemma slave_fn_inj: "s \<noteq> s' \<Longrightarrow> slave_fn s fc \<noteq> slave_fn s' fc'"
  using listed separate by (metis disjoint_iff)

lemma other_slave_key: "s \<noteq> s' \<Longrightarrow> k \<in> set (all_kinds s') \<Longrightarrow> Key (slave_fn s fc) \<noteq> Key k"
  using listed separate by (metis disjoint_iff key.inject)

end

interpretation sk: key_params from_slave_fn all_kinds_for
proof
  show "from_slave_fn s fc \<in> set (all_kinds_for s)" for s and fc :: "'o function_code"
    by (cases "kind_of_fn fc") (simp_all add: from_slave_fn_def all_kinds_for_def)
  show "s \<noteq> s' \<Longrightarrow> set (all_kinds_for s) \<inter> set (all_kinds_for s') = {}" for s s'
    by (auto simp: all_kinds_for_def)
qed

section \<open>Errors, commands, operations\<close>

datatype ('o, 'e) modbus_error =
    MbException "'o exception_code"
  | MbError "('o, 'e) rmb_error"
  | MbTimeout

datatype ('o, 'e) serial_error = SerialErr "('o, 'e) rmb_error" | SerialConfiguration string

text \<open>Errors of the TLS layer are its own affair; the tasks only pass them on.\<close>

datatype ('o, 'e) tcp_error = TcpAddress | TcpConfiguration string | TcpTls 'e | TcpErr "('o, 'e) rmb_error" | TcpTimeout

datatype ('o, 'e) mb_err =
    ErrModbus "('o, 'e) modbus_error"
  | ErrSerial "('o, 'e) serial_error"
  | ErrTcp "('o, 'e) tcp_error"
  | ErrServer "('o, 'e) rmb_error"
  | ErrPathConflict string string

datatype command =
    Terminate
  | WriteSingleCoil unit_id u16 bool
  | WriteMultipleCoils unit_id u16 "bool list"
  | WriteSingleRegister unit_id u16 u16
  | WriteMultipleRegister unit_id u16 "u16 list"

datatype server_command = ServerTerminate

record 'o operation =
  op_slave_id :: unit_id
  op_fn_code :: "'o function_code"
  op_range :: range

datatype level = Info | Warning | Error

type_synonym 'm log = "(level \<times> 'm) list"

section \<open>Shared cells\<close>

text \<open>\<open>ConnectedCell\<close> is a flag; \<open>PathConflictCell\<close> an optional checker, absent by default.\<close>

type_synonym connected_cell = bool

definition connected_default :: connected_cell where
  "connected_default = False"

type_synonym path_conflict_cell = "(string \<Rightarrow> string option) option"

definition path_conflict_set ::
  "(string \<Rightarrow> string option) \<Rightarrow> path_conflict_cell \<Rightarrow> path_conflict_cell"
where
  "path_conflict_set chk cell = Some chk"

definition path_conflict_check :: "path_conflict_cell \<Rightarrow> string \<Rightarrow> string option" where
  "path_conflict_check cell path = Option.bind cell (\<lambda>f. f path)"

section \<open>Serial parameters (common.rs)\<close>

datatype data_bits = Five | Six | Seven | Eight

datatype stop_bits = One | Two

datatype parity = Odd | Even | NoParity

record serial_config =
  sc_baud_rate :: u32
  sc_data_bits :: data_bits
  sc_stop_bits :: stop_bits
  sc_parity :: parity

definition lower_char :: "char \<Rightarrow> char" where
  "lower_char c =
     (let n = of_char c :: nat in if 65 \<le> n \<and> n \<le> 90 then char_of (n + 32) else c)"

text \<open>
  The library's default configuration is a parameter. The parity word is lowered as ASCII; other
  letters cannot make it one of the three words.
\<close>

definition serial_config_from ::
  "serial_config \<Rightarrow> u32 \<Rightarrow> u8 option \<Rightarrow> u8 option \<Rightarrow> string option
     \<Rightarrow> (('o, 'e) serial_error, serial_config) result"
where
  "serial_config_from defaults baud data stop par =
     (let c0 = defaults\<lparr>sc_baud_rate := baud\<rparr> in
      case (case data of
              None \<Rightarrow> Ok c0
            | Some v \<Rightarrow>
                if v = 5 then Ok (c0\<lparr>sc_data_bits := Five\<rparr>)
                else if v = 6 then Ok (c0\<lparr>sc_data_bits := Six\<rparr>)
                else if v = 7 then Ok (c0\<lparr>sc_data_bits := Seven\<rparr>)
                else if v = 8 then Ok (c0\<lparr>sc_data_bits := Eight\<rparr>)
                else Err (SerialConfiguration ''Invalid data bits specified'')) of
        Err e \<Rightarrow> Err e
      | Ok c1 \<Rightarrow>
          (case (case stop of
                   None \<Rightarrow> Ok c1
                 | Some v \<Rightarrow>
                     if v = 1 then Ok (c1\<lparr>sc_stop_bits := One\<rparr>)
                     else if v = 2 then Ok (c1\<lparr>sc_stop_bits := Two\<rparr>)
                     else Err (SerialConfiguration ''Invalid stop bits specified'')) of
             Err e \<Rightarrow> Err e
           | Ok c2 \<Rightarrow>
               (case par of
                  None \<Rightarrow> Ok c2
                | Some v \<Rightarrow>
                    let w = map lower_char v in
                    if w = ''odd'' then Ok (c2\<lparr>sc_parity := Odd\<rparr>)
                    else if w = ''even'' then Ok (c2\<lparr>sc_parity := Even\<rparr>)
                    else if w = ''none'' then Ok (c2\<lparr>sc_parity := NoParity\<rparr>)
                    else Err (SerialConfiguration ''Invalid parity specified''))))"

section \<open>Racing an attempt against commands (common.rs)\<close>

text \<open>
  What the channel and the raced future do, in the order the \<open>select!\<close> takes them: a command, the
  closed channel, or the future's output. A race still going when the events are used up is
  \<open>None\<close>.
\<close>

datatype ('c, 'a) race_event = RaceCommand 'c | RaceClosed | RaceReady 'a

fun race_terminate ::
  "('c \<Rightarrow> bool) \<Rightarrow> ('c, 'a) race_event list \<Rightarrow> 'c list \<Rightarrow> ('a option \<times> 'c list) option"
where
  "race_terminate is_term [] parked = None"
| "race_terminate is_term (RaceReady a # evs) parked = Some (Some a, parked)"
| "race_terminate is_term (RaceClosed # evs) parked = Some (None, parked)"
| "race_terminate is_term (RaceCommand c # evs) parked =
     (if is_term c then Some (None, parked) else race_terminate is_term evs (parked @ [c]))"

text \<open>
  A command channel with a queue in front; \<open>recv\<close> gives the next command and what is left. The
  channel is the list of what it will deliver; \<open>None\<close> is the closed channel.
\<close>

record 'c commands =
  cm_queued :: "'c list"
  cm_channel :: "'c list"

definition commands_new :: "'c list \<Rightarrow> 'c list \<Rightarrow> 'c commands" where
  "commands_new channel queued = \<lparr>cm_queued = queued, cm_channel = channel\<rparr>"

definition commands_recv :: "'c commands \<Rightarrow> 'c option \<times> 'c commands" where
  "commands_recv cs =
     (case cm_queued cs of
        c # q \<Rightarrow> (Some c, cs\<lparr>cm_queued := q\<rparr>)
      | [] \<Rightarrow>
          (case cm_channel cs of
             c # ch \<Rightarrow> (Some c, cs\<lparr>cm_channel := ch\<rparr>)
           | [] \<Rightarrow> (None, cs)))"

end
