(* ===== verification/Modbus_Server.thy ===== *)
theory Modbus_Server
  imports Modbus_Types
begin

text \<open>
  The request handlers of the Modbus server (\<^verbatim>\<open>ferrowl-modbus/src/server_core.rs\<close>): each takes the
  store and returns the answer, the store after it, the reports to the store's write observer and
  the log lines, in order. A panic of the store is \<open>None\<close>. The keying scheme is an argument, as
  the type parameter \<open>T: KeyParams\<close> is.
\<close>

section \<open>Log lines\<close>

text \<open>One constructor per format string; the arguments are the interpolated values.\<close>

datatype single_value = WordValue u16 | CoilValue bool

datatype 'o server_line =
    ReadReceived string unit_id u16 usize
  | ReadSuccessful string unit_id u16 usize
  | ReadFailed string unit_id u16 usize memory_error
  | WriteReceived string unit_id u16 usize "u16 list"
  | WriteSuccessful string unit_id u16 usize "u16 list"
  | WriteFailed string unit_id u16 usize "u16 list" memory_error
  | SingleReceived string unit_id u16 single_value
  | SingleSuccessful string unit_id u16 single_value
  | SingleFailed string unit_id u16 single_value memory_error
  | ReadWriteReceived unit_id u16 u16 u16 "u16 list"
  | ReadWriteSuccessful unit_id u16 u16 u16 "u16 list"
  | ReadWriteFailed unit_id u16 u16 u16 "u16 list" memory_error
  | UnsupportedFunction "'o function_code" unit_id

section \<open>The three shared bodies\<close>

definition handle_read ::
  "(unit_id \<Rightarrow> 'o function_code \<Rightarrow> 't) \<Rightarrow> string \<Rightarrow> unit_id \<Rightarrow> 'o function_code \<Rightarrow> cell_type
     \<Rightarrow> u16 \<Rightarrow> u16 \<Rightarrow> 't key memory \<Rightarrow> bool
     \<Rightarrow> (('o exception_code, u16 list) result \<times> 'o server_line log) option"
where
  "handle_read keyf name slave fc cell addr cnt mem verbose = do {
     e \<leftarrow> usize_add (unat addr) (unat cnt);
     rg \<leftarrow> range_new (unat addr) (unat cnt);
     res \<leftarrow> mem_read mem (Key (keyf slave fc)) cell rg;
     let received = (Info, ReadReceived name slave addr e);
     Some (case res of
        Ok v \<Rightarrow> (Ok v, received # (if verbose then [(Info, ReadSuccessful name slave addr e)] else []))
      | Err err \<Rightarrow>
          (Err IllegalDataAddress,
           received # (if verbose then [(Warning, ReadFailed name slave addr e err)] else [])))
   }"

definition handle_write_multi ::
  "(unit_id \<Rightarrow> 'o function_code \<Rightarrow> 't) \<Rightarrow> string \<Rightarrow> unit_id \<Rightarrow> 'o function_code \<Rightarrow> cell_type
     \<Rightarrow> u16 \<Rightarrow> u16 list \<Rightarrow> 't key memory \<Rightarrow> bool
     \<Rightarrow> (('o exception_code, u16) result \<times> 't key memory \<times> 't key store_write list
          \<times> 'o server_line log) option"
where
  "handle_write_multi keyf name slave fc cell addr vs mem verbose = do {
     e \<leftarrow> usize_add (unat addr) (length vs);
     rg \<leftarrow> range_new (unat addr) (length vs);
     (res, mem', reports) \<leftarrow> write_from mem Remote (Key (keyf slave fc)) cell rg vs;
     let received = (Info, WriteReceived name slave addr e vs);
     Some (case res of
        Ok _ \<Rightarrow>
          (Ok (of_nat (length vs)), mem', reports,
           received # (if verbose then [(Info, WriteSuccessful name slave addr e vs)] else []))
      | Err err \<Rightarrow>
          (Err IllegalDataAddress, mem', reports,
           received # (if verbose then [(Warning, WriteFailed name slave addr e vs err)] else [])))
   }"

definition handle_write_single ::
  "(unit_id \<Rightarrow> 'o function_code \<Rightarrow> 't) \<Rightarrow> string \<Rightarrow> unit_id \<Rightarrow> 'o function_code \<Rightarrow> cell_type
     \<Rightarrow> u16 \<Rightarrow> single_value \<Rightarrow> u16 \<Rightarrow> 't key memory \<Rightarrow> bool
     \<Rightarrow> (('o exception_code, unit) result \<times> 't key memory \<times> 't key store_write list
          \<times> 'o server_line log) option"
where
  "handle_write_single keyf name slave fc cell addr v stored mem verbose = do {
     rg \<leftarrow> range_new (unat addr) 1;
     (res, mem', reports) \<leftarrow> write_from mem Remote (Key (keyf slave fc)) cell rg [stored];
     let received = (Info, SingleReceived name slave addr v);
     Some (case res of
        Ok _ \<Rightarrow>
          (Ok (), mem', reports,
           received # (if verbose then [(Info, SingleSuccessful name slave addr v)] else []))
      | Err err \<Rightarrow>
          (Err IllegalDataAddress, mem', reports,
           received # (if verbose then [(Warning, SingleFailed name slave addr v err)] else [])))
   }"

definition slave_has_no_region :: "(unit_id \<Rightarrow> 't list) \<Rightarrow> unit_id \<Rightarrow> 't key memory \<Rightarrow> bool" where
  "slave_has_no_region kinds slave mem \<longleftrightarrow> list_all (\<lambda>t. \<not> contains_key mem (Key t)) (kinds slave)"

section \<open>Answering a request\<close>

definition coil_word :: "bool \<Rightarrow> u16" where
  "coil_word b = (if b then 1 else 0)"

definition word_coil :: "u16 \<Rightarrow> bool" where
  "word_coil w \<longleftrightarrow> w \<noteq> 0"

text \<open>The outcome of the read-and-write under one lock.\<close>

datatype rw_outcome = NotAddressable memory_error | Rejected memory_error | RwOk "u16 list"

definition read_write_locked ::
  "'k memory \<Rightarrow> 'k \<Rightarrow> range \<Rightarrow> range \<Rightarrow> u16 list \<Rightarrow> (rw_outcome \<times> 'k memory \<times> 'k store_write list) option"
where
  "read_write_locked mem key rd wr vs = do {
     r \<leftarrow> readable mem key Register rd;
     (case r of
        Err e \<Rightarrow> Some (NotAddressable e, mem, [])
      | Ok _ \<Rightarrow> do {
          w \<leftarrow> writable mem key Register wr;
          (case w of
             Err e \<Rightarrow> Some (NotAddressable e, mem, [])
           | Ok _ \<Rightarrow> do {
               res \<leftarrow> mem_read mem key Register rd;
               (case res of
                  Err e \<Rightarrow> Some (Rejected e, mem, [])
                | Ok v \<Rightarrow> do {
                    (ok, mem', reports) \<leftarrow> write_from mem Remote key Register wr vs;
                    (case ok of
                       Err e \<Rightarrow> Some (Rejected e, mem', reports)
                     | Ok _ \<Rightarrow> Some (RwOk v, mem', reports))
                  })
             })
        })
   }"

definition handle_read_write ::
  "(unit_id \<Rightarrow> 'o function_code \<Rightarrow> 't) \<Rightarrow> unit_id \<Rightarrow> u16 \<Rightarrow> u16 \<Rightarrow> u16 \<Rightarrow> u16 list
     \<Rightarrow> 't key memory \<Rightarrow> bool
     \<Rightarrow> (('o exception_code, 'o response_pdu) result \<times> 't key memory \<times> 't key store_write list
          \<times> 'o server_line log) option"
where
  "handle_read_write keyf slave raddr cnt waddr vs mem verbose = do {
     rd \<leftarrow> range_new (unat raddr) (unat cnt);
     wr \<leftarrow> range_new (unat waddr) (length vs);
     (outcome, mem', reports) \<leftarrow>
       read_write_locked mem (Key (keyf slave FC_ReadWriteMultipleRegisters)) rd wr vs;
     let received = (Info, ReadWriteReceived slave raddr cnt waddr vs);
     let failed = (\<lambda>e. if verbose then [(Warning, ReadWriteFailed slave raddr cnt waddr vs e)] else []);
     Some (case outcome of
        NotAddressable e \<Rightarrow> (Err IllegalDataAddress, mem', reports, received # failed e)
      | Rejected e \<Rightarrow> (Err IllegalDataAddress, mem', reports, received # failed e)
      | RwOk v \<Rightarrow>
          (Ok (RsReadWriteMultipleRegisters v), mem', reports,
           received # (if verbose then [(Info, ReadWriteSuccessful slave raddr cnt waddr vs)] else [])))
   }"

text \<open>A read handler's result as that of a whole request: the store is untouched.\<close>

definition read_answer ::
  "'k memory \<Rightarrow> (u16 list \<Rightarrow> 'o response_pdu)
     \<Rightarrow> (('o exception_code, u16 list) result \<times> 'o server_line log) option
     \<Rightarrow> (('o exception_code, 'o response_pdu) result \<times> 'k memory \<times> 'k store_write list
          \<times> 'o server_line log) option"
where
  "read_answer mem f r = map_option (\<lambda>(res, log). (map_sum (\<lambda>e. e) f res, mem, [], log)) r"

definition write_answer ::
  "('a \<Rightarrow> 'o response_pdu)
     \<Rightarrow> (('o exception_code, 'a) result \<times> 'k memory \<times> 'k store_write list \<times> 'o server_line log) option
     \<Rightarrow> (('o exception_code, 'o response_pdu) result \<times> 'k memory \<times> 'k store_write list
          \<times> 'o server_line log) option"
where
  "write_answer f r =
     map_option (\<lambda>(res, mem, reports, log). (map_sum (\<lambda>e. e) f res, mem, reports, log)) r"

text \<open>
  \<open>fn_of\<close> is the protocol library's \<open>RequestPdu::function\<close>; only its result for a request the
  server does not implement is used, in a log line.
\<close>

definition answer_request ::
  "(unit_id \<Rightarrow> 'o function_code \<Rightarrow> 't) \<Rightarrow> ('o request_pdu \<Rightarrow> 'o function_code)
     \<Rightarrow> unit_id \<Rightarrow> 'o request_pdu \<Rightarrow> 't key memory \<Rightarrow> bool
     \<Rightarrow> (('o exception_code, 'o response_pdu) result \<times> 't key memory \<times> 't key store_write list
          \<times> 'o server_line log) option"
where
  "answer_request keyf fn_of slave request mem verbose =
     (case request of
        RqReadCoils addr cnt \<Rightarrow>
          read_answer mem (\<lambda>v. RsReadCoils (map word_coil v))
            (handle_read keyf ''ReadCoils'' slave FC_ReadCoils Coil addr cnt mem verbose)
      | RqReadDiscreteInputs addr cnt \<Rightarrow>
          read_answer mem (\<lambda>v. RsReadDiscreteInputs (map word_coil v))
            (handle_read keyf ''ReadDiscreteInputs'' slave FC_ReadDiscreteInputs Coil addr cnt mem verbose)
      | RqReadInputRegisters addr cnt \<Rightarrow>
          read_answer mem RsReadInputRegisters
            (handle_read keyf ''ReadInputRegisters'' slave FC_ReadInputRegisters Register addr cnt mem verbose)
      | RqReadHoldingRegisters addr cnt \<Rightarrow>
          read_answer mem RsReadHoldingRegisters
            (handle_read keyf ''ReadHoldingRegisters'' slave FC_ReadHoldingRegisters Register addr cnt mem verbose)
      | RqWriteMultipleRegisters addr registers \<Rightarrow>
          write_answer (\<lambda>len. RsWriteMultipleRegisters addr len)
            (handle_write_multi keyf ''WriteMultipleRegisters'' slave FC_WriteMultipleRegisters Register
               addr registers mem verbose)
      | RqWriteSingleRegister addr v \<Rightarrow>
          write_answer (\<lambda>_. RsWriteSingleRegister addr v)
            (handle_write_single keyf ''WriteSingleRegister'' slave FC_WriteSingleRegister Register
               addr (WordValue v) v mem verbose)
      | RqWriteMultipleCoils addr coils \<Rightarrow>
          write_answer (\<lambda>len. RsWriteMultipleCoils addr len)
            (handle_write_multi keyf ''WriteMultipleCoils'' slave FC_WriteMultipleCoils Coil
               addr (map coil_word coils) mem verbose)
      | RqWriteSingleCoil addr v \<Rightarrow>
          write_answer (\<lambda>_. RsWriteSingleCoil addr v)
            (handle_write_single keyf ''WriteSingleCoil'' slave FC_WriteSingleCoil Coil
               addr (CoilValue v) (coil_word v) mem verbose)
      | RqReadWriteMultipleRegisters raddr cnt waddr registers \<Rightarrow>
          handle_read_write keyf slave raddr cnt waddr registers mem verbose
      | RqOther _ \<Rightarrow>
          Some (Err IllegalFunction, mem, [], [(Warning, UnsupportedFunction (fn_of request) slave)]))"

definition handle_request ::
  "(unit_id \<Rightarrow> 'o function_code \<Rightarrow> 't) \<Rightarrow> (unit_id \<Rightarrow> 't list) \<Rightarrow> ('o request_pdu \<Rightarrow> 'o function_code)
     \<Rightarrow> unit_id \<Rightarrow> 'o request_pdu \<Rightarrow> 't key memory \<Rightarrow> bool \<Rightarrow> bool
     \<Rightarrow> (('o exception_code, 'o response_pdu option) result \<times> 't key memory \<times> 't key store_write list
          \<times> 'o server_line log) option"
where
  "handle_request keyf kinds fn_of slave request mem verbose physical_serial = do {
     (res, mem', reports, log) \<leftarrow> answer_request keyf fn_of slave request mem verbose;
     let res' = (case res of
        Ok pdu \<Rightarrow> Ok (Some pdu)
      | Err IllegalDataAddress \<Rightarrow>
          if physical_serial \<and> slave_has_no_region kinds slave mem' then Ok None
          else Err IllegalDataAddress
      | Err e \<Rightarrow> Err e);
     Some (res', mem', reports, log)
   }"

end
