(* ===== verification/Util_Path.thy ===== *)
theory Util_Path
  imports Prelude
begin

text \<open>
  Expansion of a leading tilde (\<^verbatim>\<open>ferrowl-util/src/path.rs\<close>). A path is its text; \<open>path_join\<close> is
  \<open>Path::join\<close> on Unix, where an absolute right-hand side replaces the left.
\<close>

definition starts_with :: "string \<Rightarrow> string \<Rightarrow> bool" where
  "starts_with p s \<longleftrightarrow> take (length p) s = p"

definition path_is_absolute :: "string \<Rightarrow> bool" where
  "path_is_absolute p = starts_with ''/'' p"

definition path_join :: "string \<Rightarrow> string \<Rightarrow> string" where
  "path_join base p =
     (if path_is_absolute p then p
      else if base = '''' \<or> last base = CHR ''/'' then base @ p
      else base @ ''/'' @ p)"

definition expand_with_home :: "string option \<Rightarrow> string \<Rightarrow> string" where
  "expand_with_home home path =
     (if starts_with ''~/'' path then
        (case home of Some h \<Rightarrow> path_join h (drop 2 path) | None \<Rightarrow> path)
      else if path = ''~'' then (case home of Some h \<Rightarrow> h | None \<Rightarrow> path)
      else path)"

lemma expand_no_tilde: "\<not> starts_with ''~'' path \<Longrightarrow> expand_with_home home path = path"
  by (cases path) (auto simp: expand_with_home_def starts_with_def)

lemma expand_no_home [simp]: "expand_with_home None path = path"
  by (simp add: expand_with_home_def)

lemma expand_idem:
  assumes "home = Some h" "path_is_absolute h"
  shows "expand_with_home home (expand_with_home home path) = expand_with_home home path"
proof (cases "starts_with ''~'' (expand_with_home home path)")
  case True
  have "\<not> starts_with ''~'' (path_join h p)" for p
    using assms(2) by (cases h; cases p) (auto simp: path_join_def path_is_absolute_def starts_with_def)
  moreover have "\<not> starts_with ''~'' h"
    using assms(2) by (cases h) (auto simp: path_is_absolute_def starts_with_def)
  ultimately have "expand_with_home home path = path"
    using True assms(1) by (auto simp: expand_with_home_def split: if_splits)
  then show ?thesis by simp
qed (simp add: expand_no_tilde)

end
