(* ===== verification/Str_Util.thy ===== *)
theory Str_Util
  imports Prelude
begin

text \<open>
  Rust's strings as far as several components use them. A string is the list of its characters;
  the model covers the first 256 code points, on which the character classes below are exactly
  those of the standard library.
\<close>

section \<open>Character classes\<close>

definition code_point :: "char \<Rightarrow> nat" where
  "code_point c = of_char c"

definition is_space :: "char \<Rightarrow> bool" where
  "is_space c \<longleftrightarrow> (let n = code_point c in 9 \<le> n \<and> n \<le> 13 \<or> n = 32 \<or> n = 133 \<or> n = 160)"

definition is_ascii_digit :: "char \<Rightarrow> bool" where
  "is_ascii_digit c \<longleftrightarrow> (let n = code_point c in 48 \<le> n \<and> n \<le> 57)"

definition is_ascii_alphabetic :: "char \<Rightarrow> bool" where
  "is_ascii_alphabetic c \<longleftrightarrow> (let n = code_point c in 65 \<le> n \<and> n \<le> 90 \<or> 97 \<le> n \<and> n \<le> 122)"

definition is_ascii_alphanumeric :: "char \<Rightarrow> bool" where
  "is_ascii_alphanumeric c \<longleftrightarrow> is_ascii_digit c \<or> is_ascii_alphabetic c"

definition is_ascii_hexdigit :: "char \<Rightarrow> bool" where
  "is_ascii_hexdigit c \<longleftrightarrow> (let n = code_point c in
     48 \<le> n \<and> n \<le> 57 \<or> 65 \<le> n \<and> n \<le> 70 \<or> 97 \<le> n \<and> n \<le> 102)"

text \<open>Beyond ASCII: the ordinal indicators, the micro sign, superscripts, fractions and letters.\<close>

definition is_alphanumeric :: "char \<Rightarrow> bool" where
  "is_alphanumeric c \<longleftrightarrow> is_ascii_alphanumeric c \<or>
     (let n = code_point c in
      n = 170 \<or> n = 178 \<or> n = 179 \<or> n = 181 \<or> n = 185 \<or> n = 186 \<or> 188 \<le> n \<and> n \<le> 190 \<or>
      192 \<le> n \<and> n \<noteq> 215 \<and> n \<noteq> 247)"

definition to_ascii_lowercase :: "char \<Rightarrow> char" where
  "to_ascii_lowercase c = (let n = code_point c in if 65 \<le> n \<and> n \<le> 90 then char_of (n + 32) else c)"

section \<open>Splitting, trimming and joining\<close>

fun str_split :: "char \<Rightarrow> string \<Rightarrow> string list" where
  "str_split sep [] = [[]]"
| "str_split sep (c # cs) =
     (if c = sep then [] # str_split sep cs
      else case str_split sep cs of part # parts \<Rightarrow> (c # part) # parts | [] \<Rightarrow> [[c]])"

fun str_split_once :: "char \<Rightarrow> string \<Rightarrow> (string \<times> string) option" where
  "str_split_once sep [] = None"
| "str_split_once sep (c # cs) =
     (if c = sep then Some ([], cs) else map_option (\<lambda>(a, b). (c # a, b)) (str_split_once sep cs))"

definition str_trim :: "string \<Rightarrow> string" where
  "str_trim s = rev (dropWhile is_space (rev (dropWhile is_space s)))"

fun join_strings :: "string \<Rightarrow> string list \<Rightarrow> string" where
  "join_strings sep [] = []"
| "join_strings sep [s] = s"
| "join_strings sep (s # t # ss) = s @ sep @ join_strings sep (t # ss)"

lemma dropWhile_none: "(\<And>c. c \<in> set xs \<Longrightarrow> \<not> P c) \<Longrightarrow> dropWhile P xs = xs"
  by (cases xs) auto

lemma str_trim_id: "(\<And>c. c \<in> set s \<Longrightarrow> \<not> is_space c) \<Longrightarrow> str_trim s = s"
  unfolding str_trim_def by (subst (1 2) dropWhile_none) simp_all

lemma str_split_once_none: "sep \<notin> set s \<Longrightarrow> str_split_once sep s = None"
  by (induction s) auto

lemma str_split_once_some: "sep \<notin> set a \<Longrightarrow> str_split_once sep (a @ sep # b) = Some (a, b)"
  by (induction a) auto

lemma str_split_single: "sep \<notin> set s \<Longrightarrow> str_split sep s = [s]"
  by (induction s) auto

lemma str_split_append: "sep \<notin> set a \<Longrightarrow> str_split sep (a @ sep # b) = a # str_split sep b"
  by (induction a) auto

lemma str_split_not_Nil [simp]: "str_split sep s \<noteq> []"
  by (induction s) (auto split: list.split)

lemma str_split_no_sep: "part \<in> set (str_split sep s) \<Longrightarrow> sep \<notin> set part"
proof (induction s arbitrary: part)
  case (Cons c cs)
  obtain p ps where "str_split sep cs = p # ps" by (cases "str_split sep cs") auto
  with Cons show ?case by (auto split: if_splits)
qed simp

text \<open>Splitting at a separator and joining with it are inverse.\<close>

lemma join_split: "join_strings [sep] (str_split sep s) = s"
proof (induction s)
  case (Cons c cs)
  obtain p ps where ps: "str_split sep cs = p # ps" by (cases "str_split sep cs") auto
  with Cons.IH show ?case by (cases ps) auto
qed simp

lemma split_join:
  "ss \<noteq> [] \<Longrightarrow> (\<And>s. s \<in> set ss \<Longrightarrow> sep \<notin> set s) \<Longrightarrow> str_split sep (join_strings [sep] ss) = ss"
  by (induction ss rule: induct_list012) (simp_all add: str_split_single str_split_append)

end
