(* ===== verification/Modbus_Serve.thy ===== *)
theory Modbus_Serve
  imports Modbus_Server Util_Path Str_Util
begin

text \<open>
  The server tasks around the request handlers (\<^verbatim>\<open>ferrowl-modbus/src/server_core.rs\<close> and
  \<^verbatim>\<open>udp/server.rs\<close>): the callbacks the protocol library's serving loop makes, driving that loop
  against the command channel, and the bind-or-open, serve and retry loops of the TCP-family, UDP
  and serial servers.

  What the library and the operating system do is input: the events of a serving loop in the order
  they happen, what parsing an address, binding or opening yields, and the commands received. A
  value \<open>None\<close> of an option result means that the code does not return: it panicked, or the
  events ran out before the loop ended.
\<close>

section \<open>Log lines\<close>

datatype 'a target = AddrTarget 'a | SerialTarget string

datatype ('o, 'e) serve_cause = CauseError "('o, 'e) rmb_error" | CauseEof

datatype ('o, 'e) tls_detail =
    RejectedCertificate 'e string
  | HandshakeSource 'e
  | HandshakeOther "('o, 'e) rmb_error"

datatype ('o, 'e, 'a, 'd) serve_line =
    RequestLine "'o server_line"
  | BindFailed 'a "('o, 'e) rmb_error"
  | Listening 'a
  | ServeFailed "'a target" "('o, 'e) serve_cause"
  | AcceptError "('o, 'e) rmb_error"
  | ReceiveError "('o, 'e) rmb_error"
  | PeerConnected 'a
  | PeerDisconnected 'a 'd
  | ProcessingFailed "('o, 'e) rmb_error"
  | TlsHandshakeFailed 'a "('o, 'e) tls_detail"
  | TlsFallback
  | PathInUse string string
  | SerialOpenFailed string "('o, 'e) rmb_error"
  | SerialOpened string

section \<open>The per-connection service\<close>

datatype reset_on = OnConnect | OnRequest

definition LISTENER_ERROR_WAIT :: duration where
  "LISTENER_ERROR_WAIT = from_secs 1"

datatype accept_error_action = ActContinue | ActStop

record ('t, 'o, 'e, 'a, 'd) server =
  sv_memory :: "'t key memory"
  sv_verbose :: bool
  sv_physical_serial :: bool
  sv_activity :: bool
  sv_reset_on :: reset_on
  sv_receive_failed :: bool
  sv_log :: "('o, 'e, 'a, 'd) serve_line log"
  sv_reports :: "'t key store_write list"
  sv_waits :: "duration list"

definition server_new :: "'t key memory \<Rightarrow> bool \<Rightarrow> bool \<Rightarrow> ('t, 'o, 'e, 'a, 'd) server" where
  "server_new mem verbose physical_serial =
     \<lparr>sv_memory = mem, sv_verbose = verbose, sv_physical_serial = physical_serial, sv_activity = False,
      sv_reset_on = OnConnect, sv_receive_failed = False, sv_log = [], sv_reports = [], sv_waits = []\<rparr>"

definition with_reset_on ::
  "bool \<Rightarrow> reset_on \<Rightarrow> ('t, 'o, 'e, 'a, 'd) server \<Rightarrow> ('t, 'o, 'e, 'a, 'd) server"
where
  "with_reset_on activity on sv = sv\<lparr>sv_activity := activity, sv_reset_on := on\<rparr>"

definition datagram_arrived :: "('t, 'o, 'e, 'a, 'd) server \<Rightarrow> ('t, 'o, 'e, 'a, 'd) server" where
  "datagram_arrived sv = sv\<lparr>sv_receive_failed := False\<rparr>"

definition sv_logged ::
  "level \<Rightarrow> ('o, 'e, 'a, 'd) serve_line \<Rightarrow> ('t, 'o, 'e, 'a, 'd) server \<Rightarrow> ('t, 'o, 'e, 'a, 'd) server"
where
  "sv_logged lv line sv = sv\<lparr>sv_log := sv_log sv @ [(lv, line)]\<rparr>"

definition on_request ::
  "(unit_id \<Rightarrow> 'o function_code \<Rightarrow> 't) \<Rightarrow> (unit_id \<Rightarrow> 't list) \<Rightarrow> ('o request_pdu \<Rightarrow> 'o function_code)
     \<Rightarrow> unit_id \<Rightarrow> 'o request_pdu \<Rightarrow> ('t, 'o, 'e, 'a, 'd) server
     \<Rightarrow> (('o exception_code, 'o response_pdu option) result \<times> ('t, 'o, 'e, 'a, 'd) server) option"
where
  "on_request keyf kinds fn_of unit request sv = do {
     let sv1 = datagram_arrived sv;
     (res, mem, reports, log) \<leftarrow>
       handle_request keyf kinds fn_of unit request (sv_memory sv1) (sv_verbose sv1) (sv_physical_serial sv1);
     let sv2 = sv1\<lparr>sv_memory := mem, sv_reports := sv_reports sv1 @ reports,
                   sv_log := sv_log sv1 @ map (map_prod (\<lambda>l. l) RequestLine) log\<rparr>;
     Some (res, if sv_reset_on sv2 = OnRequest then sv2\<lparr>sv_activity := True\<rparr> else sv2)
   }"

definition on_connect :: "'a option \<Rightarrow> ('t, 'o, 'e, 'a, 'd) server \<Rightarrow> ('t, 'o, 'e, 'a, 'd) server" where
  "on_connect peer sv =
     (let sv1 = (if sv_reset_on sv = OnConnect then sv\<lparr>sv_activity := True\<rparr> else sv) in
      case peer of Some p \<Rightarrow> sv_logged Info (PeerConnected p) sv1 | None \<Rightarrow> sv1)"

definition on_disconnect ::
  "'a option \<Rightarrow> 'd \<Rightarrow> ('t, 'o, 'e, 'a, 'd) server \<Rightarrow> ('t, 'o, 'e, 'a, 'd) server"
where
  "on_disconnect peer reason sv =
     (case peer of Some p \<Rightarrow> sv_logged Info (PeerDisconnected p reason) sv | None \<Rightarrow> sv)"

text \<open>\<open>transient e\<close> says that the library classifies the failure as transient.\<close>

definition on_listener_accept_error ::
  "(('o, 'e) rmb_error \<Rightarrow> bool) \<Rightarrow> ('o, 'e) rmb_error \<Rightarrow> ('t, 'o, 'e, 'a, 'd) server
     \<Rightarrow> accept_error_action \<times> ('t, 'o, 'e, 'a, 'd) server"
where
  "on_listener_accept_error transient err sv =
     (if transient err then
        (ActContinue,
         (sv_logged Warning (AcceptError err) sv)\<lparr>sv_waits := sv_waits sv @ [LISTENER_ERROR_WAIT]\<rparr>)
      else (ActStop, sv))"

definition on_receive_error ::
  "(('o, 'e) rmb_error \<Rightarrow> bool) \<Rightarrow> ('o, 'e) rmb_error \<Rightarrow> ('t, 'o, 'e, 'a, 'd) server
     \<Rightarrow> accept_error_action \<times> ('t, 'o, 'e, 'a, 'd) server"
where
  "on_receive_error transient err sv =
     (if transient err then
        let sv1 = sv_logged Warning (ReceiveError err) sv;
            failed = sv_receive_failed sv1;
            sv2 = sv1\<lparr>sv_receive_failed := True\<rparr>
        in (ActContinue, if failed then sv2\<lparr>sv_waits := sv_waits sv2 @ [LISTENER_ERROR_WAIT]\<rparr> else sv2)
      else (ActStop, sv))"

definition on_error ::
  "('o, 'e) rmb_error \<Rightarrow> ('t, 'o, 'e, 'a, 'd) server \<Rightarrow> ('t, 'o, 'e, 'a, 'd) server"
where
  "on_error err sv =
     (let sv1 = datagram_arrived sv in
      if sv_verbose sv1 then sv_logged Warning (ProcessingFailed err) sv1 else sv1)"

text \<open>A fingerprint is the digest (the library's SHA-256, a parameter) as colon-separated hex.\<close>

definition hex_byte_lower :: "u8 \<Rightarrow> string" where
  "hex_byte_lower b =
     map (\<lambda>d. char_of (if d < 10 then 48 + d else 87 + d)) [unat b div 16, unat b mod 16]"

definition sha256_fingerprint :: "(u8 list \<Rightarrow> u8 list) \<Rightarrow> u8 list \<Rightarrow> string" where
  "sha256_fingerprint digest cert = join_strings '':'' (map hex_byte_lower (digest cert))"

definition on_tls_handshake_failed ::
  "(u8 list \<Rightarrow> u8 list) \<Rightarrow> 'a \<Rightarrow> ('o, 'e) rmb_error \<Rightarrow> ('t, 'o, 'e, 'a, 'd) server
     \<Rightarrow> ('t, 'o, 'e, 'a, 'd) server"
where
  "on_tls_handshake_failed digest peer err sv =
     sv_logged Error
       (TlsHandshakeFailed peer
          (case err of
             RmbTlsHandshake src (Some cert) \<Rightarrow> RejectedCertificate src (sha256_fingerprint digest cert)
           | RmbTlsHandshake src None \<Rightarrow> HandshakeSource src
           | other \<Rightarrow> HandshakeOther other)) sv"

section \<open>Driving a serving loop\<close>

text \<open>What the protocol library supplies: keying and its classifications and digests.\<close>

record ('t, 'o, 'e) lib =
  lib_key :: "unit_id \<Rightarrow> 'o function_code \<Rightarrow> 't"
  lib_kinds :: "unit_id \<Rightarrow> 't list"
  lib_function :: "'o request_pdu \<Rightarrow> 'o function_code"
  lib_transient :: "('o, 'e) rmb_error \<Rightarrow> bool"
  lib_digest :: "u8 list \<Rightarrow> u8 list"

datatype ('o, 'e, 'a, 'd) svc_event =
    EvRequest unit_id "'o request_pdu"
  | EvConnect "'a option"
  | EvDisconnect "'a option" 'd
  | EvAcceptError "('o, 'e) rmb_error"
  | EvReceiveError "('o, 'e) rmb_error"
  | EvError "('o, 'e) rmb_error"
  | EvTlsHandshakeFailed 'a "('o, 'e) rmb_error"

definition serve_callback ::
  "('t, 'o, 'e) lib \<Rightarrow> ('o, 'e, 'a, 'd) svc_event \<Rightarrow> ('t, 'o, 'e, 'a, 'd) server
     \<Rightarrow> ('t, 'o, 'e, 'a, 'd) server option"
where
  "serve_callback lib ev sv =
     (case ev of
        EvRequest unit rq \<Rightarrow>
          map_option snd (on_request (lib_key lib) (lib_kinds lib) (lib_function lib) unit rq sv)
      | EvConnect peer \<Rightarrow> Some (on_connect peer sv)
      | EvDisconnect peer reason \<Rightarrow> Some (on_disconnect peer reason sv)
      | EvAcceptError e \<Rightarrow> Some (snd (on_listener_accept_error (lib_transient lib) e sv))
      | EvReceiveError e \<Rightarrow> Some (snd (on_receive_error (lib_transient lib) e sv))
      | EvError e \<Rightarrow> Some (on_error e sv)
      | EvTlsHandshakeFailed peer e \<Rightarrow> Some (on_tls_handshake_failed (lib_digest lib) peer e sv))"

datatype ('o, 'e, 'a, 'd) serve_event =
    SvCallback "('o, 'e, 'a, 'd) svc_event"
  | SvReturned "(('o, 'e) rmb_error, unit) result"
  | SvCommand "server_command option"

datatype ('o, 'e) serve_end = EndTerminated | EndEnded | EndFailed "('o, 'e) rmb_error"

text \<open>
  After a shutdown was requested the serving future is awaited: callbacks go on until it returns,
  and the channel is not read any more.
\<close>

fun drain_serve ::
  "('t, 'o, 'e) lib \<Rightarrow> ('o, 'e, 'a, 'd) serve_event list \<Rightarrow> ('t, 'o, 'e, 'a, 'd) server
     \<Rightarrow> ('t, 'o, 'e, 'a, 'd) server option"
where
  "drain_serve lib [] sv = None"
| "drain_serve lib (SvReturned r # evs) sv = Some sv"
| "drain_serve lib (SvCommand c # evs) sv = drain_serve lib evs sv"
| "drain_serve lib (SvCallback ev # evs) sv = do { sv' \<leftarrow> serve_callback lib ev sv; drain_serve lib evs sv' }"

fun drive_serve ::
  "('t, 'o, 'e) lib \<Rightarrow> ('o, 'e, 'a, 'd) serve_event list \<Rightarrow> ('t, 'o, 'e, 'a, 'd) server
     \<Rightarrow> (('o, 'e) serve_end \<times> ('t, 'o, 'e, 'a, 'd) server) option"
where
  "drive_serve lib [] sv = None"
| "drive_serve lib (SvReturned r # evs) sv =
     Some (case r of Ok _ \<Rightarrow> EndEnded | Err e \<Rightarrow> EndFailed e, sv)"
| "drive_serve lib (SvCommand c # evs) sv =
     (if c = None \<or> c = Some ServerTerminate
      then map_option (\<lambda>sv'. (EndTerminated, sv')) (drain_serve lib evs sv)
      else drive_serve lib evs sv)"
| "drive_serve lib (SvCallback ev # evs) sv = do { sv' \<leftarrow> serve_callback lib ev sv; drive_serve lib evs sv' }"

section \<open>One attempt of a server task\<close>

record ('t, 'o, 'e, 'a, 'd) serve_task =
  tk_memory :: "'t key memory"
  tk_activity :: bool
  tk_bound :: "'a option"
  tk_open :: connected_cell
  tk_log :: "('o, 'e, 'a, 'd) serve_line log"
  tk_reports :: "'t key store_write list"
  tk_status :: "string log"

definition tk_logged ::
  "level \<Rightarrow> ('o, 'e, 'a, 'd) serve_line \<Rightarrow> ('t, 'o, 'e, 'a, 'd) serve_task \<Rightarrow> ('t, 'o, 'e, 'a, 'd) serve_task"
where
  "tk_logged lv line tk = tk\<lparr>tk_log := tk_log tk @ [(lv, line)]\<rparr>"

text \<open>A fresh service over the task's store and activity flag, driven to its end.\<close>

definition serve_with ::
  "('t, 'o, 'e) lib \<Rightarrow> bool \<Rightarrow> bool \<Rightarrow> reset_on \<Rightarrow> ('o, 'e, 'a, 'd) serve_event list
     \<Rightarrow> ('t, 'o, 'e, 'a, 'd) serve_task
     \<Rightarrow> (('o, 'e) serve_end \<times> ('t, 'o, 'e, 'a, 'd) serve_task) option"
where
  "serve_with lib verbose ps on evs tk = do {
     (end, sv) \<leftarrow> drive_serve lib evs (with_reset_on (tk_activity tk) on (server_new (tk_memory tk) verbose ps));
     Some (end, tk\<lparr>tk_memory := sv_memory sv, tk_activity := sv_activity sv,
                  tk_log := tk_log tk @ sv_log sv, tk_reports := tk_reports tk @ sv_reports sv\<rparr>)
   }"

text \<open>
  Binding and serving, the same for a plain, a TLS and a UDP listener: a terminate while the bind
  is in flight ends the task, otherwise the bind fails or yields a listener whose local address may
  still be unavailable.
\<close>

definition bind_serve ::
  "('t, 'o, 'e) lib \<Rightarrow> bool \<Rightarrow> bool \<Rightarrow> reset_on \<Rightarrow> bool \<Rightarrow> 'a
     \<Rightarrow> (server_command, (('o, 'e) rmb_error, (('o, 'e) rmb_error, 'a) result) result) race_event list
     \<Rightarrow> ('o, 'e, 'a, 'd) serve_event list \<Rightarrow> ('t, 'o, 'e, 'a, 'd) serve_task
     \<Rightarrow> (('o, 'e) mb_err attempt_outcome \<times> ('t, 'o, 'e, 'a, 'd) serve_task) option"
where
  "bind_serve lib verbose ps on reconnect addr race evs tk = do {
     (bound, parked) \<leftarrow> race_terminate (\<lambda>_. True) race [];
     if parked \<noteq> [] then None
     else (case bound of
        None \<Rightarrow> Some (Done, tk)
      | Some (Err e) \<Rightarrow>
          Some (Failed (ErrServer e) reconnect False, tk_logged Error (BindFailed addr e) tk)
      | Some (Ok local) \<Rightarrow>
          (case local of
             Err e \<Rightarrow> Some (Failed (ErrServer e) reconnect False, tk)
           | Ok b \<Rightarrow> do {
               (end, tk1) \<leftarrow>
                 serve_with lib verbose ps on evs (tk_logged Info (Listening b) (tk\<lparr>tk_bound := Some b\<rparr>));
               let tk2 = tk1\<lparr>tk_bound := None\<rparr>;
               Some (case end of
                  EndFailed e \<Rightarrow>
                    (Failed (ErrServer e) reconnect (tk_activity tk2),
                     tk_logged Error (ServeFailed (AddrTarget addr) (CauseError e)) tk2)
                | _ \<Rightarrow> (Done, tk2))
             }))
   }"

text \<open>What the configuration and the environment give one attempt of a TCP-family server.\<close>

datatype ('o, 'e) tls_setup = NoTls | TlsBuilt "(('o, 'e) tcp_error, bool option) result"

record ('o, 'e, 'a, 'd) tcp_input =
  ti_reconnect :: bool
  ti_addr :: "'a option"
  ti_tls :: "('o, 'e) tls_setup"
  ti_race :: "(server_command, (('o, 'e) rmb_error, (('o, 'e) rmb_error, 'a) result) result) race_event list"
  ti_events :: "('o, 'e, 'a, 'd) serve_event list"

definition tcp_attempt ::
  "('t, 'o, 'e) lib \<Rightarrow> bool \<Rightarrow> bool \<Rightarrow> ('o, 'e, 'a, 'd) tcp_input \<Rightarrow> ('t, 'o, 'e, 'a, 'd) serve_task
     \<Rightarrow> (('o, 'e) mb_err attempt_outcome \<times> ('t, 'o, 'e, 'a, 'd) serve_task) option"
where
  "tcp_attempt lib verbose ps i tk =
     (let tk0 = tk\<lparr>tk_activity := False\<rparr> in
      case ti_addr i of
        None \<Rightarrow> Some (Failed (ErrTcp TcpAddress) False False, tk0)
      | Some addr \<Rightarrow>
          (case ti_tls i of
             NoTls \<Rightarrow>
               bind_serve lib verbose ps OnConnect (ti_reconnect i) addr (ti_race i) (ti_events i) tk0
           | TlsBuilt (Err e) \<Rightarrow> Some (Failed (ErrTcp e) False False, tk0)
           | TlsBuilt (Ok None) \<Rightarrow> None
           | TlsBuilt (Ok (Some used_fallback)) \<Rightarrow>
               bind_serve lib verbose ps OnConnect (ti_reconnect i) addr (ti_race i) (ti_events i)
                 (if used_fallback then tk_logged Info TlsFallback tk0 else tk0)))"

definition udp_attempt ::
  "('t, 'o, 'e) lib \<Rightarrow> ('o, 'e, 'a, 'd) tcp_input \<Rightarrow> ('t, 'o, 'e, 'a, 'd) serve_task
     \<Rightarrow> (('o, 'e) mb_err attempt_outcome \<times> ('t, 'o, 'e, 'a, 'd) serve_task) option"
where
  "udp_attempt lib i tk =
     (let tk0 = tk\<lparr>tk_activity := False\<rparr> in
      case ti_addr i of
        None \<Rightarrow> Some (Failed (ErrTcp TcpAddress) False False, tk0)
      | Some addr \<Rightarrow>
          bind_serve lib True False OnRequest (ti_reconnect i) addr (ti_race i) (ti_events i) tk0)"

text \<open>
  A serial attempt: the parameters as configured, the home directory and the path checker of the
  moment, what opening a path with a configuration yields, and the race of the open against the
  channel.
\<close>

record ('o, 'e, 'a, 'd) serial_input =
  si_reconnect :: bool
  si_baud :: u32
  si_data_bits :: "u8 option"
  si_stop_bits :: "u8 option"
  si_parity :: "string option"
  si_path :: string
  si_home :: "string option"
  si_conflict :: path_conflict_cell
  si_opener :: "string \<Rightarrow> serial_config \<Rightarrow> (('o, 'e) rmb_error, unit) result"
  si_race :: "(server_command, unit) race_event list"
  si_events :: "('o, 'e, 'a, 'd) serve_event list"

definition serial_attempt ::
  "('t, 'o, 'e) lib \<Rightarrow> serial_config \<Rightarrow> bool \<Rightarrow> bool \<Rightarrow> ('o, 'e, 'a, 'd) serial_input
     \<Rightarrow> ('t, 'o, 'e, 'a, 'd) serve_task
     \<Rightarrow> (('o, 'e) mb_err attempt_outcome \<times> ('t, 'o, 'e, 'a, 'd) serve_task) option"
where
  "serial_attempt lib defaults verbose ps i tk =
     (let tk0 = tk\<lparr>tk_activity := False\<rparr>; reconnect = si_reconnect i in
      case serial_config_from defaults (si_baud i) (si_data_bits i) (si_stop_bits i) (si_parity i) of
        Err e \<Rightarrow> Some (Failed (ErrSerial e) False False, tk0)
      | Ok serial \<Rightarrow>
          let path = si_path i; expanded = expand_with_home (si_home i) path in
          case path_conflict_check (si_conflict i) expanded of
            Some other \<Rightarrow>
              Some (Failed (ErrPathConflict expanded other) reconnect False,
                    tk_logged Warning (PathInUse expanded other) tk0)
          | None \<Rightarrow> do {
              (raced, parked) \<leftarrow> race_terminate (\<lambda>_. True) (si_race i) [];
              if parked \<noteq> [] then None
              else (case raced of
                 None \<Rightarrow> Some (Done, tk0)
               | Some _ \<Rightarrow>
                   (case si_opener i path serial of
                      Err e \<Rightarrow>
                        Some (Failed (ErrSerial (SerialErr e)) reconnect False,
                              tk_logged Error (SerialOpenFailed path e) tk0)
                    | Ok _ \<Rightarrow> do {
                        (end, tk1) \<leftarrow> serve_with lib verbose ps OnRequest (si_events i)
                                       (tk_logged Info (SerialOpened path) (tk0\<lparr>tk_open := True\<rparr>));
                        let tk2 = tk1\<lparr>tk_open := False\<rparr>;
                        Some (case end of
                           EndTerminated \<Rightarrow> (Done, tk2)
                         | EndEnded \<Rightarrow>
                             (Failed (ErrServer RmbUnexpectedEof) reconnect (tk_activity tk2),
                              tk_logged Error (ServeFailed (SerialTarget path) CauseEof) tk2)
                         | EndFailed e \<Rightarrow>
                             (Failed (ErrServer e) reconnect (tk_activity tk2),
                              tk_logged Error (ServeFailed (SerialTarget path) (CauseError e)) tk2))
                      }))
            })"

section \<open>The retrying tasks\<close>

text \<open>\<open>None\<close>: the sleep elapsed; otherwise what the channel delivered, a command or its closing.\<close>

definition wait_reconnect_backoff :: "server_command option option \<Rightarrow> bool" where
  "wait_reconnect_backoff w \<longleftrightarrow> w \<noteq> None"

definition run_server_task ::
  "('i \<Rightarrow> ('t, 'o, 'e, 'a, 'd) serve_task \<Rightarrow> (('o, 'e) mb_err attempt_outcome \<times> ('t, 'o, 'e, 'a, 'd) serve_task) option)
     \<Rightarrow> ('i \<times> server_command option option) list \<Rightarrow> ('t, 'o, 'e, 'a, 'd) serve_task
     \<Rightarrow> (('o, 'e) mb_err run_end \<times> ('t, 'o, 'e, 'a, 'd) serve_task) option"
where
  "run_server_task attempt env tk = do {
     (r, tk') \<leftarrow> backoff_run backoff_policy_default attempt (\<lambda>w d s. (wait_reconnect_backoff w, s))
                  (bp_initial backoff_policy_default) env tk;
     Some (r, case r of
        Returned _ \<Rightarrow> tk'\<lparr>tk_status := tk_status tk' @ [(Info, ''Server stopped'')]\<rparr>
      | Running _ \<Rightarrow> tk')
   }"

definition run_tcp_family ::
  "('t, 'o, 'e) lib \<Rightarrow> bool \<Rightarrow> bool \<Rightarrow> (('o, 'e, 'a, 'd) tcp_input \<times> server_command option option) list
     \<Rightarrow> ('t, 'o, 'e, 'a, 'd) serve_task
     \<Rightarrow> (('o, 'e) mb_err run_end \<times> ('t, 'o, 'e, 'a, 'd) serve_task) option"
where
  "run_tcp_family lib verbose ps env tk = run_server_task (tcp_attempt lib verbose ps) env tk"

definition run_udp ::
  "('t, 'o, 'e) lib \<Rightarrow> (('o, 'e, 'a, 'd) tcp_input \<times> server_command option option) list
     \<Rightarrow> ('t, 'o, 'e, 'a, 'd) serve_task
     \<Rightarrow> (('o, 'e) mb_err run_end \<times> ('t, 'o, 'e, 'a, 'd) serve_task) option"
where
  "run_udp lib env tk = run_server_task (udp_attempt lib) env tk"

definition run_serial_family ::
  "('t, 'o, 'e) lib \<Rightarrow> serial_config \<Rightarrow> bool \<Rightarrow> bool
     \<Rightarrow> (('o, 'e, 'a, 'd) serial_input \<times> server_command option option) list
     \<Rightarrow> ('t, 'o, 'e, 'a, 'd) serve_task
     \<Rightarrow> (('o, 'e) mb_err run_end \<times> ('t, 'o, 'e, 'a, 'd) serve_task) option"
where
  "run_serial_family lib defaults verbose ps env tk =
     run_server_task (serial_attempt lib defaults verbose ps) env tk"

end
