(* ===== verification/Modbus_Server_Properties.thy ===== *)
theory Modbus_Server_Properties
  imports Modbus_Server
begin

text \<open>
  Properties of the Modbus server's request handling over the register store: every request is
  answered as a specification on the abstract store says, reads see earlier writes, requests to
  different slaves do not interfere, the combined read and write is a read followed by a write, and
  the silence rule of serial links. Library facts hold for any keying scheme; the properties are
  about \<open>SlaveKey\<close>.
\<close>

section \<open>The store seen by a handler\<close>

text \<open>
  A protocol data unit carries at most 253 bytes, so its lists are short; all the handlers need is
  that their lengths are 16-bit numbers.
\<close>

fun request_sized :: "'o request_pdu \<Rightarrow> bool" where
  "request_sized (RqWriteMultipleCoils a cs) \<longleftrightarrow> length cs < 65536"
| "request_sized (RqWriteMultipleRegisters a vs) \<longleftrightarrow> length vs < 65536"
| "request_sized (RqReadWriteMultipleRegisters ra n wa vs) \<longleftrightarrow> length vs < 65536"
| "request_sized _ \<longleftrightarrow> True"

definition span :: "u16 \<Rightarrow> usize \<Rightarrow> range" where
  "span a n = MkRange (unat a) (unat a + n)"

lemma unat_u16_less: "unat (a :: u16) < 65536"
  using unsigned_less [of a, where 'a = nat] by simp

lemma span_fits: "n < 65536 \<Longrightarrow> unat (a :: u16) + n \<le> usize_max"
  using unat_u16_less [of a] by (simp add: usize_max_def)

lemma range_new_span [panic_free]: "n < 65536 \<Longrightarrow> range_new (unat (a :: u16)) n = Some (span a n)"
  using span_fits [of n a] by (simp add: range_new_def span_def panic_free)

lemma wf_span [simp]: "n < 65536 \<Longrightarrow> wf_range (span a n)"
  using span_fits [of n a] by (simp add: wf_range_def span_def)

lemma span_add [panic_free]: "n < 65536 \<Longrightarrow> usize_add (unat (a :: u16)) n = Some (unat a + n)"
  using span_fits [of n a] by (simp add: panic_free)

text \<open>What a write through \<open>write_from\<close> does, in terms of the abstract store.\<close>

definition write_reports ::
  "'k memory \<Rightarrow> write_source \<Rightarrow> 'k \<Rightarrow> range \<Rightarrow> u16 list \<Rightarrow> 'k store_write list"
where
  "write_reports mem src k rg vs =
     (if m_tap mem
      then [\<lparr>sw_source = src, sw_id = k, sw_range = rg, sw_old = words_of (mem_cells mem k) rg, sw_new = vs\<rparr>]
      else [])"

lemma write_from_store:
  assumes "wf_memory mem" "wf_range rg"
  shows "\<exists>mem'. write_from mem src k ty rg vs =
      Some (write_spec (contains_key mem k) (mem_cells mem k) ty rg vs, mem',
        if write_spec (contains_key mem k) (mem_cells mem k) ty rg vs = Ok ()
        then write_reports mem src k rg vs else []) \<and>
    wf_memory mem' \<and> contains_key mem' = contains_key mem \<and> m_tap mem' = m_tap mem \<and>
    mem_cells mem' = (if write_spec (contains_key mem k) (mem_cells mem k) ty rg vs = Ok ()
      then (mem_cells mem)(k := store_words rg vs (mem_cells mem k)) else mem_cells mem)"
proof (cases "write_spec (contains_key mem k) (mem_cells mem k) ty rg vs = Ok ()")
  case True
  obtain mem' where w: "mem_write mem k ty rg vs = Some (Ok (), mem')" "wf_memory mem'"
      "contains_key mem' = contains_key mem" "m_tap mem' = m_tap mem"
      "mem_cells mem' = (mem_cells mem)(k := store_words rg vs (mem_cells mem k))"
    using mem_write_accepted [OF assms True] by blast
  from write_from_eq [OF assms w(1), of src] True w(2-) show ?thesis
    by (intro exI [of _ mem']) (simp add: write_reports_def)
next
  case False
  then obtain e where e: "write_spec (contains_key mem k) (mem_cells mem k) ty rg vs = Err e"
    by (cases "write_spec (contains_key mem k) (mem_cells mem k) ty rg vs") auto
  from write_from_eq [OF assms mem_write_refused [OF assms e], of src] e assms(1) show ?thesis
    by (intro exI [of _ mem]) simp
qed

section \<open>The specification of an answer\<close>

text \<open>
  On the abstract store, a request gives an answer and a new abstract store. A refusal of the
  store is an illegal data address; a request outside the nine supported ones an illegal function.
\<close>

definition read_request ::
  "('k \<Rightarrow> bool) \<Rightarrow> ('k \<Rightarrow> addr_space) \<Rightarrow> 'k \<Rightarrow> cell_type \<Rightarrow> range
     \<Rightarrow> ('o exception_code, u16 list) result"
where
  "read_request known cells k ty rg =
     map_sum (\<lambda>_. IllegalDataAddress) (\<lambda>v. v) (read_spec (known k) (cells k) ty rg)"

definition write_request ::
  "('k \<Rightarrow> bool) \<Rightarrow> ('k \<Rightarrow> addr_space) \<Rightarrow> 'k \<Rightarrow> cell_type \<Rightarrow> range \<Rightarrow> u16 list \<Rightarrow> 'o response_pdu
     \<Rightarrow> ('o exception_code, 'o response_pdu) result \<times> ('k \<Rightarrow> addr_space)"
where
  "write_request known cells k ty rg vs rs =
     (if write_spec (known k) (cells k) ty rg vs = Ok ()
      then (Ok rs, cells(k := store_words rg vs (cells k)))
      else (Err IllegalDataAddress, cells))"

definition answer_spec ::
  "(unit_id \<Rightarrow> 'o function_code \<Rightarrow> 't) \<Rightarrow> unit_id \<Rightarrow> 'o request_pdu \<Rightarrow> ('t key \<Rightarrow> bool)
     \<Rightarrow> ('t key \<Rightarrow> addr_space) \<Rightarrow> ('o exception_code, 'o response_pdu) result \<times> ('t key \<Rightarrow> addr_space)"
where
  "answer_spec keyf slave request known cells =
     (let key = (\<lambda>fc. Key (keyf slave fc));
          rd = (\<lambda>fc ty a n f. (map_sum (\<lambda>e. e) f (read_request known cells (key fc) ty (span a (unat n))), cells))
      in case request of
        RqReadCoils a n \<Rightarrow> rd FC_ReadCoils Coil a n (\<lambda>v. RsReadCoils (map word_coil v))
      | RqReadDiscreteInputs a n \<Rightarrow>
          rd FC_ReadDiscreteInputs Coil a n (\<lambda>v. RsReadDiscreteInputs (map word_coil v))
      | RqReadHoldingRegisters a n \<Rightarrow> rd FC_ReadHoldingRegisters Register a n RsReadHoldingRegisters
      | RqReadInputRegisters a n \<Rightarrow> rd FC_ReadInputRegisters Register a n RsReadInputRegisters
      | RqWriteSingleCoil a b \<Rightarrow>
          write_request known cells (key FC_WriteSingleCoil) Coil (span a 1) [coil_word b] (RsWriteSingleCoil a b)
      | RqWriteSingleRegister a v \<Rightarrow>
          write_request known cells (key FC_WriteSingleRegister) Register (span a 1) [v] (RsWriteSingleRegister a v)
      | RqWriteMultipleCoils a cs \<Rightarrow>
          write_request known cells (key FC_WriteMultipleCoils) Coil (span a (length cs)) (map coil_word cs)
            (RsWriteMultipleCoils a (of_nat (length cs)))
      | RqWriteMultipleRegisters a vs \<Rightarrow>
          write_request known cells (key FC_WriteMultipleRegisters) Register (span a (length vs)) vs
            (RsWriteMultipleRegisters a (of_nat (length vs)))
      | RqReadWriteMultipleRegisters ra n wa vs \<Rightarrow>
          (case read_request known cells (key FC_ReadWriteMultipleRegisters) Register (span ra (unat n)) of
             Err e \<Rightarrow> (Err e, cells)
           | Ok v \<Rightarrow>
               write_request known cells (key FC_ReadWriteMultipleRegisters) Register (span wa (length vs)) vs
                 (RsReadWriteMultipleRegisters v))
      | RqOther _ \<Rightarrow> (Err IllegalFunction, cells))"

text \<open>What an answered request leaves behind, whatever its log and reports.\<close>

definition answers ::
  "('e, 'a) result \<times> ('k \<Rightarrow> addr_space) \<Rightarrow> 'k memory
     \<Rightarrow> (('e, 'a) result \<times> 'k memory \<times> 'k store_write list \<times> 'l log) option \<Rightarrow> bool"
where
  "answers spec mem r \<longleftrightarrow>
     (\<exists>mem' reports log. r = Some (fst spec, mem', reports, log) \<and> wf_memory mem' \<and>
        contains_key mem' = contains_key mem \<and> m_tap mem' = m_tap mem \<and> mem_cells mem' = snd spec)"

lemma handle_read_eq:
  assumes "wf_memory mem"
  shows "answers (map_sum (\<lambda>e. e) f (read_request (contains_key mem) (mem_cells mem) (Key (keyf slave fc)) ty
      (span a (unat n))), mem_cells mem) mem
    (read_answer mem f (handle_read keyf name slave fc ty a n mem verbose))"
  using assms unat_u16_less [of n]
  by (auto simp: answers_def read_answer_def handle_read_def read_request_def panic_free Let_def
      split: sum.splits)

lemma handle_write_multi_eq:
  assumes "wf_memory mem" "length vs < 65536"
  shows "answers (write_request (contains_key mem) (mem_cells mem) (Key (keyf slave fc)) ty
      (span a (length vs)) vs (f (of_nat (length vs)))) mem
    (write_answer f (handle_write_multi keyf name slave fc ty a vs mem verbose))"
proof -
  let ?k = "Key (keyf slave fc)" and ?rg = "span a (length vs)"
  obtain mem' where "write_from mem Remote ?k ty ?rg vs =
      Some (write_spec (contains_key mem ?k) (mem_cells mem ?k) ty ?rg vs, mem',
        if write_spec (contains_key mem ?k) (mem_cells mem ?k) ty ?rg vs = Ok ()
        then write_reports mem Remote ?k ?rg vs else [])"
      "wf_memory mem'" "contains_key mem' = contains_key mem" "m_tap mem' = m_tap mem"
      "mem_cells mem' = (if write_spec (contains_key mem ?k) (mem_cells mem ?k) ty ?rg vs = Ok ()
        then (mem_cells mem)(?k := store_words ?rg vs (mem_cells mem ?k)) else mem_cells mem)"
    using write_from_store [OF assms(1) wf_span [OF assms(2)], of Remote ?k ty a vs] by blast
  then show ?thesis
    using assms(2)
    by (cases "write_spec (contains_key mem ?k) (mem_cells mem ?k) ty ?rg vs")
      (auto simp: answers_def write_answer_def handle_write_multi_def write_request_def panic_free Let_def)
qed

lemma handle_write_single_eq:
  assumes "wf_memory mem"
  shows "answers (write_request (contains_key mem) (mem_cells mem) (Key (keyf slave fc)) ty
      (span a 1) [w] rs) mem
    (write_answer (\<lambda>_. rs) (handle_write_single keyf name slave fc ty a v w mem verbose))"
proof -
  let ?k = "Key (keyf slave fc)" and ?rg = "span a 1"
  obtain mem' where "write_from mem Remote ?k ty ?rg [w] =
      Some (write_spec (contains_key mem ?k) (mem_cells mem ?k) ty ?rg [w], mem',
        if write_spec (contains_key mem ?k) (mem_cells mem ?k) ty ?rg [w] = Ok ()
        then write_reports mem Remote ?k ?rg [w] else [])"
      "wf_memory mem'" "contains_key mem' = contains_key mem" "m_tap mem' = m_tap mem"
      "mem_cells mem' = (if write_spec (contains_key mem ?k) (mem_cells mem ?k) ty ?rg [w] = Ok ()
        then (mem_cells mem)(?k := store_words ?rg [w] (mem_cells mem ?k)) else mem_cells mem)"
    using write_from_store [OF assms wf_span, of 1 Remote ?k ty a "[w]"] by auto
  then show ?thesis
    by (cases "write_spec (contains_key mem ?k) (mem_cells mem ?k) ty ?rg [w]")
      (auto simp: answers_def write_answer_def handle_write_single_def write_request_def panic_free Let_def
        simp del: One_nat_def)
qed

lemma handle_read_write_eq:
  assumes "wf_memory mem" "length vs < 65536"
  shows "answers (answer_spec keyf slave (RqReadWriteMultipleRegisters ra n wa vs) (contains_key mem) (mem_cells mem))
    mem (handle_read_write keyf slave ra n wa vs mem verbose)"
proof -
  let ?k = "Key (keyf slave FC_ReadWriteMultipleRegisters)" and ?rd = "span ra (unat n)" and ?wr = "span wa (length vs)"
  obtain mem' where w: "write_from mem Remote ?k Register ?wr vs =
      Some (write_spec (contains_key mem ?k) (mem_cells mem ?k) Register ?wr vs, mem',
        if write_spec (contains_key mem ?k) (mem_cells mem ?k) Register ?wr vs = Ok ()
        then write_reports mem Remote ?k ?wr vs else [])"
      "wf_memory mem'" "contains_key mem' = contains_key mem" "m_tap mem' = m_tap mem"
      "mem_cells mem' = (if write_spec (contains_key mem ?k) (mem_cells mem ?k) Register ?wr vs = Ok ()
        then (mem_cells mem)(?k := store_words ?wr vs (mem_cells mem ?k)) else mem_cells mem)"
    using write_from_store [OF assms(1) wf_span [OF assms(2)], of Remote ?k Register wa vs] by blast
  have len: "r_end ?wr - r_start ?wr = length vs" by (simp add: span_def)
  have rd: "wf_range ?rd" using unat_u16_less by simp
  show ?thesis
  proof (cases "contains_key mem ?k \<and> holds_on (accepts_read Register) (mem_cells mem ?k) ?rd \<and>
      holds_on (accepts_write Register) (mem_cells mem ?k) ?wr")
    case True
    with w len assms rd unat_u16_less [of n] show ?thesis
      by (simp add: answers_def handle_read_write_def read_write_locked_def answer_spec_def read_request_def
          write_request_def panic_free Let_def read_spec_def write_spec_def)
  next
    case False
    with len assms rd unat_u16_less [of n] show ?thesis
      by (auto simp: answers_def handle_read_write_def read_write_locked_def answer_spec_def read_request_def
          write_request_def panic_free Let_def read_spec_def write_spec_def)
  qed
qed

lemma answer_request_eq:
  assumes "wf_memory mem" "request_sized request"
  shows "answers (answer_spec keyf slave request (contains_key mem) (mem_cells mem)) mem
    (answer_request keyf fn_of slave request mem verbose)"
proof (cases request)
  case (RqWriteMultipleCoils a cs)
  with handle_write_multi_eq [OF assms(1), of "map coil_word cs" keyf slave FC_WriteMultipleCoils Coil a
      "RsWriteMultipleCoils a"] assms(2) show ?thesis
    by (simp add: answer_spec_def answer_request_def Let_def)
next
  case (RqWriteMultipleRegisters a vs)
  with handle_write_multi_eq [OF assms(1), of vs keyf slave FC_WriteMultipleRegisters Register a
      "RsWriteMultipleRegisters a"] assms(2) show ?thesis
    by (simp add: answer_spec_def answer_request_def Let_def)
next
  case (RqReadWriteMultipleRegisters ra n wa vs)
  with handle_read_write_eq [OF assms(1)] assms(2) show ?thesis by (simp add: answer_request_def)
next
  case (RqOther x)
  with assms(1) show ?thesis by (simp add: answer_spec_def answer_request_def answers_def)
qed (simp_all add: answer_spec_def answer_request_def Let_def
      handle_read_eq [OF assms(1)] handle_write_single_eq [OF assms(1)] del: One_nat_def)

text \<open>The silence rule on top of an answer.\<close>

definition silenced ::
  "bool \<Rightarrow> ('o exception_code, 'a) result \<Rightarrow> ('o exception_code, 'a option) result"
where
  "silenced mute res =
     (case res of
        Ok pdu \<Rightarrow> Ok (Some pdu)
      | Err e \<Rightarrow> if e = IllegalDataAddress \<and> mute then Ok None else Err e)"

lemma no_region_cong: "contains_key mem' = contains_key mem \<Longrightarrow>
    slave_has_no_region kinds slave mem' = slave_has_no_region kinds slave mem"
  by (simp add: slave_has_no_region_def)

lemma handle_request_eq:
  assumes "wf_memory mem" "request_sized request"
  shows "answers (map_prod (silenced (physical_serial \<and> slave_has_no_region kinds slave mem)) (\<lambda>c. c)
      (answer_spec keyf slave request (contains_key mem) (mem_cells mem))) mem
    (handle_request keyf kinds fn_of slave request mem verbose physical_serial)"
proof -
  obtain res mem' reports log where r: "answer_request keyf fn_of slave request mem verbose = Some (res, mem', reports, log)"
      "res = fst (answer_spec keyf slave request (contains_key mem) (mem_cells mem))"
      "wf_memory mem'" "contains_key mem' = contains_key mem" "m_tap mem' = m_tap mem"
      "mem_cells mem' = snd (answer_spec keyf slave request (contains_key mem) (mem_cells mem))"
    using answer_request_eq [OF assms, of keyf slave fn_of verbose] by (auto simp: answers_def)
  have "handle_request keyf kinds fn_of slave request mem verbose physical_serial =
      Some (silenced (physical_serial \<and> slave_has_no_region kinds slave mem) res, mem', reports, log)"
    using r(1) no_region_cong [OF r(4)]
    by (auto simp: handle_request_def silenced_def split: sum.splits exception_code.splits)
  with r show ?thesis by (simp add: answers_def map_prod_def split_beta)
qed

section \<open>What a request reads and changes\<close>

lemma write_request_other: "k' \<noteq> k \<Longrightarrow> snd (write_request known cells k ty rg vs rs) k' = cells k'"
  by (simp add: write_request_def)

lemma answer_spec_changes:
  assumes "\<And>fc. k \<noteq> Key (keyf slave fc)"
  shows "snd (answer_spec keyf slave request known cells) k = cells k"
  using assms by (cases request)
    (auto simp: answer_spec_def Let_def write_request_other split: sum.splits)

lemma answer_spec_reads:
  assumes "\<And>fc. cells (Key (keyf slave fc)) = cells' (Key (keyf slave fc))"
  shows "fst (answer_spec keyf slave request known cells) = fst (answer_spec keyf slave request known cells')"
  by (cases request) (auto simp: answer_spec_def Let_def read_request_def write_request_def assms split: sum.splits)

context key_params
begin

text \<open>Under any keying scheme, a request to one slave leaves the answers for another as they were.\<close>

lemma slaves_independent:
  assumes "s \<noteq> s'"
  shows "fst (answer_spec slave_fn s' rq' known (snd (answer_spec slave_fn s rq known cells))) =
         fst (answer_spec slave_fn s' rq' known cells)"
proof (rule answer_spec_reads)
  fix fc
  have "Key (slave_fn s' fc) \<noteq> Key (slave_fn s fc')" for fc'
    using slave_fn_inj [OF assms [symmetric], of fc fc'] by simp
  then show "snd (answer_spec slave_fn s rq known cells) (Key (slave_fn s' fc)) = cells (Key (slave_fn s' fc))"
    by (rule answer_spec_changes)
qed

text \<open>A slave without any declared region is refused every address.\<close>

lemma no_region_refused:
  assumes "slave_has_no_region all_kinds s mem"
  shows "fst (answer_spec slave_fn s rq (contains_key mem) cells) =
    (case rq of RqOther _ \<Rightarrow> Err IllegalFunction | _ \<Rightarrow> Err IllegalDataAddress)"
proof -
  have "\<not> contains_key mem (Key (slave_fn s fc))" for fc
    using assms listed [of s fc] by (auto simp: slave_has_no_region_def list_all_iff)
  then show ?thesis
    by (cases rq) (auto simp: answer_spec_def Let_def read_request_def read_spec_def write_request_def
        write_spec_def)
qed

end

section \<open>Every step stays within reachable stores\<close>

lemma write_from_step:
  "wf_range rg \<Longrightarrow> write_from mem src k ty rg vs = Some (res, mem', reports) \<Longrightarrow>
     store_reachable mem \<Longrightarrow> store_reachable mem'"
  by (rule store_reachable.step [OF _ store_step.writes_from])

lemma read_write_locked_reachable:
  assumes "wf_range wr" "read_write_locked mem key rd wr vs = Some (outcome, mem', reports)"
    "store_reachable mem"
  shows "store_reachable mem'"
  using assms(2,3) write_from_step [OF assms(1), of mem Remote key Register vs]
  by (auto simp: read_write_locked_def split: sum.split_asm Option.bind_split_asm)

lemma answer_request_reachable:
  assumes "store_reachable mem" "request_sized request"
    "answer_request keyf fn_of slave request mem verbose = Some (res, mem', reports, log)"
  shows "store_reachable mem'"
proof -
  have rg: "n < 65536 \<Longrightarrow> range_new (unat a) n = Some rg \<Longrightarrow> wf_range rg" for a :: u16 and n rg
    by (auto simp: panic_free)
  have step: "store_reachable mem'" if "range_new (unat a) n = Some rg" "n < 65536"
      "write_from mem Remote k ty rg vs = Some (r, mem', ev)" for a :: u16 and n rg k ty vs r ev
    using write_from_step [OF rg [OF that(2,1)] that(3) assms(1)] .
  show ?thesis
    using assms
  proof (cases request)
    case (RqReadWriteMultipleRegisters ra n wa vs)
    then show ?thesis
      using assms read_write_locked_reachable [OF wf_span]
      by (auto simp: answer_request_def handle_read_write_def panic_free Let_def
          unat_u16_less split: rw_outcome.split_asm Option.bind_split_asm)
  qed (auto simp: answer_request_def read_answer_def write_answer_def handle_read_def handle_write_multi_def
      handle_write_single_def Let_def intro: step
      split: sum.split_asm Option.bind_split_asm simp del: One_nat_def)
qed

lemma handle_request_reachable:
  assumes "store_reachable mem" "request_sized request"
    "handle_request keyf kinds fn_of slave request mem verbose ps = Some (res, mem', reports, log)"
  shows "store_reachable mem'"
  using answer_request_reachable [OF assms(1,2)] assms(3)
  by (auto simp: handle_request_def bind_eq_Some_conv Let_def)

section \<open>Reading back a write\<close>

text \<open>The read request that covers what a write request stored, and the response it should get.\<close>

fun read_back :: "'o request_pdu \<Rightarrow> ('o request_pdu \<times> 'o response_pdu) option" where
  "read_back (RqWriteMultipleRegisters a vs) =
     Some (RqReadHoldingRegisters a (of_nat (length vs)), RsReadHoldingRegisters vs)"
| "read_back (RqWriteSingleRegister a v) = Some (RqReadHoldingRegisters a 1, RsReadHoldingRegisters [v])"
| "read_back (RqWriteMultipleCoils a cs) = Some (RqReadCoils a (of_nat (length cs)), RsReadCoils cs)"
| "read_back (RqWriteSingleCoil a b) = Some (RqReadCoils a 1, RsReadCoils [b])"
| "read_back _ = None"

lemma unat_len [simp]: "n < 65536 \<Longrightarrow> unat (of_nat n :: u16) = n"
  by (simp add: unat_of_nat unsigned_of_nat take_bit_nat_eq_self)

lemma word_coil_word [simp]: "word_coil (coil_word b) = b"
  by (simp add: word_coil_def coil_word_def)

lemma coil_words_back [simp]: "map (word_coil \<circ> coil_word) cs = cs"
  by (induction cs) simp_all

lemma read_after_write_request:
  fixes rs :: "'o response_pdu"
  assumes "fst (write_request known cells k ty rg vs rs) = Ok ack"
    "read_request known cells k ty rg = (Ok v :: ('o exception_code, u16 list) result)"
  shows "read_request known (snd (write_request known cells k ty rg vs rs)) k ty rg =
    (Ok vs :: ('o exception_code, u16 list) result)"
proof -
  have w: "write_spec (known k) (cells k) ty rg vs = Ok ()"
    using assms(1) by (simp add: write_request_def split: if_splits)
  have r: "known k" "holds_on (accepts_read ty) (cells k) rg"
    using assms(2) by (auto simp: read_request_def read_spec_def split: if_splits)
  have "length vs = r_end rg - r_start rg" using w by (auto simp: write_spec_def split: if_splits)
  with words_of_store_words_same [OF r(2), of vs] r w show ?thesis
    by (simp add: write_request_def read_request_def read_spec_def)
qed

lemma coils_after_write_request:
  fixes rs :: "'o response_pdu"
  assumes "fst (write_request known cells k ty rg (map coil_word bs) rs) = Ok ack"
    "read_request known cells k ty rg = (Ok v :: ('o exception_code, u16 list) result)"
  shows "\<exists>x. read_request known (snd (write_request known cells k ty rg (map coil_word bs) rs)) k ty rg =
    (Ok x :: ('o exception_code, u16 list) result) \<and> bs = map word_coil x"
  using read_after_write_request [OF assms(1,2)] by simp

lemmas coil_after_write_request = coils_after_write_request [where bs = "[b]" for b, unfolded list.map]

lemma map_sum_Ok: "map_sum f g r = Ok y \<longleftrightarrow> (\<exists>x. r = Ok x \<and> y = g x)"
  by (cases r) auto

lemma read_back_spec:
  assumes "read_back w = Some (r, rs)" "request_sized w"
    "fst (answer_spec from_slave_fn s w known cells) = Ok ack"
    "fst (answer_spec from_slave_fn s r known cells) = Ok v"
  shows "fst (answer_spec from_slave_fn s r known (snd (answer_spec from_slave_fn s w known cells))) = Ok rs"
  using assms
  by (cases w) (auto simp: answer_spec_def Let_def from_slave_fn_def map_sum_Ok
      dest: read_after_write_request intro: coils_after_write_request coil_after_write_request simp del: One_nat_def)

text \<open>The answer of a request as an equation on its result.\<close>

lemma handled:
  assumes "wf_memory mem" "request_sized rq"
    "handle_request keyf kinds fn_of slave rq mem verbose ps = Some (res, mem', reports, log)"
  shows "res = silenced (ps \<and> slave_has_no_region kinds slave mem)
           (fst (answer_spec keyf slave rq (contains_key mem) (mem_cells mem)))"
    and "mem_cells mem' = snd (answer_spec keyf slave rq (contains_key mem) (mem_cells mem))"
    and "contains_key mem' = contains_key mem" and "wf_memory mem'"
  using handle_request_eq [OF assms(1,2), of ps kinds slave keyf fn_of verbose] assms(3)
  by (auto simp: answers_def)

lemma handled_fst:
  assumes "wf_memory mem" "request_sized rq"
  shows "map_option fst (handle_request keyf kinds fn_of slave rq mem verbose ps) =
    Some (silenced (ps \<and> slave_has_no_region kinds slave mem)
           (fst (answer_spec keyf slave rq (contains_key mem) (mem_cells mem))))"
  using handle_request_eq [OF assms, of ps kinds slave keyf fn_of verbose] by (auto simp: answers_def)

lemma silenced_Some [simp]: "silenced m r = Ok (Some x) \<longleftrightarrow> r = Ok x"
  by (auto simp: silenced_def split: sum.splits)

lemma silenced_None: "silenced m r = Ok None \<longleftrightarrow> m \<and> r = Err IllegalDataAddress"
  by (auto simp: silenced_def split: sum.splits)

lemma read_back_sized: "read_back w = Some (r, rs) \<Longrightarrow> request_sized r"
  by (cases w) auto

section \<open>Properties\<close>

text \<open>
  The store the witnesses use: slave 1 with four holding registers at addresses 0 to 3 that hold
  10 to 13.
\<close>

definition demo_key :: "slave_key key" where
  "demo_key = Key \<lparr>sk_slave_id = 1, sk_kind = HoldingRegister\<rparr>"

definition demo_unit :: "slave_key key memory" where
  "demo_unit = demo_at demo_key"

lemma demo_unit_reachable: "store_reachable demo_unit"
  unfolding demo_unit_def by (rule demo_at_reachable)

text \<open>
  C11. Every request is answered, without a panic, as the specification on the abstract store says:
  a read returns the words of the addressed cells, a write stores them, the combined request reads
  first and then writes, a refusal by the store is an illegal data address (or silence, on a
  serial link for a slave with no region) that changes nothing, and any other function is illegal.
  The store stays reachable and its regions stay the same.
\<close>

theorem handle_request_refines:
  assumes "store_reachable mem" "request_sized request"
  shows "\<exists>mem' reports log.
    handle_request from_slave_fn all_kinds_for fn_of slave request mem verbose physical_serial =
      Some (silenced (physical_serial \<and> slave_has_no_region all_kinds_for slave mem)
              (fst (answer_spec from_slave_fn slave request (contains_key mem) (mem_cells mem))),
            mem', reports, log) \<and>
    store_reachable mem' \<and> contains_key mem' = contains_key mem \<and>
    mem_cells mem' = snd (answer_spec from_slave_fn slave request (contains_key mem) (mem_cells mem))"
proof -
  obtain mem' reports log where r:
      "handle_request from_slave_fn all_kinds_for fn_of slave request mem verbose physical_serial =
        Some (silenced (physical_serial \<and> slave_has_no_region all_kinds_for slave mem)
          (fst (answer_spec from_slave_fn slave request (contains_key mem) (mem_cells mem))), mem', reports, log)"
      "contains_key mem' = contains_key mem"
      "mem_cells mem' = snd (answer_spec from_slave_fn slave request (contains_key mem) (mem_cells mem))"
    using handle_request_eq [OF store_reachable_wf [OF assms(1)] assms(2),
        of physical_serial all_kinds_for slave from_slave_fn fn_of verbose]
    by (auto simp: answers_def)
  from handle_request_reachable [OF assms r(1)] r show ?thesis by blast
qed

lemma demo_cell:
  assumes "a < 4"
  shows "mem_cells demo_unit demo_key a = Some (cell_from_u16 (kind_read_write Register) (of_nat (10 + a)))"
proof -
  have "a = 0 \<or> a = 1 \<or> a = 2 \<or> a = 3" using assms by auto
  then show ?thesis
    by (auto simp: mem_cells_def demo_unit_def demo_at_def demo_slices_def cell_at_def)
qed

lemma demo_holds:
  assumes "r_end rg \<le> 4" "\<And>v. P (cell_from_u16 (kind_read_write Register) v)"
  shows "holds_on P (mem_cells demo_unit demo_key) rg"
  unfolding holds_on_def
proof
  fix a assume "a \<in> set [r_start rg ..< r_end rg]"
  then have "a < 4" using assms(1) by simp
  from demo_cell [OF this] assms(2) show "\<exists>c. mem_cells demo_unit demo_key a = Some c \<and> P c" by blast
qed

theorem handle_request_refines_witness:
  "\<exists>mem' reports log.
    handle_request from_slave_fn all_kinds_for (\<lambda>_. FC_Other (0 :: nat)) 1
      (RqReadHoldingRegisters 1 2) demo_unit True True =
      Some (Ok (Some (RsReadHoldingRegisters [11, 12])), mem', reports, log)"
proof -
  let ?s = "silenced (True \<and> slave_has_no_region all_kinds_for 1 demo_unit)
      (fst (answer_spec from_slave_fn 1 (RqReadHoldingRegisters 1 2 :: nat request_pdu)
        (contains_key demo_unit) (mem_cells demo_unit)))"
  have "contains_key demo_unit (Key (from_slave_fn 1 (FC_ReadHoldingRegisters :: nat function_code)))"
    by (simp add: contains_key_def demo_unit_def demo_at_def demo_key_def from_slave_fn_def)
  moreover have "Key (from_slave_fn 1 (FC_ReadHoldingRegisters :: nat function_code)) = demo_key"
    by (simp add: demo_key_def from_slave_fn_def)
  moreover have "holds_on (accepts_read Register) (mem_cells demo_unit demo_key) (span 1 2)"
    by (rule demo_holds) (simp_all add: span_def accepts_read_def cell_from_u16_def kind_read_write_def)
  moreover have "words_of (mem_cells demo_unit demo_key) (span 1 2) = [11, 12]"
    by (simp add: words_of_def span_def demo_cell cell_from_u16_def upt_rec)
  ultimately have "?s = Ok (Some (RsReadHoldingRegisters [11, 12]))"
    by (simp add: silenced_def answer_spec_def read_request_def read_spec_def)
  then show ?thesis
    using handle_request_refines [OF demo_unit_reachable,
        of "RqReadHoldingRegisters 1 2 :: nat request_pdu" "\<lambda>_. FC_Other 0" 1 True True] by auto
qed

text \<open>
  What a write request stored, the matching read request returns: after an acknowledged write
  of registers or coils, single or multiple, the read of the same addresses (if it was answered
  before the write, so the cells are readable) is answered with exactly the written values.
\<close>

theorem write_is_read_back:
  assumes "store_reachable mem" "request_sized w" "read_back w = Some (r, rs)"
    and "handle_request from_slave_fn all_kinds_for fn_of slave w mem verbose ps = Some (Ok (Some ack), mem', reports, log)"
    and "map_option fst (handle_request from_slave_fn all_kinds_for fn_of slave r mem verbose ps) = Some (Ok (Some v))"
  shows "map_option fst (handle_request from_slave_fn all_kinds_for fn_of slave r mem' verbose ps) = Some (Ok (Some rs))"
proof -
  note wf = store_reachable_wf [OF assms(1)]
  note w = handled [OF wf assms(2,4)]
  have sized: "request_sized r" using read_back_sized [OF assms(3)] .
  have ack: "fst (answer_spec from_slave_fn slave w (contains_key mem) (mem_cells mem)) = Ok ack"
    using w(1) [symmetric] by simp
  have v: "fst (answer_spec from_slave_fn slave r (contains_key mem) (mem_cells mem)) = Ok v"
    using assms(5) by (simp add: handled_fst [OF wf sized])
  from read_back_spec [OF assms(3,2) ack v] w(2-4) show ?thesis
    by (simp add: handled_fst [OF w(4) sized])
qed

text \<open>Requests of the witnesses, over the protocol library's other variants as numbers.\<close>

definition demo_serve :: "unit_id \<Rightarrow> nat request_pdu \<Rightarrow> slave_key key memory
    \<Rightarrow> ((nat exception_code, nat response_pdu option) result \<times> slave_key key memory
         \<times> slave_key key store_write list \<times> nat server_line log) option" where
  "demo_serve slave rq mem =
     handle_request from_slave_fn all_kinds_for (\<lambda>_. FC_Other 0) slave rq mem True True"

lemma fst_SomeD: "map_option fst r = Some a \<Longrightarrow> \<exists>m ev log. r = Some (a, m, ev, log)"
  by (cases r) auto

lemma demo_served: "request_sized rq \<Longrightarrow> map_option fst (demo_serve slave rq demo_unit) =
    Some (silenced (slave_has_no_region all_kinds_for slave demo_unit)
      (fst (answer_spec from_slave_fn slave rq (contains_key demo_unit) (mem_cells demo_unit))))"
  unfolding demo_serve_def
  by (simp add: handled_fst [OF store_reachable_wf [OF demo_unit_reachable]] del: map_option_eq_Some)

lemma demo_contains: "contains_key demo_unit k \<longleftrightarrow> k = demo_key"
  by (simp add: contains_key_def demo_unit_def demo_at_def)

lemma demo_from_fn: "kind_of_fn fc = HoldingRegister \<Longrightarrow> Key (from_slave_fn 1 fc) = demo_key"
  by (simp add: demo_key_def from_slave_fn_def)

lemma demo_accepts: "r_end rg \<le> 4 \<Longrightarrow> holds_on (accepts_read Register) (mem_cells demo_unit demo_key) rg"
    "r_end rg \<le> 4 \<Longrightarrow> holds_on (accepts_write Register) (mem_cells demo_unit demo_key) rg"
  by (rule demo_holds; simp add: accepts_read_def accepts_write_def cell_from_u16_def kind_read_write_def)+

lemma demo_words: "words_of (mem_cells demo_unit demo_key) (span 1 2) = [11, 12]"
  by (simp add: words_of_def span_def demo_cell cell_from_u16_def upt_rec)

lemma demo_write: "map_option fst (demo_serve 1 (RqWriteMultipleRegisters 1 [7, 8]) demo_unit) =
    Some (Ok (Some (RsWriteMultipleRegisters 1 2)))"
  by (subst demo_served) (simp_all add: silenced_def answer_spec_def write_request_def write_spec_def
      demo_contains demo_from_fn demo_accepts span_def)

lemma demo_read: "map_option fst (demo_serve 1 (RqReadHoldingRegisters 1 2) demo_unit) =
    Some (Ok (Some (RsReadHoldingRegisters [11, 12])))"
  using demo_accepts(1) [of "span 1 2"] demo_words
  by (subst demo_served) (simp_all add: silenced_def answer_spec_def read_request_def read_spec_def
      demo_contains demo_from_fn span_def)

theorem write_is_read_back_witness:
  "\<exists>mem' ev log. demo_serve 1 (RqWriteMultipleRegisters 1 [7, 8]) demo_unit =
     Some (Ok (Some (RsWriteMultipleRegisters 1 2)), mem', ev, log) \<and>
   map_option fst (demo_serve 1 (RqReadHoldingRegisters 1 2) mem') = Some (Ok (Some (RsReadHoldingRegisters [7, 8])))"
proof -
  obtain m ev log where w: "demo_serve 1 (RqWriteMultipleRegisters 1 [7, 8]) demo_unit =
      Some (Ok (Some (RsWriteMultipleRegisters 1 2)), m, ev, log)"
    using fst_SomeD [OF demo_write] by blast
  have "map_option fst (demo_serve 1 (RqReadHoldingRegisters 1 2) m) = Some (Ok (Some (RsReadHoldingRegisters [7, 8])))"
    unfolding demo_serve_def
    by (rule write_is_read_back [OF demo_unit_reachable _ _ w [unfolded demo_serve_def] demo_read [unfolded demo_serve_def]])
      simp_all
  with w show ?thesis by blast
qed

text \<open>
  C12. Requests to different slaves do not interfere: whatever a request to one slave does, any
  request to another slave is answered as it would have been before it.
\<close>

theorem slaves_do_not_interfere:
  assumes "store_reachable mem" "request_sized rq" "request_sized rq'" "slave \<noteq> slave'"
    and "handle_request from_slave_fn all_kinds_for fn_of slave rq mem verbose ps = Some (res, mem', reports, log)"
  shows "map_option fst (handle_request from_slave_fn all_kinds_for fn_of slave' rq' mem' verbose ps) =
         map_option fst (handle_request from_slave_fn all_kinds_for fn_of slave' rq' mem verbose ps)"
proof -
  note wf = store_reachable_wf [OF assms(1)]
  note h = handled [OF wf assms(2,5)]
  show ?thesis
    unfolding handled_fst [OF wf assms(3)] handled_fst [OF h(4) assms(3)] no_region_cong [OF h(3)]
      h(2,3) sk.slaves_independent [OF assms(4)] by (rule refl)
qed

theorem slaves_do_not_interfere_witness:
  "\<exists>mem' ev log. demo_serve 1 (RqWriteMultipleRegisters 1 [7, 8]) demo_unit =
     Some (Ok (Some (RsWriteMultipleRegisters 1 2)), mem', ev, log) \<and>
   map_option fst (demo_serve 2 (RqReadHoldingRegisters 1 2) mem') =
   map_option fst (demo_serve 2 (RqReadHoldingRegisters 1 2) demo_unit)"
proof -
  obtain m ev log where w: "demo_serve 1 (RqWriteMultipleRegisters 1 [7, 8]) demo_unit =
      Some (Ok (Some (RsWriteMultipleRegisters 1 2)), m, ev, log)"
    using fst_SomeD [OF demo_write] by blast
  have "map_option fst (demo_serve 2 (RqReadHoldingRegisters 1 2) m) =
      map_option fst (demo_serve 2 (RqReadHoldingRegisters 1 2) demo_unit)"
    unfolding demo_serve_def
    by (rule slaves_do_not_interfere [OF demo_unit_reachable _ _ _ w [unfolded demo_serve_def]]) simp_all
  with w show ?thesis by blast
qed



text \<open>
  The server stays silent exactly when it is on a physical serial link, the addressed slave has
  no declared region in any table, and the function is one it implements.
\<close>

theorem silent_iff_unknown_slave:
  assumes "store_reachable mem" "request_sized request"
  shows "map_option fst (handle_request from_slave_fn all_kinds_for fn_of slave request mem verbose ps) = Some (Ok None) \<longleftrightarrow>
    ps \<and> slave_has_no_region all_kinds_for slave mem \<and> (\<forall>x. request \<noteq> RqOther x)"
  unfolding handled_fst [OF store_reachable_wf [OF assms(1)] assms(2)]
  using sk.no_region_refused [of slave mem request "mem_cells mem"]
  by (cases request) (auto simp: silenced_None answer_spec_def)

theorem silent_iff_unknown_slave_witness:
  "map_option fst (demo_serve 2 (RqReadHoldingRegisters 1 2) demo_unit) = Some (Ok None) \<and>
   map_option fst (demo_serve 1 (RqReadHoldingRegisters 9 2) demo_unit) \<noteq> Some (Ok None)"
proof -
  have "slave_has_no_region all_kinds_for 2 demo_unit" "\<not> slave_has_no_region all_kinds_for 1 demo_unit"
    by (simp_all add: slave_has_no_region_def all_kinds_for_def demo_contains demo_key_def)
  then show ?thesis
    unfolding demo_serve_def
    using silent_iff_unknown_slave [OF demo_unit_reachable, of "RqReadHoldingRegisters 1 2 :: nat request_pdu"]
      silent_iff_unknown_slave [OF demo_unit_reachable, of "RqReadHoldingRegisters 9 2 :: nat request_pdu"]
    by simp
qed

end
