(* ===== verification/Modbus_Serve_Properties.thy ===== *)
theory Modbus_Serve_Properties
  imports Modbus_Serve Modbus_Server_Properties
begin

text \<open>
  Properties of the server tasks: a serving loop never panics and returns once the library's does;
  the backoff is reset exactly after useful work; whatever happens, a task between attempts is not
  bound, has its port closed, and its store is reachable; configuration errors end it at once.
\<close>

section \<open>Serving loops\<close>

fun event_sized :: "('o, 'e, 'a, 'd) serve_event \<Rightarrow> bool" where
  "event_sized (SvCallback (EvRequest u rq)) \<longleftrightarrow> request_sized rq"
| "event_sized _ \<longleftrightarrow> True"

fun triggers :: "reset_on \<Rightarrow> ('o, 'e, 'a, 'd) serve_event \<Rightarrow> bool" where
  "triggers OnConnect (SvCallback (EvConnect p)) \<longleftrightarrow> True"
| "triggers OnRequest (SvCallback (EvRequest u rq)) \<longleftrightarrow> True"
| "triggers _ _ \<longleftrightarrow> False"

fun is_returned :: "('o, 'e, 'a, 'd) serve_event \<Rightarrow> bool" where
  "is_returned (SvReturned r) \<longleftrightarrow> True"
| "is_returned _ \<longleftrightarrow> False"

text \<open>Whether the loop did something useful before it ended.\<close>

definition useful :: "reset_on \<Rightarrow> ('o, 'e, 'a, 'd) serve_event list \<Rightarrow> bool" where
  "useful on evs \<longleftrightarrow> list_ex (triggers on) (takeWhile (\<lambda>e. \<not> is_returned e) evs)"

lemma useful_Cons: "\<not> is_returned e \<Longrightarrow> useful on (e # evs) \<longleftrightarrow> triggers on e \<or> useful on evs"
  by (simp add: useful_def)

lemma useful_end [simp]: "\<not> useful on (SvReturned r # evs)"
  by (simp add: useful_def)

lemma on_request_total:
  assumes "store_reachable (sv_memory sv)" "request_sized rq"
  shows "\<exists>res sv'. on_request keyf kinds fn_of u rq sv = Some (res, sv') \<and>
    store_reachable (sv_memory sv') \<and> sv_reset_on sv' = sv_reset_on sv \<and>
    sv_activity sv' = (sv_activity sv \<or> sv_reset_on sv = OnRequest)"
proof -
  obtain res mem reports log where r:
      "handle_request keyf kinds fn_of u rq (sv_memory sv) (sv_verbose sv) (sv_physical_serial sv) =
        Some (res, mem, reports, log)"
    using handle_request_eq [OF store_reachable_wf [OF assms(1)] assms(2)] by (fastforce simp: answers_def)
  from handle_request_reachable [OF assms r] r show ?thesis
    by (auto simp: on_request_def datagram_arrived_def Let_def)
qed

lemma serve_callback_total:
  assumes "store_reachable (sv_memory sv)" "event_sized (SvCallback ev)"
  shows "\<exists>sv'. serve_callback lib ev sv = Some sv' \<and> store_reachable (sv_memory sv') \<and>
    sv_reset_on sv' = sv_reset_on sv \<and>
    sv_activity sv' = (sv_activity sv \<or> triggers (sv_reset_on sv) (SvCallback ev))"
proof (cases ev)
  case (EvRequest u rq)
  with assms on_request_total [of sv rq "lib_key lib" "lib_kinds lib" "lib_function lib" u] show ?thesis
    by (cases "sv_reset_on sv") (auto simp: serve_callback_def)
qed (use assms in \<open>cases "sv_reset_on sv"; simp add: serve_callback_def on_connect_def on_disconnect_def
      on_listener_accept_error_def on_receive_error_def on_error_def on_tls_handshake_failed_def sv_logged_def
      datagram_arrived_def Let_def split: option.split\<close>)+

lemma drain_serve_total:
  assumes "store_reachable (sv_memory sv)" "list_all event_sized evs" "list_ex is_returned evs"
  shows "\<exists>sv'. drain_serve lib evs sv = Some sv' \<and> store_reachable (sv_memory sv') \<and>
    sv_activity sv' = (sv_activity sv \<or> useful (sv_reset_on sv) evs)"
  using assms
proof (induction lib evs sv rule: drain_serve.induct)
  case (3 lib c evs sv)
  then show ?case by (cases "sv_reset_on sv") (simp_all add: useful_Cons)
next
  case (4 lib ev evs sv)
  obtain sv1 where s: "serve_callback lib ev sv = Some sv1" "store_reachable (sv_memory sv1)"
      "sv_reset_on sv1 = sv_reset_on sv"
      "sv_activity sv1 = (sv_activity sv \<or> triggers (sv_reset_on sv) (SvCallback ev))"
    using serve_callback_total [OF 4(2), of ev lib] 4(3) by auto
  with 4(1) [OF s(1)] 4(3,4) show ?case by (auto simp: useful_Cons)
qed simp_all

lemma drive_serve_total:
  assumes "store_reachable (sv_memory sv)" "list_all event_sized evs" "list_ex is_returned evs"
  shows "\<exists>e sv'. drive_serve lib evs sv = Some (e, sv') \<and> store_reachable (sv_memory sv') \<and>
    sv_activity sv' = (sv_activity sv \<or> useful (sv_reset_on sv) evs)"
  using assms
proof (induction lib evs sv rule: drive_serve.induct)
  case (3 lib c evs sv)
  then have "c = None \<or> c = Some ServerTerminate"
    using server_command.exhaust by (cases c) auto
  with 3(2-4) drain_serve_total [of sv evs lib] show ?case
    by (cases "sv_reset_on sv") (auto simp: useful_Cons)
next
  case (4 lib ev evs sv)
  obtain sv1 where s: "serve_callback lib ev sv = Some sv1" "store_reachable (sv_memory sv1)"
      "sv_reset_on sv1 = sv_reset_on sv"
      "sv_activity sv1 = (sv_activity sv \<or> triggers (sv_reset_on sv) (SvCallback ev))"
    using serve_callback_total [OF 4(2), of ev lib] 4(3) by auto
  with 4(1) [OF s(1)] 4(3,4) show ?case by (auto simp: useful_Cons)
qed simp_all

lemma drain_serve_returned: "drain_serve lib evs sv = Some sv' \<Longrightarrow> list_ex is_returned evs"
  by (induction lib evs sv rule: drain_serve.induct) (auto simp: bind_eq_Some_conv)

lemma drive_serve_returned: "drive_serve lib evs sv = Some (e, sv') \<Longrightarrow> list_ex is_returned evs"
  by (induction lib evs sv rule: drive_serve.induct)
    (auto simp: bind_eq_Some_conv dest: drain_serve_returned split: if_splits)

section \<open>Tasks between attempts\<close>

definition quiet :: "('t, 'o, 'e, 'a, 'd) serve_task \<Rightarrow> bool" where
  "quiet tk \<longleftrightarrow> tk_bound tk = None \<and> \<not> tk_open tk \<and> store_reachable (tk_memory tk)"

lemma serve_with_result:
  assumes "serve_with lib verbose ps on evs tk = Some (e, tk')" "list_all event_sized evs"
    "store_reachable (tk_memory tk)"
  shows "store_reachable (tk_memory tk') \<and> tk_bound tk' = tk_bound tk \<and> tk_open tk' = tk_open tk \<and>
    tk_status tk' = tk_status tk \<and> tk_activity tk' = (tk_activity tk \<or> useful on evs)"
proof -
  let ?sv = "with_reset_on (tk_activity tk) on (server_new (tk_memory tk) verbose ps)"
  obtain sv where sv: "drive_serve lib evs ?sv = Some (e, sv)"
      "tk' = tk\<lparr>tk_memory := sv_memory sv, tk_activity := sv_activity sv,
         tk_log := tk_log tk @ sv_log sv, tk_reports := tk_reports tk @ sv_reports sv\<rparr>"
    using assms(1) by (auto simp: serve_with_def bind_eq_Some_conv)
  have "store_reachable (sv_memory ?sv)" using assms(3) by (simp add: with_reset_on_def server_new_def)
  from drive_serve_total [OF this assms(2) drive_serve_returned [OF sv(1)], of lib] sv show ?thesis
    by (auto simp: with_reset_on_def server_new_def)
qed

text \<open>The contract the retry loop relies on, for every transport's attempt.\<close>

locale served_attempt =
  fixes attempt :: "'i \<Rightarrow> ('t, 'o, 'e, 'a, 'd) serve_task
      \<Rightarrow> (('o, 'e) mb_err attempt_outcome \<times> ('t, 'o, 'e, 'a, 'd) serve_task) option"
    and admissible :: "'i \<Rightarrow> bool"
  assumes keeps_quiet: "admissible i \<Longrightarrow> quiet tk \<Longrightarrow> attempt i tk = Some (out, tk') \<Longrightarrow> quiet tk'"
    and keeps_status: "admissible i \<Longrightarrow> quiet tk \<Longrightarrow> attempt i tk = Some (out, tk') \<Longrightarrow> tk_status tk' = tk_status tk"
begin

lemma run_result:
  assumes "\<forall>(i, w) \<in> set env. admissible i" "quiet tk" "run_server_task attempt env tk = Some (r, tk')"
  shows "quiet tk' \<and> tk_status tk' = tk_status tk @ (case r of Returned _ \<Rightarrow> [(Info, ''Server stopped'')] | Running _ \<Rightarrow> [])"
proof -
  obtain tk1 where run: "backoff_run backoff_policy_default attempt (\<lambda>w d s. (wait_reconnect_backoff w, s))
      (bp_initial backoff_policy_default) env tk = Some (r, tk1)"
      "tk' = (case r of Returned _ \<Rightarrow> tk1\<lparr>tk_status := tk_status tk1 @ [(Info, ''Server stopped'')]\<rparr> | Running _ \<Rightarrow> tk1)"
    using assms(3) by (auto simp: run_server_task_def bind_eq_Some_conv)
  have "quiet tk1 \<and> tk_status tk1 = tk_status tk"
  proof (rule backoff_run_keeps [where Q = "\<lambda>s. quiet s \<and> tk_status s = tk_status tk", OF _ _ run(1)])
    fix i w s out s'
    assume "(i, w) \<in> set env" and q: "quiet s \<and> tk_status s = tk_status tk" and att: "attempt i s = Some (out, s')"
    then have "admissible i" using assms(1) by auto
    from keeps_quiet [OF this _ att] keeps_status [OF this _ att] q
    show "quiet s' \<and> tk_status s' = tk_status tk" by simp
  qed (use assms(2) in simp_all)
  with run(2) show ?thesis by (cases r) (auto simp: quiet_def)
qed

end

definition tcp_admissible :: "('o, 'e, 'a, 'd) tcp_input \<Rightarrow> bool" where
  "tcp_admissible i \<longleftrightarrow> list_all event_sized (ti_events i)"

definition serial_admissible :: "('o, 'e, 'a, 'd) serial_input \<Rightarrow> bool" where
  "serial_admissible i \<longleftrightarrow> list_all event_sized (si_events i)"

lemma bind_serve_quiet:
  assumes "bind_serve lib verbose ps on reconnect addr race evs tk = Some (out, tk')"
    "list_all event_sized evs" "quiet tk"
  shows "quiet tk' \<and> tk_status tk' = tk_status tk"
proof -
  obtain bound where race: "race_terminate (\<lambda>_. True) race [] = Some (bound, [])"
    using assms(1) by (auto simp: bind_serve_def bind_eq_Some_conv split: if_splits)
  show ?thesis
  proof (cases "\<exists>b. bound = Some (Ok (Ok b))")
    case True
    then obtain b where b: "bound = Some (Ok (Ok b))" by blast
    let ?tk = "tk_logged Info (Listening b) (tk\<lparr>tk_bound := Some b\<rparr>)"
    obtain e tk1 where s: "serve_with lib verbose ps on evs ?tk = Some (e, tk1)"
        "tk' = (case e of EndFailed x \<Rightarrow> tk_logged Error (ServeFailed (AddrTarget addr) (CauseError x)) (tk1\<lparr>tk_bound := None\<rparr>)
          | _ \<Rightarrow> tk1\<lparr>tk_bound := None\<rparr>)"
      using assms(1) race b
      by (cases "serve_with lib verbose ps on evs ?tk") (auto simp: bind_serve_def Let_def split: serve_end.split_asm)
    have "store_reachable (tk_memory ?tk)" using assms(3) by (simp add: quiet_def tk_logged_def)
    from serve_with_result [OF s(1) assms(2) this] s(2) assms(3) show ?thesis
      by (auto simp: quiet_def tk_logged_def split: serve_end.split)
  next
    case False
    then show ?thesis using assms(1,3) race
      by (auto simp: bind_serve_def quiet_def tk_logged_def split: option.split_asm sum.split_asm)
  qed
qed

lemma quiet_activity [simp]: "quiet (tk\<lparr>tk_activity := a\<rparr>) = quiet tk"
  by (simp add: quiet_def)

lemma quiet_logged [simp]: "quiet (tk_logged lv l tk) = quiet tk" "tk_status (tk_logged lv l tk) = tk_status tk"
  by (simp_all add: quiet_def tk_logged_def)

lemma tcp_attempt_quiet:
  assumes "tcp_admissible i" "quiet tk" "tcp_attempt lib verbose ps i tk = Some (out, tk')"
  shows "quiet tk' \<and> tk_status tk' = tk_status tk"
  using assms bind_serve_quiet [of lib verbose ps OnConnect "ti_reconnect i" _ "ti_race i" "ti_events i" _ out tk']
  by (fastforce simp: tcp_attempt_def tcp_admissible_def Let_def
      split: option.split_asm tls_setup.split_asm sum.split_asm if_splits)

lemma udp_attempt_quiet:
  assumes "tcp_admissible i" "quiet tk" "udp_attempt lib i tk = Some (out, tk')"
  shows "quiet tk' \<and> tk_status tk' = tk_status tk"
  using assms bind_serve_quiet [of lib True False OnRequest "ti_reconnect i" _ "ti_race i" "ti_events i" _ out tk']
  by (fastforce simp: udp_attempt_def tcp_admissible_def Let_def split: option.split_asm)

lemma serial_attempt_quiet:
  assumes "serial_admissible i" "quiet tk" "serial_attempt lib defaults verbose ps i tk = Some (out, tk')"
  shows "quiet tk' \<and> tk_status tk' = tk_status tk"
proof -
  let ?tk = "tk_logged Info (SerialOpened (si_path i)) (tk\<lparr>tk_activity := False, tk_open := True\<rparr>)"
  have sv: "store_reachable (tk_memory tk1) \<and> tk_bound tk1 = None \<and> tk_status tk1 = tk_status tk"
    if "serve_with lib verbose ps OnRequest (si_events i) ?tk = Some (e, tk1)" for e tk1
    using serve_with_result [OF that] assms(1,2) by (simp add: quiet_def tk_logged_def serial_admissible_def)
  show ?thesis
  proof (cases "serve_with lib verbose ps OnRequest (si_events i) ?tk")
    case None
    then show ?thesis using assms(2,3)
      by (auto simp: serial_attempt_def Let_def
          split: sum.split_asm option.split_asm Option.bind_split_asm if_split_asm)
  next
    case (Some r)
    obtain e tk1 where r: "r = (e, tk1)" by (cases r)
    have "quiet (tk1\<lparr>tk_open := False\<rparr>) \<and> tk_status tk1 = tk_status tk"
      using sv [of e tk1] Some r by (simp add: quiet_def)
    then show ?thesis using assms(2,3) Some r
      by (cases e) (auto simp: serial_attempt_def Let_def
          split: sum.split_asm option.split_asm Option.bind_split_asm if_split_asm)
  qed
qed

interpretation tcp_served: served_attempt "tcp_attempt lib verbose ps" tcp_admissible for lib verbose ps
  by unfold_locales (auto dest: tcp_attempt_quiet)

interpretation udp_served: served_attempt "udp_attempt lib" tcp_admissible for lib
  by unfold_locales (auto dest: udp_attempt_quiet)

interpretation serial_served: served_attempt "serial_attempt lib defaults verbose ps" serial_admissible
  for lib defaults verbose ps
  by unfold_locales (auto dest: serial_attempt_quiet)

section \<open>A serving loop that ends on its own\<close>

fun is_callback :: "('o, 'e, 'a, 'd) serve_event \<Rightarrow> bool" where
  "is_callback (SvCallback ev) \<longleftrightarrow> True"
| "is_callback _ \<longleftrightarrow> False"

lemma drive_serve_ends:
  assumes "store_reachable (sv_memory sv)" "list_all is_callback pre" "list_all event_sized pre"
  shows "\<exists>sv'. drive_serve lib (pre @ [SvReturned r]) sv =
    Some (case r of Ok _ \<Rightarrow> EndEnded | Err e \<Rightarrow> EndFailed e, sv')"
  using assms
proof (induction pre arbitrary: sv)
  case (Cons x pre)
  obtain ev where ev: "x = SvCallback ev" using Cons.prems(2) by (cases x) auto
  obtain sv1 where "serve_callback lib ev sv = Some sv1" "store_reachable (sv_memory sv1)"
    using serve_callback_total [OF Cons.prems(1), of ev lib] Cons.prems(3) ev by auto
  with Cons.IH [of sv1] Cons.prems ev show ?case by simp
qed simp

lemma serve_with_ends:
  assumes "store_reachable (tk_memory tk)" "list_all is_callback pre" "list_all event_sized pre"
  shows "\<exists>tk'. serve_with lib verbose ps on (pre @ [SvReturned r]) tk =
      Some (case r of Ok _ \<Rightarrow> EndEnded | Err e \<Rightarrow> EndFailed e, tk') \<and>
    tk_activity tk' = (tk_activity tk \<or> useful on (pre @ [SvReturned r]))"
proof -
  let ?sv = "with_reset_on (tk_activity tk) on (server_new (tk_memory tk) verbose ps)"
  have "store_reachable (sv_memory ?sv)" using assms(1) by (simp add: with_reset_on_def server_new_def)
  then obtain sv' where "drive_serve lib (pre @ [SvReturned r]) ?sv =
      Some (case r of Ok _ \<Rightarrow> EndEnded | Err e \<Rightarrow> EndFailed e, sv')"
    using drive_serve_ends assms(2,3) by blast
  then obtain tk' where s: "serve_with lib verbose ps on (pre @ [SvReturned r]) tk =
      Some (case r of Ok _ \<Rightarrow> EndEnded | Err e \<Rightarrow> EndFailed e, tk')"
    by (simp add: serve_with_def)
  from serve_with_result [OF s _ assms(1)] s assms(3) show ?thesis by simp
qed

section \<open>Properties\<close>

text \<open>How a finished or interrupted run leaves its task.\<close>

definition settled ::
  "('o, 'e) mb_err run_end \<Rightarrow> ('t, 'o, 'e, 'a, 'd) serve_task \<Rightarrow> ('t, 'o, 'e, 'a, 'd) serve_task \<Rightarrow> bool"
where
  "settled r tk tk' \<longleftrightarrow>
     tk_bound tk' = None \<and> \<not> tk_open tk' \<and> store_reachable (tk_memory tk') \<and>
     tk_status tk' = tk_status tk @ (case r of Returned _ \<Rightarrow> [(Info, ''Server stopped'')] | Running _ \<Rightarrow> [])"

text \<open>
  C14. However the binds, opens, serving loops, requests and commands of a run turn out, a server
  task that is between attempts or has ended reports no bound address and no open port, its store
  is reachable, and it has said that it stopped exactly once if it has ended and not otherwise; for
  the TCP-family, UDP and serial servers alike.
\<close>

theorem server_tasks_settle:
  assumes "quiet tk" "\<forall>(i, w) \<in> set env. tcp_admissible i" "\<forall>(i, w) \<in> set senv. serial_admissible i"
  shows "(\<forall>r tk'. run_tcp_family lib verbose ps env tk = Some (r, tk') \<longrightarrow> settled r tk tk') \<and>
    (\<forall>r tk'. run_udp lib env tk = Some (r, tk') \<longrightarrow> settled r tk tk') \<and>
    (\<forall>r tk'. run_serial_family lib defaults verbose ps senv tk = Some (r, tk') \<longrightarrow> settled r tk tk')"
proof (intro conjI allI impI)
  show "settled r tk tk'" if "run_tcp_family lib verbose ps env tk = Some (r, tk')" for r tk'
    using tcp_served.run_result [OF assms(2,1)] that by (simp add: run_tcp_family_def settled_def quiet_def)
  show "settled r tk tk'" if "run_udp lib env tk = Some (r, tk')" for r tk'
    using udp_served.run_result [OF assms(2,1)] that by (simp add: run_udp_def settled_def quiet_def)
  show "settled r tk tk'" if "run_serial_family lib defaults verbose ps senv tk = Some (r, tk')" for r tk'
    using serial_served.run_result [OF assms(3,1)] that by (simp add: run_serial_family_def settled_def quiet_def)
qed

definition demo_lib :: "(slave_key, nat, nat) lib" where
  "demo_lib = \<lparr>lib_key = from_slave_fn, lib_kinds = all_kinds_for, lib_function = (\<lambda>_. FC_Other 0),
     lib_transient = (\<lambda>_. False), lib_digest = (\<lambda>c. c)\<rparr>"

definition demo_task :: "(slave_key, nat, nat, nat, nat) serve_task" where
  "demo_task = \<lparr>tk_memory = demo_unit, tk_activity = False, tk_bound = None, tk_open = False,
     tk_log = [], tk_reports = [], tk_status = []\<rparr>"

lemma demo_task_quiet: "quiet demo_task"
  by (simp add: quiet_def demo_task_def demo_unit_reachable)

definition demo_failing :: "(nat, nat, nat, nat) tcp_input" where
  "demo_failing = \<lparr>ti_reconnect = True, ti_addr = Some 1, ti_tls = NoTls,
     ti_race = [RaceReady (Ok (Ok 1))],
     ti_events = [SvCallback (EvConnect (Some 7)), SvReturned (Err (RmbOther 3))]\<rparr>"

definition demo_stopped :: "(nat, nat, nat, nat) tcp_input" where
  "demo_stopped = demo_failing\<lparr>ti_race := [RaceClosed]\<rparr>"

theorem server_tasks_settle_witness:
  "\<exists>tk'. run_tcp_family demo_lib True False [(demo_failing, None), (demo_stopped, None)] demo_task =
     Some (Returned (Ok ()), tk') \<and> settled (Returned (Ok ())) demo_task tk'"
proof -
  have "\<exists>tk'. run_tcp_family demo_lib True False [(demo_failing, None), (demo_stopped, None)] demo_task =
      Some (Returned (Ok ()), tk')"
    by (simp add: run_tcp_family_def run_server_task_def tcp_attempt_def demo_failing_def demo_stopped_def
        bind_serve_def serve_with_def serve_callback_def on_connect_def with_reset_on_def server_new_def
        sv_logged_def wait_reconnect_backoff_def panic_free backoff_policy_default_def from_secs_def
        duration_max_def tk_logged_def demo_task_def)
  then obtain tk' where run: "run_tcp_family demo_lib True False [(demo_failing, None), (demo_stopped, None)] demo_task =
      Some (Returned (Ok ()), tk')" by blast
  have "\<forall>(i, w) \<in> set [(demo_failing, None :: server_command option option), (demo_stopped, None)]. tcp_admissible i"
    by (simp add: tcp_admissible_def demo_failing_def demo_stopped_def)
  from server_tasks_settle [OF demo_task_quiet this, of "[]"] run show ?thesis by auto
qed

text \<open>
  C15. A serving loop never panics: on a reachable store, once the library's serving future returns
  the driven loop returns too, with the store still reachable and the activity flag raised exactly
  if a connection was accepted (or, for servers that reset on requests, a request was read) before.
\<close>

theorem serving_returns:
  assumes "store_reachable (tk_memory tk)" "list_all event_sized evs" "list_ex is_returned evs"
  shows "\<exists>e tk'. serve_with lib verbose ps on evs tk = Some (e, tk') \<and>
    store_reachable (tk_memory tk') \<and> tk_activity tk' = (tk_activity tk \<or> useful on evs)"
proof -
  let ?sv = "with_reset_on (tk_activity tk) on (server_new (tk_memory tk) verbose ps)"
  have "store_reachable (sv_memory ?sv)" using assms(1) by (simp add: with_reset_on_def server_new_def)
  from drive_serve_total [OF this assms(2,3), of lib]
  obtain e sv where "drive_serve lib evs ?sv = Some (e, sv)" by blast
  then have "serve_with lib verbose ps on evs tk = Some (e, tk\<lparr>tk_memory := sv_memory sv, tk_activity := sv_activity sv,
      tk_log := tk_log tk @ sv_log sv, tk_reports := tk_reports tk @ sv_reports sv\<rparr>)"
    by (simp add: serve_with_def)
  from serve_with_result [OF this assms(2,1)] this show ?thesis by blast
qed

theorem serving_returns_witness:
  "\<exists>e tk'. serve_with demo_lib True False OnRequest
      [SvCallback (EvRequest 1 (RqReadHoldingRegisters 1 2)), SvReturned (Ok ())] demo_task = Some (e, tk') \<and>
    tk_activity tk'"
  using serving_returns [of demo_task
      "[SvCallback (EvRequest 1 (RqReadHoldingRegisters 1 2)), SvReturned (Ok ())]" demo_lib True False OnRequest]
    demo_unit_reachable
  by (auto simp: demo_task_def useful_def)

text \<open>
  The wait after a failed run starts over exactly when the run did something useful: a listener
  that fails while serving reports a reset if and only if it accepted a connection, and a serial
  link that is lost, by an error or by its end, if and only if it read a request.
\<close>

theorem backoff_reset_after_useful_run:
  fixes lib :: "('t, 'o, 'e) lib"
  assumes "quiet tk" "list_all is_callback pre" "list_all event_sized pre"
    and "ti_addr i = Some addr" "ti_tls i = NoTls" "ti_race i = [RaceReady (Ok (Ok b))]"
    and "ti_events i = pre @ [SvReturned (Err e)]"
    and "serial_config_from defaults (si_baud j) (si_data_bits j) (si_stop_bits j) (si_parity j) =
      (Ok serial :: (('o, 'e) serial_error, serial_config) result)"
    and "path_conflict_check (si_conflict j) (expand_with_home (si_home j) (si_path j)) = None"
    and "si_race j = [RaceReady ()]" "si_opener j (si_path j) serial = Ok ()"
    and "si_events j = pre @ [SvReturned r]"
  shows "map_option fst (tcp_attempt lib verbose ps i tk) =
      Some (Failed (ErrServer e) (ti_reconnect i) (useful OnConnect (ti_events i))) \<and>
    map_option fst (serial_attempt lib defaults verbose ps j tk) =
      Some (Failed (ErrServer (case r of Ok _ \<Rightarrow> RmbUnexpectedEof | Err x \<Rightarrow> x)) (si_reconnect j)
        (useful OnRequest (si_events j)))"
proof -
  let ?t = "tk_logged Info (Listening b) (tk\<lparr>tk_activity := False, tk_bound := Some b\<rparr>)"
  let ?s = "tk_logged Info (SerialOpened (si_path j)) (tk\<lparr>tk_activity := False, tk_open := True\<rparr>)"
  have q: "store_reachable (tk_memory ?t)" "store_reachable (tk_memory ?s)"
    using assms(1) by (simp_all add: quiet_def tk_logged_def)
  obtain t where t: "serve_with lib verbose ps OnConnect (ti_events i) ?t = Some (EndFailed e, t)"
      "tk_activity t = useful OnConnect (ti_events i)"
    using serve_with_ends [OF q(1) assms(2,3), of lib verbose ps OnConnect "Err e"] assms(7)
    by (auto simp: tk_logged_def)
  obtain s where s: "serve_with lib verbose ps OnRequest (si_events j) ?s =
      Some (case r of Ok _ \<Rightarrow> EndEnded | Err x \<Rightarrow> EndFailed x, s)"
      "tk_activity s = useful OnRequest (si_events j)"
    using serve_with_ends [OF q(2) assms(2,3), of lib verbose ps OnRequest r] assms(12)
    by (auto simp: tk_logged_def)
  have "map_option fst (tcp_attempt lib verbose ps i tk) =
      Some (Failed (ErrServer e) (ti_reconnect i) (useful OnConnect (ti_events i)))"
    using t assms(4-6) by (simp add: tcp_attempt_def bind_serve_def Let_def)
  moreover have "map_option fst (serial_attempt lib defaults verbose ps j tk) =
      Some (Failed (ErrServer (case r of Ok _ \<Rightarrow> RmbUnexpectedEof | Err x \<Rightarrow> x)) (si_reconnect j)
        (useful OnRequest (si_events j)))"
    using s assms(8-11) by (cases r) (simp_all add: serial_attempt_def Let_def)
  ultimately show ?thesis by blast
qed

definition demo_serial_defaults :: serial_config where
  "demo_serial_defaults = \<lparr>sc_baud_rate = 19200, sc_data_bits = Eight, sc_stop_bits = One, sc_parity = Even\<rparr>"

definition demo_port :: "string \<Rightarrow> (nat, nat, nat, nat) serial_input" where
  "demo_port existing = \<lparr>si_reconnect = True, si_baud = 9600, si_data_bits = Some 8, si_stop_bits = None,
     si_parity = Some ''none'', si_path = ''~/tty'', si_home = Some ''/home/u'', si_conflict = None,
     si_opener = (\<lambda>p c. if p = existing then Ok () else Err (RmbOther 2)),
     si_race = [RaceReady ()], si_events = [SvCallback (EvConnect (Some 7)), SvReturned (Err (RmbOther 3))]\<rparr>"

theorem backoff_reset_after_useful_run_witness:
  "map_option fst (tcp_attempt demo_lib True True demo_failing demo_task) =
     Some (Failed (ErrServer (RmbOther 3)) True True) \<and>
   map_option fst (serial_attempt demo_lib demo_serial_defaults True True (demo_port ''~/tty'') demo_task) =
     Some (Failed (ErrServer (RmbOther 3)) True False)"
proof -
  let ?c = "\<lparr>sc_baud_rate = 9600, sc_data_bits = Eight, sc_stop_bits = One, sc_parity = NoParity\<rparr>"
  have "serial_config_from demo_serial_defaults 9600 (Some 8) None (Some ''none'') =
      (Ok ?c :: ((nat, nat) serial_error, serial_config) result)"
    by (simp add: serial_config_from_def Let_def lower_char_def demo_serial_defaults_def)
  then show ?thesis
    using backoff_reset_after_useful_run [OF demo_task_quiet, of "[SvCallback (EvConnect (Some 7))]" demo_failing 1 1
        "RmbOther 3" demo_serial_defaults "demo_port ''~/tty''" ?c "Err (RmbOther 3)" demo_lib True True]
    by (simp add: demo_failing_def demo_port_def path_conflict_check_def useful_def)
qed

text \<open>
  A configuration that cannot work ends the task at once, whatever its reconnect setting and
  whatever would follow: an address that does not parse, unusable TLS material, or serial parameters
  outside the accepted values.
\<close>

theorem config_errors_end_task:
  "(ti_addr i = None \<longrightarrow>
      map_option fst (run_tcp_family lib verbose ps ((i, w) # env) tk) = Some (Returned (Err (ErrTcp TcpAddress)))) \<and>
   (\<forall>addr e. ti_addr i = Some addr \<and> ti_tls i = TlsBuilt (Err e) \<longrightarrow>
      map_option fst (run_tcp_family lib verbose ps ((i, w) # env) tk) = Some (Returned (Err (ErrTcp e)))) \<and>
   (\<forall>e. serial_config_from defaults (si_baud j) (si_data_bits j) (si_stop_bits j) (si_parity j) = Err e \<longrightarrow>
      map_option fst (run_serial_family lib defaults verbose ps ((j, w) # senv) tk) = Some (Returned (Err (ErrSerial e))))"
  by (auto simp: run_tcp_family_def run_serial_family_def run_server_task_def tcp_attempt_def serial_attempt_def Let_def)

definition demo_bad_port :: "(nat, nat, nat, nat) serial_input" where
  "demo_bad_port = (demo_port ''/dev/tty'')\<lparr>si_data_bits := Some 9\<rparr>"

theorem config_errors_end_task_witness:
  "map_option fst (run_serial_family demo_lib demo_serial_defaults True True [(demo_bad_port, None)] demo_task) =
     Some (Returned (Err (ErrSerial (SerialConfiguration ''Invalid data bits specified''))))"
proof -
  have "serial_config_from demo_serial_defaults (si_baud demo_bad_port) (si_data_bits demo_bad_port)
      (si_stop_bits demo_bad_port) (si_parity demo_bad_port) =
      (Err (SerialConfiguration ''Invalid data bits specified'') :: ((nat, nat) serial_error, serial_config) result)"
    by (simp add: demo_bad_port_def demo_port_def serial_config_from_def)
  then show ?thesis
    using config_errors_end_task [where j = demo_bad_port and defaults = demo_serial_defaults and lib = demo_lib
        and verbose = True and ps = True and w = None and senv = "[]" and tk = demo_task] by blast
qed


end
