(* ===== verification/Modbus_Client.thy ===== *)
theory Modbus_Client
  imports Modbus_Types Util_Path
begin

text \<open>
  The Modbus client (\<^verbatim>\<open>ferrowl-modbus/src/client_core.rs\<close>): reading one operation, the round-robin
  poll with its retry counter, the loop that polls and executes write commands, and the reconnect
  loop. The connected device is an argument of every step that talks to it: a function from the
  request to the library's answer within the timeout, or its elapsing. Configuration, connection
  results, ticks and commands are inputs in the order the code takes them; an option result \<open>None\<close>
  means that the code does not return, by a panic or because the inputs end before it does.
\<close>

section \<open>Answers and log lines\<close>

datatype ('o, 'e, 'v) timed = InTime "(('o, 'e) rmb_error, 'v) result" | Elapsed

record ('o, 'e) device =
  dv_bits :: "'o function_code \<Rightarrow> unit_id \<Rightarrow> u16 \<Rightarrow> u16 \<Rightarrow> ('o, 'e, bool list) timed"
  dv_words :: "'o function_code \<Rightarrow> unit_id \<Rightarrow> u16 \<Rightarrow> u16 \<Rightarrow> ('o, 'e, u16 list) timed"
  dv_write :: "command \<Rightarrow> ('o, 'e, unit) timed"

text \<open>What a write command's log lines show: the address and the value or values.\<close>

datatype write_detail =
    DetailCoil u16 bool
  | DetailCoils u16 "bool list"
  | DetailRegister u16 u16
  | DetailRegisters u16 "u16 list"

datatype ('o, 'e) client_line =
    ReadIntent string unit_id usize usize
  | BroadcastSkipped unit_id
  | MemoryUpdateFailed string usize usize
  | ReadReceivedValues string usize usize "u16 list"
  | ReadTimedOut string usize usize
  | ReadErrored string usize usize "('o, 'e) rmb_error"
  | ReadInvalid string usize usize "'o exception_code"
  | WriteExecuted string write_detail
  | WriteRefused string write_detail string "'o exception_code"
  | WriteErrored string write_detail "('o, 'e) rmb_error"
  | WriteTimedOut string write_detail
  | GracefullyTerminated
  | CommandDropped string
  | ErrorText "('o, 'e) mb_err"
  | ReconnectDisabled "('o, 'e) mb_err"
  | ReconnectingIn nat

definition bits_to_words :: "bool list \<Rightarrow> u16 list" where
  "bits_to_words bits = map (\<lambda>b. if b then 1 else 0) bits"

definition classify :: "('o, 'e, 'v) timed \<Rightarrow> (('o, 'e) modbus_error, 'v) result" where
  "classify t =
     (case t of
        InTime (Ok v) \<Rightarrow> Ok v
      | InTime (Err (RmbException ex)) \<Rightarrow> Err (MbException ex)
      | InTime (Err e) \<Rightarrow> Err (MbError e)
      | Elapsed \<Rightarrow> Err MbTimeout)"

section \<open>Reading one operation\<close>

definition u16_try_from :: "usize \<Rightarrow> u16 option" where
  "u16_try_from n = (if n \<le> 65535 then Some (of_nat n) else None)"

definition client_read ::
  "(unit_id \<Rightarrow> bool) \<Rightarrow> ('o, 'e) device \<Rightarrow> 'o operation
     \<Rightarrow> (string \<times> (('o, 'e) modbus_error, u16 list) result \<times> ('o, 'e) client_line log) option"
where
  "client_read is_broadcast dev op = do {
     let start = r_start (op_range op);
     let end = r_end (op_range op);
     n \<leftarrow> usize_sub end start;
     (case u16_try_from n of
        None \<Rightarrow> Some (''Unknown'', Err (MbException IllegalDataValue), [])
      | Some count \<Rightarrow>
          if is_broadcast (op_slave_id op) then
            Some (''Broadcast'', Err (MbException IllegalDataAddress),
                  [(Warning, BroadcastSkipped (op_slave_id op))])
          else
            (case u16_try_from start of
               None \<Rightarrow> Some (''Unknown'', Err (MbException IllegalDataValue), [])
             | Some addr \<Rightarrow>
                 let bits = (\<lambda>name. (name,
                       map_sum (\<lambda>e. e) bits_to_words (classify (dv_bits dev (op_fn_code op) (op_slave_id op) addr count)),
                       [(Info, ReadIntent name (op_slave_id op) start end)]));
                     words = (\<lambda>name. (name,
                       classify (dv_words dev (op_fn_code op) (op_slave_id op) addr count),
                       [(Info, ReadIntent name (op_slave_id op) start end)]))
                 in Some (case op_fn_code op of
                      FC_ReadCoils \<Rightarrow> bits ''ReadCoils''
                    | FC_ReadDiscreteInputs \<Rightarrow> bits ''ReadDiscreteInputs''
                    | FC_ReadInputRegisters \<Rightarrow> words ''ReadInputRegisters''
                    | FC_ReadHoldingRegisters \<Rightarrow> words ''ReadHoldingRegisters''
                    | _ \<Rightarrow> (''Unknown'', Err (MbException IllegalFunction), []))))
   }"

section \<open>One poll\<close>

definition MAX_RETRIES :: nat where
  "MAX_RETRIES = 3"

record 't poll_state =
  pl_memory :: "'t key memory"
  pl_index :: usize
  pl_retries :: nat
  pl_had_success :: bool

definition poll_once ::
  "(unit_id \<Rightarrow> 'o function_code \<Rightarrow> 't) \<Rightarrow> (unit_id \<Rightarrow> bool) \<Rightarrow> ('o, 'e) device \<Rightarrow> 'o operation list
     \<Rightarrow> 't poll_state
     \<Rightarrow> ((('o, 'e) mb_err, unit) result \<times> 't poll_state \<times> 't key store_write list \<times> ('o, 'e) client_line log) option"
where
  "poll_once keyf is_broadcast dev ops st = do {
     let count = length ops;
     let st0 = (if pl_index st \<ge> count then st\<lparr>pl_index := 0\<rparr> else st);
     (if pl_index st0 < count then do {
        let op = ops ! pl_index st0;
        let start = r_start (op_range op);
        let end = r_end (op_range op);
        let next = (pl_index st0 + 1) mod count;
        (s, res, log) \<leftarrow> client_read is_broadcast dev op;
        (case res of
           Ok vs \<Rightarrow> do {
             (ok, mem, reports) \<leftarrow>
               write_unchecked_from (pl_memory st0) Poll (Key (keyf (op_slave_id op) (op_fn_code op))) (op_range op) vs;
             Some (Ok (),
               st0\<lparr>pl_memory := mem, pl_had_success := True, pl_index := next, pl_retries := 0\<rparr>, reports,
               log @ [if ok then (Info, ReadReceivedValues s start end vs)
                      else (Warning, MemoryUpdateFailed s start end)])
           }
         | Err MbTimeout \<Rightarrow>
             Some (Err (ErrModbus MbTimeout), st0, [], log @ [(Error, ReadTimedOut s start end)])
         | Err (MbError e) \<Rightarrow>
             Some (Err (ErrModbus (MbError e)), st0, [], log @ [(Error, ReadErrored s start end e)])
         | Err (MbException e) \<Rightarrow>
             let retries = pl_retries st0 + 1 in
             Some (if retries \<ge> MAX_RETRIES
                   then (Ok (), st0\<lparr>pl_index := next, pl_retries := 0\<rparr>, [],
                         log @ [(Warning, ReadInvalid s start end e)])
                   else (Ok (), st0\<lparr>pl_retries := retries\<rparr>, [], log)))
      }
      else Some (Ok (), st0, [], []))
   }"

section \<open>Write commands\<close>

text \<open>
  The label and detail a write command is logged with, and the word for its refusal; \<open>None\<close> for the
  command that is no write.
\<close>

fun command_request :: "command \<Rightarrow> (string \<times> write_detail \<times> string) option" where
  "command_request Terminate = None"
| "command_request (WriteSingleCoil _ addr coil) =
     Some (''WriteSingleCoil'', DetailCoil addr coil, ''invalid'')"
| "command_request (WriteMultipleCoils _ addr coils) =
     Some (''WriteMultipleCoils'', DetailCoils addr coils, ''failed'')"
| "command_request (WriteSingleRegister _ addr value) =
     Some (''WriteSingleRegister'', DetailRegister addr value, ''invalid'')"
| "command_request (WriteMultipleRegister _ addr values) =
     Some (''WriteMultipleRegister'', DetailRegisters addr values, ''invalid'')"

definition handle_write_result ::
  "('o, 'e, unit) timed \<Rightarrow> string \<Rightarrow> write_detail \<Rightarrow> string
     \<Rightarrow> (('o, 'e) mb_err, unit) result \<times> ('o, 'e) client_line log"
where
  "handle_write_result t label detail invalid_word =
     (case classify t of
        Ok _ \<Rightarrow> (Ok (), [(Info, WriteExecuted label detail)])
      | Err (MbException e) \<Rightarrow> (Ok (), [(Warning, WriteRefused label detail invalid_word e)])
      | Err (MbError e) \<Rightarrow> (Err (ErrModbus (MbError e)), [(Error, WriteErrored label detail e)])
      | Err MbTimeout \<Rightarrow> (Err (ErrModbus MbTimeout), [(Error, WriteTimedOut label detail)]))"

section \<open>The connected loop\<close>

record ('t, 'o, 'e) client_task =
  cl_poll :: "'t poll_state"
  cl_commands :: "command commands"
  cl_connected :: connected_cell
  cl_log :: "('o, 'e) client_line log"
  cl_status :: "string log"
  cl_reports :: "'t key store_write list"

datatype ('o, 'e) run_event = RunTick "'o operation list" "('o, 'e) device" | RunRecv "('o, 'e) device"

definition cl_logged ::
  "('o, 'e) client_line log \<Rightarrow> ('t, 'o, 'e) client_task \<Rightarrow> ('t, 'o, 'e) client_task"
where
  "cl_logged lines t = t\<lparr>cl_log := cl_log t @ lines\<rparr>"

definition cl_state :: "string \<Rightarrow> ('t, 'o, 'e) client_task \<Rightarrow> ('t, 'o, 'e) client_task" where
  "cl_state s t = t\<lparr>cl_status := cl_status t @ [(Info, s)]\<rparr>"

text \<open>One arm of the loop: the outcome that ends the run, if it does, and the task after it.\<close>

definition run_tick ::
  "(unit_id \<Rightarrow> 'o function_code \<Rightarrow> 't) \<Rightarrow> (unit_id \<Rightarrow> bool) \<Rightarrow> 'o operation list \<Rightarrow> ('o, 'e) device
     \<Rightarrow> ('t, 'o, 'e) client_task
     \<Rightarrow> ((('o, 'e) mb_err, unit) result option \<times> ('t, 'o, 'e) client_task) option"
where
  "run_tick keyf bc ops dev t = do {
     (res, st, reports, log) \<leftarrow> poll_once keyf bc dev ops (cl_poll t);
     let t' = cl_logged log (t\<lparr>cl_poll := st, cl_reports := cl_reports t @ reports\<rparr>);
     Some (case res of Ok _ \<Rightarrow> None | Err e \<Rightarrow> Some (Err e), t')
   }"

definition run_command ::
  "('o, 'e) device \<Rightarrow> ('t, 'o, 'e) client_task
     \<Rightarrow> (('o, 'e) mb_err, unit) result option \<times> ('t, 'o, 'e) client_task"
where
  "run_command dev t =
     (let (received, cs) = commands_recv (cl_commands t);
          t1 = t\<lparr>cl_commands := cs\<rparr>;
          cmd = (case received of Some c \<Rightarrow> c | None \<Rightarrow> Terminate)
      in case command_request cmd of
           None \<Rightarrow>
             (Some (Ok ()), cl_state ''Client disconnected'' (cl_logged [(Info, GracefullyTerminated)] t1))
         | Some (label, detail, word) \<Rightarrow>
             let (res, log) = handle_write_result (dv_write dev cmd) label detail word
             in (case res of Ok _ \<Rightarrow> None | Err e \<Rightarrow> Some (Err e), cl_logged log t1))"

fun client_run ::
  "(unit_id \<Rightarrow> 'o function_code \<Rightarrow> 't) \<Rightarrow> (unit_id \<Rightarrow> bool) \<Rightarrow> ('o, 'e) run_event list
     \<Rightarrow> ('t, 'o, 'e) client_task
     \<Rightarrow> (bool \<times> (('o, 'e) mb_err, unit) result \<times> ('t, 'o, 'e) client_task) option"
where
  "client_run keyf bc [] t = None"
| "client_run keyf bc (RunTick ops dev # evs) t = do {
     (stop, t') \<leftarrow> run_tick keyf bc ops dev t;
     (case stop of
        Some r \<Rightarrow> Some (pl_had_success (cl_poll t'), r, t')
      | None \<Rightarrow> client_run keyf bc evs t')
   }"
| "client_run keyf bc (RunRecv dev # evs) t =
     (let (stop, t') = run_command dev t in
      case stop of
        Some r \<Rightarrow> Some (pl_had_success (cl_poll t'), r, t')
      | None \<Rightarrow> client_run keyf bc evs t')"

section \<open>Connecting\<close>

record ('o, 'e) connect_attempt =
  ca_reconnect :: bool
  ca_client :: "(('o, 'e) mb_err, unit) result"

definition connect_serial ::
  "serial_config \<Rightarrow> string option \<Rightarrow> path_conflict_cell
     \<Rightarrow> (string \<Rightarrow> serial_config \<Rightarrow> (('o, 'e) rmb_error, unit) result)
     \<Rightarrow> u32 \<Rightarrow> u8 option \<Rightarrow> u8 option \<Rightarrow> string option \<Rightarrow> string \<Rightarrow> (('o, 'e) mb_err, unit) result"
where
  "connect_serial defaults home conflict opener baud data stop par path =
     (case serial_config_from defaults baud data stop par of
        Err e \<Rightarrow> Err (ErrSerial e)
      | Ok serial \<Rightarrow>
          let expanded = expand_with_home home path in
          case path_conflict_check conflict expanded of
            Some other \<Rightarrow> Err (ErrPathConflict expanded other)
          | None \<Rightarrow>
              (case opener path serial of Ok _ \<Rightarrow> Ok () | Err e \<Rightarrow> Err (ErrSerial (SerialErr e))))"

definition connect_tcp_family ::
  "'a option \<Rightarrow> (('o, 'e) tcp_error, 'c option) result \<Rightarrow> ('a \<Rightarrow> 'c option \<Rightarrow> ('o, 'e, unit) timed)
     \<Rightarrow> (('o, 'e) mb_err, unit) result"
where
  "connect_tcp_family addr tls dial =
     (case addr of
        None \<Rightarrow> Err (ErrTcp TcpAddress)
      | Some a \<Rightarrow>
          (case tls of
             Err e \<Rightarrow> Err (ErrTcp e)
           | Ok cfg \<Rightarrow>
               (case dial a cfg of
                  InTime (Ok _) \<Rightarrow> Ok ()
                | InTime (Err e) \<Rightarrow> Err (ErrTcp (TcpErr e))
                | Elapsed \<Rightarrow> Err (ErrTcp TcpTimeout))))"

text \<open>A datagram client only associates with its peer, which no timeout bounds (\<^verbatim>\<open>udp/client.rs\<close>).\<close>

definition connect_udp_client ::
  "'a option \<Rightarrow> ('a \<Rightarrow> (('o, 'e) rmb_error, unit) result) \<Rightarrow> (('o, 'e) mb_err, unit) result"
where
  "connect_udp_client addr associate =
     (case addr of
        None \<Rightarrow> Err (ErrTcp TcpAddress)
      | Some a \<Rightarrow> (case associate a of Ok _ \<Rightarrow> Ok () | Err e \<Rightarrow> Err (ErrTcp (TcpErr e))))"

section \<open>The reconnect loop\<close>

record ('o, 'e) client_input =
  ci_race :: "(command, ('o, 'e) connect_attempt) race_event list"
  ci_channel :: "command list"
  ci_events :: "('o, 'e) run_event list"

definition dropped_msg :: string where
  "dropped_msg = ''Command dropped: client is disconnected and reconnecting.''"

text \<open>Every connected run starts with a fresh index, retry counter and success flag.\<close>

definition client_attempt ::
  "(unit_id \<Rightarrow> 'o function_code \<Rightarrow> 't) \<Rightarrow> (unit_id \<Rightarrow> bool) \<Rightarrow> ('o, 'e) client_input
     \<Rightarrow> ('t, 'o, 'e) client_task
     \<Rightarrow> (('o, 'e) mb_err attempt_outcome \<times> ('t, 'o, 'e) client_task) option"
where
  "client_attempt keyf bc i t = do {
     (conn, parked) \<leftarrow> race_terminate (\<lambda>c. c = Terminate) (ci_race i) [];
     (case conn of
        None \<Rightarrow> Some (Done, cl_state ''Client disconnected'' t)
      | Some att \<Rightarrow>
          (case ca_client att of
             Err e \<Rightarrow>
               let t1 = cl_logged (replicate (length parked) (Warning, CommandDropped dropped_msg)) t;
                   t2 = (if \<not> ca_reconnect att
                         then cl_state ''Client disconnected'' (cl_logged [(Error, ReconnectDisabled e)] t1)
                         else cl_logged [(Error, ErrorText e)] t1)
               in Some (Failed e (ca_reconnect att) False, t2)
           | Ok _ \<Rightarrow> do {
               let t1 = cl_state ''Client connected''
                  (t\<lparr>cl_connected := True, cl_commands := commands_new (ci_channel i) parked,
                     cl_poll := (cl_poll t)\<lparr>pl_index := 0, pl_retries := 0, pl_had_success := False\<rparr>\<rparr>);
               (had_success, res, t2) \<leftarrow> client_run keyf bc (ci_events i) t1;
               let t3 = t2\<lparr>cl_connected := False\<rparr>;
               Some (case res of
                  Ok _ \<Rightarrow> (Done, t3)
                | Err e \<Rightarrow>
                    (Failed e (ca_reconnect att) had_success,
                     if \<not> ca_reconnect att then cl_state ''Client disconnected'' t3
                     else cl_logged [(Warning, ErrorText e)] t3))
             }))
   }"

record client_wait =
  cw_now :: nat
  cw_tie :: bool
  cw_events :: "(nat \<times> command option) list"

definition client_wait_abortable ::
  "client_wait \<Rightarrow> duration \<Rightarrow> ('t, 'o, 'e) client_task \<Rightarrow> bool \<times> ('t, 'o, 'e) client_task"
where
  "client_wait_abortable w backoff t =
     (let t1 = cl_logged [(Info, ReconnectingIn (backoff div 1000000000))] t;
          (aborted, _, dropped) =
            wait_backoff (cw_now w) backoff dropped_msg (\<lambda>c. c = Terminate) (cw_tie w) (cw_events w);
          t2 = cl_logged (map (\<lambda>m. (Warning, CommandDropped m)) dropped) t1
      in (aborted, if aborted then cl_state ''Client disconnected'' t2 else t2))"

definition run_reconnect_loop ::
  "(unit_id \<Rightarrow> 'o function_code \<Rightarrow> 't) \<Rightarrow> (unit_id \<Rightarrow> bool)
     \<Rightarrow> (('o, 'e) client_input \<times> client_wait) list \<Rightarrow> ('t, 'o, 'e) client_task
     \<Rightarrow> (('o, 'e) mb_err run_end \<times> ('t, 'o, 'e) client_task) option"
where
  "run_reconnect_loop keyf bc env t =
     backoff_run backoff_policy_default (client_attempt keyf bc) client_wait_abortable
       (bp_initial backoff_policy_default) env t"

end
