(* ===== verification/Modbus_Client_Properties.thy ===== *)
theory Modbus_Client_Properties
  imports Modbus_Client Modbus_Server_Properties
begin

text \<open>
  Properties of the Modbus client: what a read puts on the wire and what it refuses locally, the
  progress of the round-robin poll, what a poll leaves in the store and how the server serves it,
  the order in which write commands are executed, and the state a client task ends in.
\<close>

section \<open>Reading\<close>

fun reads :: "'o function_code \<Rightarrow> bool" where
  "reads FC_ReadCoils \<longleftrightarrow> True"
| "reads FC_ReadDiscreteInputs \<longleftrightarrow> True"
| "reads FC_ReadInputRegisters \<longleftrightarrow> True"
| "reads FC_ReadHoldingRegisters \<longleftrightarrow> True"
| "reads _ \<longleftrightarrow> False"

text \<open>The requests a client sends, and the device's answer to the one of an operation.\<close>

definition on_wire :: "(unit_id \<Rightarrow> bool) \<Rightarrow> 'o operation \<Rightarrow> bool" where
  "on_wire bc op \<longleftrightarrow> reads (op_fn_code op) \<and> \<not> bc (op_slave_id op) \<and>
     r_start (op_range op) < 65536 \<and> r_end (op_range op) - r_start (op_range op) < 65536"

definition wire_answer :: "('o, 'e) device \<Rightarrow> 'o operation \<Rightarrow> (('o, 'e) modbus_error, u16 list) result" where
  "wire_answer dev op =
     (let addr = of_nat (r_start (op_range op));
          count = of_nat (r_end (op_range op) - r_start (op_range op))
      in case op_fn_code op of
        FC_ReadCoils \<Rightarrow>
          map_sum (\<lambda>e. e) bits_to_words (classify (dv_bits dev FC_ReadCoils (op_slave_id op) addr count))
      | FC_ReadDiscreteInputs \<Rightarrow>
          map_sum (\<lambda>e. e) bits_to_words (classify (dv_bits dev FC_ReadDiscreteInputs (op_slave_id op) addr count))
      | fc \<Rightarrow> classify (dv_words dev fc (op_slave_id op) addr count))"

definition local_refusal :: "(unit_id \<Rightarrow> bool) \<Rightarrow> 'o operation \<Rightarrow> 'o exception_code" where
  "local_refusal bc op =
     (if 65535 < r_end (op_range op) - r_start (op_range op) then IllegalDataValue
      else if bc (op_slave_id op) then IllegalDataAddress
      else if 65535 < r_start (op_range op) then IllegalDataValue
      else IllegalFunction)"

lemma client_read_eq:
  assumes "wf_range (op_range op)"
  shows "\<exists>name log. client_read bc dev op =
    Some (name, if on_wire bc op then wire_answer dev op else Err (MbException (local_refusal bc op)), log)"
  using assms
  by (cases "op_fn_code op")
    (auto simp: client_read_def on_wire_def wire_answer_def local_refusal_def u16_try_from_def panic_free Let_def)

section \<open>One poll\<close>

text \<open>The operation a poll takes, and the answer it gets.\<close>

definition poll_index :: "'o operation list \<Rightarrow> 't poll_state \<Rightarrow> usize" where
  "poll_index ops st = (if length ops \<le> pl_index st then 0 else pl_index st)"


definition poll_answer ::
  "(unit_id \<Rightarrow> bool) \<Rightarrow> ('o, 'e) device \<Rightarrow> 'o operation \<Rightarrow> (('o, 'e) modbus_error, u16 list) result"
where
  "poll_answer bc dev op = (if on_wire bc op then wire_answer dev op else Err (MbException (local_refusal bc op)))"

fun disconnects :: "(('o, 'e) modbus_error, u16 list) result \<Rightarrow> bool" where
  "disconnects (Err (MbException e)) \<longleftrightarrow> False"
| "disconnects (Err _) \<longleftrightarrow> True"
| "disconnects (Ok vs) \<longleftrightarrow> False"

lemma write_unchecked_from_total:
  assumes "store_reachable mem" "wf_range rg"
  obtains ok mem' reports where "write_unchecked_from mem src k rg vs = Some (ok, mem', reports)"
    "store_reachable mem'" "contains_key mem' = contains_key mem"
proof -
  have wf: "wf_memory mem" using assms(1) by (rule store_reachable_wf)
  obtain b m where w: "write_unchecked mem k rg vs = Some (b, m)" "contains_key m = contains_key mem"
    using write_unchecked_total [OF wf assms(2), of k vs] by blast
  note eq = write_unchecked_from_eq [OF wf assms(2) w(1), of src]
  from store_reachable.step [OF assms(1) store_step.writes_unchecked_from [OF assms(2) eq]] assms(2) w eq that
  show thesis by blast
qed

lemma poll_once_cases:
  assumes "store_reachable (pl_memory st)" "list_all (\<lambda>op. wf_range (op_range op)) ops" "ops \<noteq> []"
  obtains res st' reports log where "poll_once keyf bc dev ops st = Some (res, st', reports, log)"
    "store_reachable (pl_memory st')"
    "isl res \<longleftrightarrow> disconnects (poll_answer bc dev (ops ! poll_index ops st))"
    "isl res \<or> pl_index st' = (poll_index ops st + 1) mod length ops \<and> pl_retries st' = 0 \<or>
     pl_index st' = poll_index ops st \<and> pl_retries st' = Suc (pl_retries st) \<and> pl_retries st' < MAX_RETRIES"
proof -
  let ?i = "poll_index ops st" and ?op = "ops ! poll_index ops st"
  have i: "?i < length ops" using assms(3) by (simp add: poll_index_def)
  then have wf: "wf_range (op_range ?op)" using assms(2) by (simp add: list_all_length)
  obtain name log where r: "client_read bc dev ?op = Some (name, poll_answer bc dev ?op, log)"
    using client_read_eq [OF wf, of bc dev] by (auto simp: poll_answer_def)
  have st: "(if length ops \<le> pl_index st then st\<lparr>pl_index := 0\<rparr> else st) = st\<lparr>pl_index := ?i\<rparr>"
    by (simp add: poll_index_def)
  show thesis
  proof (cases "poll_answer bc dev ?op")
    case (Inr vs)
    obtain ok m ev where "write_unchecked_from (pl_memory st) Poll
        (Key (keyf (op_slave_id ?op) (op_fn_code ?op))) (op_range ?op) vs = Some (ok, m, ev)" "store_reachable m"
      using write_unchecked_from_total [OF assms(1) wf] by blast
    with Inr r i show thesis by (intro that, simp add: poll_once_def st Let_def) simp_all
  next
    case (Inl e)
    with r i assms(1) show thesis
      by (cases e; cases "MAX_RETRIES \<le> Suc (pl_retries st)"; (intro that, simp add: poll_once_def st Let_def, simp_all))
  qed
qed

section \<open>Progress of the round robin\<close>






text \<open>A device with two holding registers at 1 that refuses everything else.\<close>

definition demo_device :: "(nat, nat) device" where
  "demo_device = \<lparr>
     dv_bits = (\<lambda>fc u a q. Elapsed),
     dv_words = (\<lambda>fc u a q. if fc = FC_ReadHoldingRegisters then InTime (Ok [7, 8])
        else InTime (Err (RmbException IllegalDataAddress))),
     dv_write = (\<lambda>c. InTime (Ok ()))\<rparr>"

definition demo_op :: "nat function_code \<Rightarrow> nat operation" where
  "demo_op fc = \<lparr>op_slave_id = 1, op_fn_code = fc, op_range = MkRange 1 3\<rparr>"

definition demo_poll :: "slave_key poll_state" where
  "demo_poll = \<lparr>pl_memory = demo_unit, pl_index = 0, pl_retries = 0, pl_had_success = False\<rparr>"

lemmas demo_client = demo_device_def demo_op_def demo_poll_def poll_answer_def on_wire_def wire_answer_def
  classify_def local_refusal_def usize_max_def


section \<open>What a poll leaves in the store\<close>

text \<open>The request a server would get for an operation, and its answer with the given words.\<close>

definition request_of :: "'o operation \<Rightarrow> 'o request_pdu" where
  "request_of op =
     (let addr = of_nat (r_start (op_range op));
          count = of_nat (r_end (op_range op) - r_start (op_range op))
      in case op_fn_code op of
        FC_ReadCoils \<Rightarrow> RqReadCoils addr count
      | FC_ReadDiscreteInputs \<Rightarrow> RqReadDiscreteInputs addr count
      | FC_ReadInputRegisters \<Rightarrow> RqReadInputRegisters addr count
      | _ \<Rightarrow> RqReadHoldingRegisters addr count)"

fun response_of :: "'o function_code \<Rightarrow> u16 list \<Rightarrow> 'o response_pdu" where
  "response_of FC_ReadCoils vs = RsReadCoils (map word_coil vs)"
| "response_of FC_ReadDiscreteInputs vs = RsReadDiscreteInputs (map word_coil vs)"
| "response_of FC_ReadInputRegisters vs = RsReadInputRegisters vs"
| "response_of _ vs = RsReadHoldingRegisters vs"

fun cell_type_of :: "'o function_code \<Rightarrow> cell_type" where
  "cell_type_of FC_ReadCoils = Coil"
| "cell_type_of FC_ReadDiscreteInputs = Coil"
| "cell_type_of _ = Register"

lemma on_wire_span:
  assumes "on_wire bc op" "wf_range (op_range op)"
  shows "span (of_nat (r_start (op_range op))) (unat (of_nat (r_end (op_range op) - r_start (op_range op)) :: u16)) =
    op_range op"
  using assms by (cases "op_range op") (auto simp: on_wire_def span_def simp del: of_nat_diff)

lemma poll_stores:
  assumes "store_reachable (pl_memory st)" "wf_range (op_range (ops ! poll_index ops st))" "ops \<noteq> []"
    and "poll_answer bc dev (ops ! poll_index ops st) = Ok vs"
    and "k = Key (keyf (op_slave_id (ops ! poll_index ops st)) (op_fn_code (ops ! poll_index ops st)))"
    and "length vs = r_end (op_range (ops ! poll_index ops st)) - r_start (op_range (ops ! poll_index ops st))"
    and "contains_key (pl_memory st) k"
    and "holds_on (\<lambda>_. True) (mem_cells (pl_memory st) k) (op_range (ops ! poll_index ops st))"
  obtains st' reports log where "poll_once keyf bc dev ops st = Some (Ok (), st', reports, log)"
    "contains_key (pl_memory st') = contains_key (pl_memory st)" "wf_memory (pl_memory st')"
    "mem_cells (pl_memory st') =
       (mem_cells (pl_memory st))(k := store_words (op_range (ops ! poll_index ops st)) vs (mem_cells (pl_memory st) k))"
proof -
  let ?i = "poll_index ops st" and ?op = "ops ! poll_index ops st"
  have i: "?i < length ops" using assms(3) by (simp add: poll_index_def)
  have wf: "wf_memory (pl_memory st)" using assms(1) by (rule store_reachable_wf)
  obtain name log where r: "client_read bc dev ?op = Some (name, Ok vs, log)"
    using client_read_eq [OF assms(2), of bc dev] assms(4) by (auto simp: poll_answer_def)
  obtain m where m: "write_unchecked (pl_memory st) k (op_range ?op) vs = Some (True, m)"
      "wf_memory m" "contains_key m = contains_key (pl_memory st)"
      "mem_cells m = (mem_cells (pl_memory st))(k := store_words (op_range ?op) vs (mem_cells (pl_memory st) k))"
    using write_unchecked_known [OF wf assms(2,7,6)] assms(8) by (metis prefix_words_covered)
  have st: "(if length ops \<le> pl_index st then st\<lparr>pl_index := 0\<rparr> else st) = st\<lparr>pl_index := ?i\<rparr>"
    by (simp add: poll_index_def)
  from write_unchecked_from_eq [OF wf assms(2) m(1), of Poll] r i m(2-4) assms(5) show thesis
    by (intro that, simp add: poll_once_def st Let_def) simp_all
qed

text \<open>
  C18. What a client polled, a server on the same store answers: after a successful poll of an
  operation whose region is declared readable, the corresponding read request is answered with
  exactly the words the device returned.
\<close>

theorem polled_values_are_served:
  fixes op :: "'o operation"
  assumes "store_reachable (pl_memory st)" "ops \<noteq> []" "op = ops ! poll_index ops st" "wf_range (op_range op)"
    and "poll_answer bc dev op = Ok vs" "length vs = r_end (op_range op) - r_start (op_range op)"
    and "contains_key (pl_memory st) (Key (from_slave_fn (op_slave_id op) (op_fn_code op)))"
    and "holds_on (accepts_read (cell_type_of (op_fn_code op)))
      (mem_cells (pl_memory st) (Key (from_slave_fn (op_slave_id op) (op_fn_code op)))) (op_range op)"
  shows "\<exists>st' reports log. poll_once from_slave_fn bc dev ops st = Some (Ok (), st', reports, log) \<and>
    map_option fst (handle_request from_slave_fn all_kinds_for fn_of (op_slave_id op) (request_of op)
      (pl_memory st') verbose physical_serial) = Some (Ok (Some (response_of (op_fn_code op) vs)))"
proof -
  let ?k = "Key (from_slave_fn (op_slave_id op) (op_fn_code op))" and ?rg = "op_range op"
  have wire: "on_wire bc op" using assms(5) by (auto simp: poll_answer_def split: if_splits)
  have cov: "holds_on (\<lambda>_. True) (mem_cells (pl_memory st) ?k) ?rg"
    using assms(8) by (auto simp: holds_on_def)
  obtain st' reports log where p: "poll_once from_slave_fn bc dev ops st = Some (Ok (), st', reports, log)"
      "contains_key (pl_memory st') = contains_key (pl_memory st)" "wf_memory (pl_memory st')"
      "mem_cells (pl_memory st') = (mem_cells (pl_memory st))(?k := store_words ?rg vs (mem_cells (pl_memory st) ?k))"
    using poll_stores [OF assms(1) _ assms(2), of bc dev vs ?k from_slave_fn] assms(3-7) cov by blast
  have rd: "read_request (contains_key (pl_memory st')) (mem_cells (pl_memory st')) ?k (cell_type_of (op_fn_code op)) ?rg =
      (Ok vs :: ('o exception_code, u16 list) result)"
    using assms(7,8) words_of_store_words_same [OF cov assms(6)] by (simp add: p(2,4) read_request_def read_spec_def)
  have "fst (answer_spec from_slave_fn (op_slave_id op) (request_of op) (contains_key (pl_memory st'))
      (mem_cells (pl_memory st'))) = Ok (response_of (op_fn_code op) vs)"
    using rd on_wire_span [OF wire assms(4)] wire
    by (cases "op_fn_code op") (simp_all add: answer_spec_def request_of_def Let_def on_wire_def)
  moreover have "request_sized (request_of op)" by (cases "op_fn_code op") (simp_all add: request_of_def Let_def)
  ultimately show ?thesis using p(1,3) by (simp add: handled_fst silenced_def del: map_option_eq_Some)
qed

theorem polled_values_are_served_witness:
  "\<exists>st' reports log. poll_once from_slave_fn (\<lambda>_. False) demo_device [demo_op FC_ReadHoldingRegisters] demo_poll =
       Some (Ok (), st', reports, log) \<and>
     map_option fst (handle_request from_slave_fn all_kinds_for (\<lambda>_. FC_Other (0 :: nat)) 1 (RqReadHoldingRegisters 1 2)
       (pl_memory st') True False) = Some (Ok (Some (RsReadHoldingRegisters [7, 8])))"
  using polled_values_are_served [of demo_poll "[demo_op FC_ReadHoldingRegisters]" "demo_op FC_ReadHoldingRegisters"
      "\<lambda>_. False" demo_device "[7, 8]" "\<lambda>_. FC_Other 0" True False] demo_accepts(1) [of "MkRange 1 3"]
  by (simp add: demo_unit_reachable demo_client poll_index_def demo_contains demo_from_fn request_of_def
      del: map_option_eq_Some)

section \<open>Write commands\<close>

text \<open>The write commands whose outcome a log shows, and how a command appears there.\<close>

fun write_line :: "('o, 'e) client_line \<Rightarrow> (string \<times> write_detail) option" where
  "write_line (WriteExecuted l d) = Some (l, d)"
| "write_line (WriteRefused l d w e) = Some (l, d)"
| "write_line (WriteErrored l d e) = Some (l, d)"
| "write_line (WriteTimedOut l d) = Some (l, d)"
| "write_line _ = None"

definition writes_logged :: "('o, 'e) client_line log \<Rightarrow> (string \<times> write_detail) list" where
  "writes_logged log = List.map_filter (write_line \<circ> snd) log"

definition sent_as :: "command \<Rightarrow> (string \<times> write_detail) option" where
  "sent_as c = map_option (\<lambda>(label, detail, word). (label, detail)) (command_request c)"

definition pending :: "'c commands \<Rightarrow> 'c list" where
  "pending cs = cm_queued cs @ cm_channel cs"

lemma writes_logged_simps [simp]:
  "writes_logged [] = []"
  "writes_logged (x # log) = (case write_line (snd x) of None \<Rightarrow> writes_logged log | Some y \<Rightarrow> y # writes_logged log)"
  "writes_logged (log @ log') = writes_logged log @ writes_logged log'"
  by (simp_all add: writes_logged_def List.map_filter_def split: option.split)

lemma pending_new [simp]: "pending (commands_new ch q) = q @ ch"
  by (simp add: pending_def commands_new_def)

lemma commands_recv_pending:
  "commands_recv cs = (r, cs') \<Longrightarrow>
     (case r of Some c \<Rightarrow> pending cs = c # pending cs' | None \<Rightarrow> pending cs = [] \<and> pending cs' = [])"
  by (auto simp: commands_recv_def pending_def split: list.split_asm)

lemma client_read_logged:
  "client_read bc dev op = Some (name, res, log) \<Longrightarrow> writes_logged log = []"
  by (auto simp: client_read_def Let_def split: Option.bind_split_asm option.split_asm if_split_asm function_code.split_asm)

lemma poll_once_logged:
  "poll_once keyf bc dev ops st = Some (res, st', reports, log) \<Longrightarrow> writes_logged log = []"
  unfolding poll_once_def Let_def
  by (auto split: Option.bind_split_asm sum.split_asm modbus_error.split_asm if_split_asm dest!: client_read_logged)

lemma run_tick_frame:
  assumes "run_tick keyf bc ops dev t = Some (stop, t')"
  shows "writes_logged (cl_log t') = writes_logged (cl_log t)" "cl_commands t' = cl_commands t"
    "cl_connected t' = cl_connected t" "cl_status t' = cl_status t" "stop \<noteq> Some (Ok ())"
  using assms
  by (auto simp: run_tick_def cl_logged_def poll_once_logged split: Option.bind_split_asm sum.split_asm)

lemma handle_write_result_logged:
  "handle_write_result r label detail word = (res, log) \<Longrightarrow> writes_logged log = [(label, detail)]"
  by (auto simp: handle_write_result_def split: sum.split_asm modbus_error.split_asm)

text \<open>One received command: the write it logs, or the end of the run.\<close>

lemma run_command_cases:
  assumes "run_command dev t = (stop, t')"
  obtains (stopped) "stop = Some (Ok ())" "writes_logged (cl_log t') = writes_logged (cl_log t)"
      "pending (cl_commands t) = Terminate # pending (cl_commands t') \<or> pending (cl_commands t) = []"
      "cl_status t' = cl_status t @ [(Info, ''Client disconnected'')]"
    | (executed) c where "c \<noteq> Terminate" "pending (cl_commands t) = c # pending (cl_commands t')"
      "writes_logged (cl_log t') = writes_logged (cl_log t) @ List.map_filter sent_as [c]"
      "stop \<noteq> Some (Ok ())" "cl_status t' = cl_status t"
proof -
  obtain r cs where recv: "commands_recv (cl_commands t) = (r, cs)" by fastforce
  note p = commands_recv_pending [OF recv]
  let ?c = "case r of Some c \<Rightarrow> c | None \<Rightarrow> Terminate"
  show thesis
  proof (cases "command_request ?c")
    case None
    then have "?c = Terminate" by (cases ?c) simp_all
    then show thesis using assms recv p None
      by (intro stopped) (auto simp: run_command_def cl_logged_def cl_state_def split: option.split_asm)
  next
    case (Some q)
    then obtain label detail word where q: "command_request ?c = Some (label, detail, word)" by (cases q) auto
    then obtain c where c: "r = Some c" "c \<noteq> Terminate"
      by (cases r) (simp, metis command_request.simps(1) option.case(2) option.discI)
    obtain res log where w: "handle_write_result (dv_write dev c) label detail word = (res, log)" by fastforce
    show thesis
      using assms recv p q c w handle_write_result_logged [OF w]
      by (intro executed [of c])
        (auto simp: run_command_def cl_logged_def sent_as_def List.map_filter_def split: sum.split_asm)
  qed
qed


text \<open>How an attempt ends: abandoned or refused before it is connected, or run and then ended.\<close>

definition connected_task ::
  "('o, 'e) client_input \<Rightarrow> command list \<Rightarrow> ('t, 'o, 'e) client_task \<Rightarrow> ('t, 'o, 'e) client_task"
where
  "connected_task i parked t = cl_state ''Client connected''
     (t\<lparr>cl_connected := True, cl_commands := commands_new (ci_channel i) parked,
        cl_poll := (cl_poll t)\<lparr>pl_index := 0, pl_retries := 0, pl_had_success := False\<rparr>\<rparr>)"

definition ended :: "bool \<Rightarrow> ('o, 'e) client_line log \<Rightarrow> ('t, 'o, 'e) client_task \<Rightarrow> ('t, 'o, 'e) client_task" where
  "ended reconnect lines t = (if reconnect then cl_logged lines t else cl_state ''Client disconnected'' t)"

lemma client_attempt_cases:
  assumes "client_attempt keyf bc i t = Some (out, t')"
    "race_terminate (\<lambda>c. c = Terminate) (ci_race i) [] = Some (conn, parked)"
  obtains (abandoned) "conn = None" "out = Done" "t' = cl_state ''Client disconnected'' t"
    | (refused) att e lines where "conn = Some att" "ca_client att = Err e" "out = Failed e (ca_reconnect att) False"
      "t' = ended (ca_reconnect att) [] (cl_logged lines t)"
    | (finished) att h t2 where "conn = Some att" "out = Done"
      "client_run keyf bc (ci_events i) (connected_task i parked t) = Some (h, Ok (), t2)"
      "t' = t2\<lparr>cl_connected := False\<rparr>"
    | (dropped) att e h t2 where "conn = Some att" "out = Failed e (ca_reconnect att) h"
      "client_run keyf bc (ci_events i) (connected_task i parked t) = Some (h, Err e, t2)"
      "t' = ended (ca_reconnect att) [(Warning, ErrorText e)] (t2\<lparr>cl_connected := False\<rparr>)"
proof (cases conn)
  case None
  then show thesis using assms by (intro abandoned) (simp_all add: client_attempt_def)
next
  case (Some att)
  show thesis
  proof (cases "ca_client att")
    case (Inl e)
    let ?lines = "replicate (length parked) (Warning, CommandDropped dropped_msg) @
      [(Error, if ca_reconnect att then ErrorText e else ReconnectDisabled e)]"
    from Inl Some assms show thesis
      by (intro refused [of att e ?lines])
        (auto simp: client_attempt_def ended_def cl_logged_def cl_state_def Let_def)
  next
    case (Inr u)
    obtain h r t2 where run: "client_run keyf bc (ci_events i) (connected_task i parked t) = Some (h, r, t2)"
      using assms Some Inr by (cases "client_run keyf bc (ci_events i) (connected_task i parked t)")
        (auto simp: client_attempt_def connected_task_def Let_def)
    with assms Some Inr show thesis
      by (cases r) (auto simp: client_attempt_def connected_task_def ended_def Let_def
          intro: finished [of att h t2] dropped [of att _ h t2])
  qed
qed



definition demo_client_task :: "(slave_key, nat, nat) client_task" where
  "demo_client_task = \<lparr>cl_poll = demo_poll, cl_commands = commands_new [] [], cl_connected = False, cl_log = [],
     cl_status = [], cl_reports = []\<rparr>"

definition demo_commands :: "(nat, nat) client_input" where
  "demo_commands = \<lparr>
     ci_race = [RaceCommand (WriteSingleRegister 1 0 5), RaceReady \<lparr>ca_reconnect = True, ca_client = Ok ()\<rparr>],
     ci_channel = [WriteSingleCoil 1 2 True, Terminate, WriteSingleCoil 1 3 True],
     ci_events = [RunRecv demo_device, RunRecv demo_device, RunRecv demo_device]\<rparr>"



section \<open>The state a client task is in between connections\<close>

fun tick_ok :: "('o, 'e) run_event \<Rightarrow> bool" where
  "tick_ok (RunTick ops dev) \<longleftrightarrow> list_all (\<lambda>op. wf_range (op_range op)) ops"
| "tick_ok (RunRecv dev) \<longleftrightarrow> True"

definition idle :: "('t, 'o, 'e) client_task \<Rightarrow> bool" where
  "idle t \<longleftrightarrow> \<not> cl_connected t \<and> store_reachable (pl_memory (cl_poll t))"

definition says_disconnected :: "('t, 'o, 'e) client_task \<Rightarrow> bool" where
  "says_disconnected t \<longleftrightarrow> (\<exists>ss. cl_status t = ss @ [(Info, ''Client disconnected'')])"

lemma says_disconnected_state [simp]: "says_disconnected (cl_state ''Client disconnected'' t)"
  by (simp add: says_disconnected_def cl_state_def)

lemma run_tick_reachable:
  assumes "run_tick keyf bc ops dev t = Some (stop, t')" "tick_ok (RunTick ops dev)"
    "store_reachable (pl_memory (cl_poll t))"
  shows "store_reachable (pl_memory (cl_poll t'))"
proof (cases "ops = []")
  case True
  with assms show ?thesis by (auto simp: run_tick_def poll_once_def cl_logged_def Let_def split: if_splits)
next
  case False
  obtain res st reports log where "poll_once keyf bc dev ops (cl_poll t) = Some (res, st, reports, log)"
      "store_reachable (pl_memory st)"
    using poll_once_cases [OF assms(3) assms(2) [unfolded tick_ok.simps] False, of keyf bc dev] by metis
  with assms(1) show ?thesis by (auto simp: run_tick_def cl_logged_def)
qed

lemma run_command_poll: "run_command dev t = (stop, t') \<Longrightarrow> cl_poll t' = cl_poll t"
  by (auto simp: run_command_def cl_logged_def cl_state_def Let_def split: prod.split_asm option.split_asm)

lemma client_run_reachable:
  assumes "client_run keyf bc evs t = Some (h, r, t')" "list_all tick_ok evs"
    "store_reachable (pl_memory (cl_poll t))"
  shows "store_reachable (pl_memory (cl_poll t'))"
  using assms
proof (induction keyf bc evs t rule: client_run.induct)
  case (2 keyf bc ops dev evs t)
  obtain stop t1 where s: "run_tick keyf bc ops dev t = Some (stop, t1)"
    using 2(2) by (cases "run_tick keyf bc ops dev t") auto
  have "store_reachable (pl_memory (cl_poll t1))" using run_tick_reachable [OF s] 2(3,4) by simp
  then show ?case using 2(1) [OF s refl] 2(2,3) s by (cases stop) auto
next
  case (3 keyf bc dev evs t)
  obtain stop t1 where s: "run_command dev t = (stop, t1)" by fastforce
  have "store_reachable (pl_memory (cl_poll t1))" using run_command_poll [OF s] 3(4) by simp
  then show ?case using 3(1) [OF s [symmetric] refl] 3(2,3) s by (cases stop) auto
qed simp

lemma client_run_says:
  "client_run keyf bc evs t = Some (h, Ok (), t') \<Longrightarrow> says_disconnected t'"
proof (induction keyf bc evs t rule: client_run.induct)
  case (2 keyf bc ops dev evs t)
  obtain stop t1 where s: "run_tick keyf bc ops dev t = Some (stop, t1)"
    using 2(2) by (cases "run_tick keyf bc ops dev t") auto
  then show ?case using 2(1) [OF s refl] 2(2) run_tick_frame(5) [OF s] by (cases stop) auto
next
  case (3 keyf bc dev evs t)
  obtain stop t1 where s: "run_command dev t = (stop, t1)" by fastforce
  then show ?case
    by (cases rule: run_command_cases)
      (use 3(1) [OF s [symmetric] refl] 3(2) s in \<open>auto simp: says_disconnected_def split: option.split_asm\<close>)
qed simp

lemma client_attempt_idle:
  assumes "client_attempt keyf bc i t = Some (out, t')" "list_all tick_ok (ci_events i)" "idle t"
  shows "idle t'"
proof -
  obtain conn parked where race: "race_terminate (\<lambda>c. c = Terminate) (ci_race i) [] = Some (conn, parked)"
    using assms(1) by (cases "race_terminate (\<lambda>c. c = Terminate) (ci_race i) []") (auto simp: client_attempt_def)
  have "store_reachable (pl_memory (cl_poll (connected_task i parked t)))"
    using assms(3) by (simp add: idle_def connected_task_def cl_state_def)
  note reach = client_run_reachable [OF _ assms(2) this]
  from assms(1) race show ?thesis
    by (cases rule: client_attempt_cases)
      (use assms(3) reach in \<open>auto simp: idle_def ended_def cl_state_def cl_logged_def\<close>)
qed

lemma client_attempt_says:
  assumes "client_attempt keyf bc i t = Some (out, t')" "case out of Done \<Rightarrow> True | Failed e reconnect reset \<Rightarrow> \<not> reconnect"
  shows "says_disconnected t'"
proof -
  obtain conn parked where race: "race_terminate (\<lambda>c. c = Terminate) (ci_race i) [] = Some (conn, parked)"
    using assms(1) by (cases "race_terminate (\<lambda>c. c = Terminate) (ci_race i) []") (auto simp: client_attempt_def)
  from assms(1) race show ?thesis
    by (cases rule: client_attempt_cases)
      (use assms(2) client_run_says in \<open>force simp: ended_def says_disconnected_def cl_state_def\<close>)+
qed

lemma client_wait_end:
  assumes "client_wait_abortable w d t = (aborted, t')"
  shows "idle t' = idle t" "aborted \<Longrightarrow> says_disconnected t'"
  using assms by (auto simp: client_wait_abortable_def idle_def cl_logged_def cl_state_def Let_def says_disconnected_def
      split: prod.split_asm if_splits)

text \<open>
  C20. Whenever no connection is up the client's connected flag is off and its store is one the
  store's operations can produce; and when the client task returns, for whatever reason, the last
  status it has reported is that it is disconnected.
\<close>

theorem client_task_settles:
  assumes "\<forall>(i, w) \<in> set env. list_all tick_ok (ci_events i)" "\<not> cl_connected t"
    and "store_reachable (pl_memory (cl_poll t))" "run_reconnect_loop keyf bc env t = Some (r, t')"
  shows "\<not> cl_connected t' \<and> store_reachable (pl_memory (cl_poll t')) \<and>
    (case r of Returned x \<Rightarrow> says_disconnected t' | Running d \<Rightarrow> True)"
proof -
  have run: "backoff_run backoff_policy_default (client_attempt keyf bc) client_wait_abortable
      (bp_initial backoff_policy_default) env t = Some (r, t')"
    using assms(4) by (simp add: run_reconnect_loop_def)
  have "idle t'"
  proof (rule backoff_run_keeps [where Q = idle, OF _ _ run])
    fix i w s out s'
    assume "(i, w) \<in> set env" "idle s" and att: "client_attempt keyf bc i s = Some (out, s')"
    with assms(1) client_attempt_idle [OF att] show "idle s'" by auto
  next
    show "idle s'" if "idle s" "client_wait_abortable w d s = (a, s')" for w d s a s'
      using that client_wait_end(1) by blast
  qed (use assms(2,3) in \<open>simp add: idle_def\<close>)
  moreover have "says_disconnected t'" if "r = Returned x" for x
    using run unfolding that
    by (rule backoff_run_returned [where Q = says_disconnected, rotated 3])
      (auto dest: client_attempt_says client_wait_end(2))
  ultimately show ?thesis by (auto simp: idle_def split: run_end.split)
qed

definition demo_refused :: "(nat, nat) client_input" where
  "demo_refused = \<lparr>ci_race = [RaceReady \<lparr>ca_reconnect = True, ca_client = Err (ErrTcp TcpTimeout)\<rparr>],
     ci_channel = [], ci_events = []\<rparr>"

theorem client_task_settles_witness:
  "\<exists>t'. run_reconnect_loop from_slave_fn (\<lambda>_. False)
      [(demo_refused, \<lparr>cw_now = 0, cw_tie = False, cw_events = []\<rparr>), (demo_commands, \<lparr>cw_now = 0, cw_tie = False, cw_events = []\<rparr>)]
      demo_client_task = Some (Returned (Ok ()), t') \<and>
    \<not> cl_connected t' \<and> store_reachable (pl_memory (cl_poll t')) \<and> says_disconnected t'"
proof -
  obtain t' where run: "run_reconnect_loop from_slave_fn (\<lambda>_. False)
      [(demo_refused, \<lparr>cw_now = 0, cw_tie = False, cw_events = []\<rparr>), (demo_commands, \<lparr>cw_now = 0, cw_tie = False, cw_events = []\<rparr>)]
      demo_client_task = Some (Returned (Ok ()), t')"
    by (simp add: run_reconnect_loop_def client_attempt_def demo_commands_def demo_refused_def demo_client_task_def
        run_command_def commands_recv_def commands_new_def handle_write_result_def classify_def demo_device_def
        cl_state_def cl_logged_def client_wait_abortable_def wait_backoff_def backoff_policy_default_def from_secs_def
        duration_twice_def duration_max_def Let_def)
  from client_task_settles [OF _ _ _ run] run show ?thesis
    by (simp add: demo_commands_def demo_refused_def demo_client_task_def demo_poll_def demo_unit_reachable)
qed

section \<open>Refusals\<close>

text \<open>
  A read reaches the device exactly when its start and length fit the two 16-bit fields, its
  slave is not the broadcast address and its function code is one of the four reads, and then with
  the operation's own start and length; anything else is answered locally with an exception,
  whatever the device would say, and never disconnects.
\<close>

theorem client_read_guards:
  assumes "wf_range (op_range op)"
  shows "\<exists>name log addr count.
    client_read bc dev op = Some (name,
      if on_wire bc op then
        (if op_fn_code op = FC_ReadCoils \<or> op_fn_code op = FC_ReadDiscreteInputs
         then map_sum (\<lambda>e. e) bits_to_words (classify (dv_bits dev (op_fn_code op) (op_slave_id op) addr count))
         else classify (dv_words dev (op_fn_code op) (op_slave_id op) addr count))
      else Err (MbException (local_refusal bc op)), log) \<and>
    (on_wire bc op \<longrightarrow> unat addr = r_start (op_range op) \<and>
       unat addr + unat count = r_end (op_range op))"
proof -
  let ?addr = "of_nat (r_start (op_range op)) :: u16"
  let ?count = "of_nat (r_end (op_range op) - r_start (op_range op)) :: u16"
  obtain name log where "client_read bc dev op =
      Some (name, if on_wire bc op then wire_answer dev op else Err (MbException (local_refusal bc op)), log)"
    using client_read_eq [OF assms] by blast
  moreover have "wire_answer dev op =
      (if op_fn_code op = FC_ReadCoils \<or> op_fn_code op = FC_ReadDiscreteInputs
       then map_sum (\<lambda>e. e) bits_to_words (classify (dv_bits dev (op_fn_code op) (op_slave_id op) ?addr ?count))
       else classify (dv_words dev (op_fn_code op) (op_slave_id op) ?addr ?count))"
    by (cases "op_fn_code op") (simp_all add: wire_answer_def Let_def)
  moreover have "unat ?addr = r_start (op_range op) \<and> unat ?addr + unat ?count = r_end (op_range op)" if "on_wire bc op"
    using that assms by (cases "op_range op") (simp add: on_wire_def del: of_nat_diff)
  ultimately show ?thesis
    by (rule_tac exI [of _ name], rule_tac exI [of _ log], rule_tac exI [of _ ?addr], rule_tac exI [of _ ?count]) simp
qed

theorem client_read_guards_witness:
  "\<exists>name log. client_read (\<lambda>u. u = 0) demo_device (demo_op FC_ReadHoldingRegisters) = Some (name, Ok [7, 8], log)"
proof -
  have "wf_range (op_range (demo_op FC_ReadHoldingRegisters))" by (simp add: demo_op_def usize_max_def)
  from client_read_guards [OF this, of "\<lambda>u. u = 0" demo_device] show ?thesis
    by (auto simp: demo_op_def demo_device_def on_wire_def classify_def)
qed


end
