(* ===== verification/Monitor.thy ===== *)
theory Monitor
  imports Modbus_Serve Ordered_Map "HOL-Library.AList"
begin

text \<open>
  The bus monitor (\<^verbatim>\<open>ferrowl-modbus/src/monitor/\<close>): the table of observed values (\<^verbatim>\<open>table.rs\<close>), the
  per-slave rings of message records (\<^verbatim>\<open>record.rs\<close>), and the machine that decodes frames, pairs
  requests with responses and feeds both (\<^verbatim>\<open>core.rs\<close>), up to the task that opens the port and
  retries. Frame decoding and the function code of a message are the protocol library's and are
  arguments; the instants the code stamps records with are inputs.
\<close>

section \<open>The observed-value table (table.rs)\<close>

type_synonym region = "(u16 \<times> u16) list"

text \<open>The hash map is an association list, the ordered set of slave ids a list of entries.\<close>

record observed_table =
  ot_values :: "(slave_key key \<times> region) list"
  ot_seen :: "(unit_id \<times> unit) list"

definition table_default :: observed_table where
  "table_default = \<lparr>ot_values = [], ot_seen = []\<rparr>"

definition u16_checked_add :: "u16 \<Rightarrow> u16 \<Rightarrow> u16 option" where
  "u16_checked_add a b = (if unat a + unat b < 65536 then Some (a + b) else None)"

text \<open>The loop over the enumerated words: the offset is cast to 16 bits and an overflow ends it.\<close>

fun write_region :: "u16 \<Rightarrow> nat \<Rightarrow> u16 list \<Rightarrow> region \<Rightarrow> region" where
  "write_region address off [] region = region"
| "write_region address off (w # ws) region =
     (case u16_checked_add address (of_nat off) of
        None \<Rightarrow> region
      | Some addr \<Rightarrow> write_region address (Suc off) ws (bt_insert addr w region))"

definition region_of :: "observed_table \<Rightarrow> slave_key key \<Rightarrow> region option" where
  "region_of t k = map_of (ot_values t) k"

definition table_write_words :: "slave_key key \<Rightarrow> u16 \<Rightarrow> u16 list \<Rightarrow> observed_table \<Rightarrow> observed_table" where
  "table_write_words k address ws t =
     (let region = (case region_of t k of Some r \<Rightarrow> r | None \<Rightarrow> [])
      in t\<lparr>ot_values := AList.update k (write_region address 0 ws region) (ot_values t)\<rparr>)"

text \<open>The loop over the offsets still to read.\<close>

fun read_region :: "region \<Rightarrow> u16 \<Rightarrow> nat \<Rightarrow> nat \<Rightarrow> u16 list option" where
  "read_region region address off 0 = Some []"
| "read_region region address off (Suc n) = do {
     addr \<leftarrow> u16_checked_add address (of_nat off);
     w \<leftarrow> map_of region addr;
     ws \<leftarrow> read_region region address (Suc off) n;
     Some (w # ws)
   }"

definition table_read_words :: "observed_table \<Rightarrow> slave_key key \<Rightarrow> u16 \<Rightarrow> usize \<Rightarrow> u16 list option" where
  "table_read_words t k address width = do {
     region \<leftarrow> region_of t k;
     read_region region address 0 width
   }"

definition table_dump :: "observed_table \<Rightarrow> slave_key key \<Rightarrow> (u16 \<times> u16) list" where
  "table_dump t k = (case region_of t k of Some region \<Rightarrow> region | None \<Rightarrow> [])"

definition mark_seen :: "unit_id \<Rightarrow> observed_table \<Rightarrow> observed_table" where
  "mark_seen slave t = t\<lparr>ot_seen := bt_insert slave () (ot_seen t)\<rparr>"

definition unit_ids :: "observed_table \<Rightarrow> unit_id list" where
  "unit_ids t =
     map fst (fold (\<lambda>u. bt_insert u ())
       (map (\<lambda>e. sk_slave_id (key_id (fst e))) (ot_values t) @ map fst (ot_seen t)) [])"

section \<open>Message records (record.rs)\<close>

datatype 'o record_status = StOk | StUnmatched | StException "'o exception_code"

record table_shape =
  ts_kind :: Codec_Format.reg_kind
  ts_address :: u16
  ts_quantity :: u16
  ts_write_address :: "u16 option"
  ts_write_quantity :: "u16 option"
  ts_values :: "u16 list"

text \<open>Instants are nanoseconds.\<close>

record 'o monitor_record =
  mr_timestamp :: nat
  mr_status :: "'o record_status"
  mr_operation :: "'o function_code"
  mr_shape :: "table_shape option"

definition RECORD_RING_CAPACITY :: usize where
  "RECORD_RING_CAPACITY = 200"

record 'o slave_ring =
  sr_ring :: "'o monitor_record list"
  sr_generation :: u64

definition slave_ring_default :: "'o slave_ring" where
  "slave_ring_default = \<lparr>sr_ring = [], sr_generation = 0\<rparr>"

type_synonym 'o record_log = "unit_id \<rightharpoonup> 'o slave_ring"

text \<open>The counter is checked: an increment past its maximum panics.\<close>

definition records_push :: "unit_id \<Rightarrow> 'o monitor_record \<Rightarrow> 'o record_log \<Rightarrow> 'o record_log option" where
  "records_push slave rec log =
     (let entry = (case log slave of Some e \<Rightarrow> e | None \<Rightarrow> slave_ring_default);
          ring = (if length (sr_ring entry) = RECORD_RING_CAPACITY then tl (sr_ring entry) else sr_ring entry)
      in if unat (sr_generation entry) + 1 \<ge> 2 ^ 64 then None
         else Some (log(slave \<mapsto> \<lparr>sr_ring = ring @ [rec], sr_generation = sr_generation entry + 1\<rparr>)))"

definition records_for :: "'o record_log \<Rightarrow> unit_id \<Rightarrow> 'o monitor_record list" where
  "records_for log slave = (case log slave of Some e \<Rightarrow> sr_ring e | None \<Rightarrow> [])"

definition generation_for :: "'o record_log \<Rightarrow> unit_id \<Rightarrow> u64" where
  "generation_for log slave = (case log slave of Some e \<Rightarrow> sr_generation e | None \<Rightarrow> 0)"

text \<open>The subtraction saturates, as it does on \<open>nat\<close>.\<close>

definition recent_for :: "'o record_log \<Rightarrow> unit_id \<Rightarrow> usize \<Rightarrow> 'o monitor_record list" where
  "recent_for log slave n =
     (case log slave of
        Some e \<Rightarrow> drop (length (sr_ring e) - n) (sr_ring e)
      | None \<Rightarrow> [])"

text \<open>\<open>duration_since\<close> saturates to zero for a later instant.\<close>

definition recency_active_at ::
  "'o monitor_record list \<Rightarrow> Codec_Format.reg_kind \<Rightarrow> u16 \<Rightarrow> nat \<Rightarrow> bool"
where
  "recency_active_at recs kind address now =
     list_ex (\<lambda>r. now - mr_timestamp r < from_secs 2 \<and>
        (case mr_shape r of
           None \<Rightarrow> False
         | Some s \<Rightarrow> ts_kind s = kind \<and> unat (ts_address s) \<le> unat address \<and>
             unat address < unat (ts_address s) + unat (ts_quantity s))) (rev recs)"

section \<open>Pairing requests with responses (core.rs)\<close>

datatype 'o match_state =
    ExpectRequest
  | ExpectResponse unit_id "'o function_code" "'o request_pdu"

datatype ('o, 'e) monitor_end = MonTerminated | MonFailed "('o, 'e) rmb_error"

datatype ('o, 'e) monitor_line =
    MalformedDiscarded "('o, 'e) rmb_error"
  | MalformedAwaiting
  | Complete unit_id "'o request_pdu" "'o response_pdu"
  | CompleteBroadcast unit_id "'o request_pdu"
  | Unmatched unit_id "'o request_pdu"
  | PathTaken string string
  | PortFailed string "('o, 'e) rmb_error"
  | PortOpened string

record ('o, 'e) framing =
  fr_decode_request :: "u8 list \<Rightarrow> (('o, 'e) rmb_error, unit_id \<times> 'o request_pdu) result"
  fr_decode_response :: "u8 list \<Rightarrow> (('o, 'e) rmb_error, unit_id \<times> 'o response_pdu) result"
  fr_request_function :: "'o request_pdu \<Rightarrow> 'o function_code"
  fr_response_function :: "'o response_pdu \<Rightarrow> 'o function_code"

record ('o, 'e) monitor =
  mn_table :: observed_table
  mn_records :: "'o record_log"
  mn_log :: "('o, 'e) monitor_line log"

definition mn_logged :: "level \<Rightarrow> ('o, 'e) monitor_line \<Rightarrow> ('o, 'e) monitor \<Rightarrow> ('o, 'e) monitor" where
  "mn_logged lv l m = m\<lparr>mn_log := mn_log m @ [(lv, l)]\<rparr>"

definition bit_words :: "bool list \<Rightarrow> u16 list" where
  "bit_words bits = map (\<lambda>b. if b then 1 else 0) bits"

definition plain_shape :: "Codec_Format.reg_kind \<Rightarrow> u16 \<Rightarrow> u16 \<Rightarrow> u16 list \<Rightarrow> table_shape" where
  "plain_shape kind address quantity values =
     \<lparr>ts_kind = kind, ts_address = address, ts_quantity = quantity, ts_write_address = None,
      ts_write_quantity = None, ts_values = values\<rparr>"

definition len16 :: "'a list \<Rightarrow> u16" where
  "len16 xs = of_nat (length xs)"

definition shape_from_pair :: "'o request_pdu \<Rightarrow> 'o response_pdu \<Rightarrow> table_shape option" where
  "shape_from_pair request response =
     (case (request, response) of
        (RqReadCoils a q, RsReadCoils bs) \<Rightarrow> Some (plain_shape KCoil a q (bit_words bs))
      | (RqReadDiscreteInputs a q, RsReadDiscreteInputs bs) \<Rightarrow> Some (plain_shape DiscreteInput a q (bit_words bs))
      | (RqReadHoldingRegisters a q, RsReadHoldingRegisters rs) \<Rightarrow> Some (plain_shape HoldingRegister a q rs)
      | (RqReadInputRegisters a q, RsReadInputRegisters rs) \<Rightarrow> Some (plain_shape InputRegister a q rs)
      | (RqWriteSingleCoil a v, RsWriteSingleCoil _ _) \<Rightarrow> Some (plain_shape KCoil a 1 (bit_words [v]))
      | (RqWriteSingleRegister a v, RsWriteSingleRegister _ _) \<Rightarrow> Some (plain_shape HoldingRegister a 1 [v])
      | (RqWriteMultipleCoils a bs, RsWriteMultipleCoils _ _) \<Rightarrow>
          Some (plain_shape KCoil a (len16 bs) (bit_words bs))
      | (RqWriteMultipleRegisters a rs, RsWriteMultipleRegisters _ _) \<Rightarrow>
          Some (plain_shape HoldingRegister a (len16 rs) rs)
      | (RqReadWriteMultipleRegisters ra q wa rs, RsReadWriteMultipleRegisters vs) \<Rightarrow>
          Some \<lparr>ts_kind = HoldingRegister, ts_address = ra, ts_quantity = q, ts_write_address = Some wa,
            ts_write_quantity = Some (len16 rs), ts_values = vs\<rparr>
      | _ \<Rightarrow> None)"

fun shape_from_broadcast :: "'o request_pdu \<Rightarrow> table_shape option" where
  "shape_from_broadcast (RqWriteSingleCoil a v) = Some (plain_shape KCoil a 1 (bit_words [v]))"
| "shape_from_broadcast (RqWriteSingleRegister a v) = Some (plain_shape HoldingRegister a 1 [v])"
| "shape_from_broadcast (RqWriteMultipleCoils a bs) = Some (plain_shape KCoil a (len16 bs) (bit_words bs))"
| "shape_from_broadcast (RqWriteMultipleRegisters a rs) = Some (plain_shape HoldingRegister a (len16 rs) rs)"
| "shape_from_broadcast (RqReadWriteMultipleRegisters _ _ wa rs) =
     Some (plain_shape HoldingRegister wa (len16 rs) rs)"
| "shape_from_broadcast _ = None"

fun shape_address_only :: "'o request_pdu \<Rightarrow> table_shape option" where
  "shape_address_only (RqReadCoils a q) = Some (plain_shape KCoil a q [])"
| "shape_address_only (RqReadDiscreteInputs a q) = Some (plain_shape DiscreteInput a q [])"
| "shape_address_only (RqReadHoldingRegisters a q) = Some (plain_shape HoldingRegister a q [])"
| "shape_address_only (RqReadInputRegisters a q) = Some (plain_shape InputRegister a q [])"
| "shape_address_only (RqWriteSingleCoil a _) = Some (plain_shape KCoil a 1 [])"
| "shape_address_only (RqWriteSingleRegister a _) = Some (plain_shape HoldingRegister a 1 [])"
| "shape_address_only (RqWriteMultipleCoils a bs) = Some (plain_shape KCoil a (len16 bs) [])"
| "shape_address_only (RqWriteMultipleRegisters a rs) = Some (plain_shape HoldingRegister a (len16 rs) [])"
| "shape_address_only (RqReadWriteMultipleRegisters ra q wa rs) =
     Some \<lparr>ts_kind = HoldingRegister, ts_address = ra, ts_quantity = q, ts_write_address = Some wa,
       ts_write_quantity = Some (len16 rs), ts_values = []\<rparr>"
| "shape_address_only (RqOther _) = None"

section \<open>Applying traffic to the table\<close>

definition mon_write_words ::
  "unit_id \<Rightarrow> Codec_Format.reg_kind \<Rightarrow> u16 \<Rightarrow> u16 list \<Rightarrow> observed_table \<Rightarrow> observed_table"
where
  "mon_write_words slave kind address ws t =
     table_write_words (Key \<lparr>sk_slave_id = slave, sk_kind = kind\<rparr>) address ws t"

definition mon_write_bits ::
  "unit_id \<Rightarrow> Codec_Format.reg_kind \<Rightarrow> u16 \<Rightarrow> bool list \<Rightarrow> observed_table \<Rightarrow> observed_table"
where
  "mon_write_bits slave kind address bits t = mon_write_words slave kind address (bit_words bits) t"

definition mon_write_regs ::
  "unit_id \<Rightarrow> Codec_Format.reg_kind \<Rightarrow> u16 \<Rightarrow> u16 list \<Rightarrow> observed_table \<Rightarrow> observed_table"
where
  "mon_write_regs slave kind address regs t = mon_write_words slave kind address regs t"

definition apply_matched ::
  "unit_id \<Rightarrow> 'o request_pdu \<Rightarrow> 'o response_pdu \<Rightarrow> observed_table \<Rightarrow> observed_table"
where
  "apply_matched slave request response t =
     (case (request, response) of
        (RqReadCoils a _, RsReadCoils bs) \<Rightarrow> mon_write_bits slave KCoil a bs t
      | (RqReadDiscreteInputs a _, RsReadDiscreteInputs bs) \<Rightarrow> mon_write_bits slave DiscreteInput a bs t
      | (RqReadHoldingRegisters a _, RsReadHoldingRegisters rs) \<Rightarrow> mon_write_regs slave HoldingRegister a rs t
      | (RqReadInputRegisters a _, RsReadInputRegisters rs) \<Rightarrow> mon_write_regs slave InputRegister a rs t
      | (RqWriteSingleCoil a v, RsWriteSingleCoil _ _) \<Rightarrow> mon_write_bits slave KCoil a [v] t
      | (RqWriteSingleRegister a v, RsWriteSingleRegister _ _) \<Rightarrow> mon_write_words slave HoldingRegister a [v] t
      | (RqWriteMultipleCoils a bs, RsWriteMultipleCoils _ _) \<Rightarrow> mon_write_bits slave KCoil a bs t
      | (RqWriteMultipleRegisters a rs, RsWriteMultipleRegisters _ _) \<Rightarrow>
          mon_write_regs slave HoldingRegister a rs t
      | (RqReadWriteMultipleRegisters ra _ wa rs, RsReadWriteMultipleRegisters vs) \<Rightarrow>
          mon_write_regs slave HoldingRegister wa rs (mon_write_regs slave HoldingRegister ra vs t)
      | _ \<Rightarrow> t)"

fun apply_broadcast :: "unit_id \<Rightarrow> 'o request_pdu \<Rightarrow> observed_table \<Rightarrow> observed_table" where
  "apply_broadcast slave (RqWriteSingleCoil a v) t = mon_write_bits slave KCoil a [v] t"
| "apply_broadcast slave (RqWriteSingleRegister a v) t = mon_write_words slave HoldingRegister a [v] t"
| "apply_broadcast slave (RqWriteMultipleCoils a bs) t = mon_write_bits slave KCoil a bs t"
| "apply_broadcast slave (RqWriteMultipleRegisters a rs) t = mon_write_regs slave HoldingRegister a rs t"
| "apply_broadcast slave (RqReadWriteMultipleRegisters _ _ wa rs) t = mon_write_regs slave HoldingRegister wa rs t"
| "apply_broadcast slave _ t = t"

section \<open>One frame\<close>

text \<open>The steps thread the monitor's state; \<open>now\<close> is the instant a record is stamped with.\<close>

definition push_record ::
  "unit_id \<Rightarrow> 'o monitor_record \<Rightarrow> ('o, 'e) monitor \<Rightarrow> ('o, 'e) monitor option"
where
  "push_record slave rec m = do {
     records \<leftarrow> records_push slave rec (mn_records m);
     Some (m\<lparr>mn_records := records\<rparr>)
   }"

definition push_matched_record ::
  "('o, 'e) framing \<Rightarrow> nat \<Rightarrow> unit_id \<Rightarrow> 'o request_pdu \<Rightarrow> 'o response_pdu \<Rightarrow> ('o, 'e) monitor
     \<Rightarrow> ('o, 'e) monitor option"
where
  "push_matched_record fr now slave request response m =
     (let (status, shape) = (case response of
            RsException _ e \<Rightarrow> (StException e, shape_address_only request)
          | _ \<Rightarrow> (StOk, shape_from_pair request response))
      in push_record slave
        \<lparr>mr_timestamp = now, mr_status = status, mr_operation = fr_request_function fr request, mr_shape = shape\<rparr> m)"

definition push_unmatched_record ::
  "('o, 'e) framing \<Rightarrow> nat \<Rightarrow> unit_id \<Rightarrow> 'o request_pdu \<Rightarrow> ('o, 'e) monitor \<Rightarrow> ('o, 'e) monitor option"
where
  "push_unmatched_record fr now slave request m =
     push_record slave
       \<lparr>mr_timestamp = now, mr_status = StUnmatched, mr_operation = fr_request_function fr request,
        mr_shape = shape_address_only request\<rparr> m"

definition push_broadcast_record ::
  "('o, 'e) framing \<Rightarrow> nat \<Rightarrow> unit_id \<Rightarrow> 'o request_pdu \<Rightarrow> ('o, 'e) monitor \<Rightarrow> ('o, 'e) monitor option"
where
  "push_broadcast_record fr now slave request m =
     push_record slave
       \<lparr>mr_timestamp = now, mr_status = StOk, mr_operation = fr_request_function fr request,
        mr_shape = shape_from_broadcast request\<rparr> m"

definition log_complete ::
  "unit_id \<Rightarrow> 'o request_pdu \<Rightarrow> 'o response_pdu option \<Rightarrow> ('o, 'e) monitor \<Rightarrow> ('o, 'e) monitor"
where
  "log_complete slave request response m =
     mn_logged Info (case response of
        Some rs \<Rightarrow> Complete slave request rs
      | None \<Rightarrow> CompleteBroadcast slave request) m"

definition log_unmatched :: "unit_id \<Rightarrow> 'o request_pdu \<Rightarrow> ('o, 'e) monitor \<Rightarrow> ('o, 'e) monitor" where
  "log_unmatched slave request m = mn_logged Warning (Unmatched slave request) m"

definition handle_new_request ::
  "('o, 'e) framing \<Rightarrow> nat \<Rightarrow> unit_id \<Rightarrow> 'o request_pdu \<Rightarrow> ('o, 'e) monitor
     \<Rightarrow> ('o match_state \<times> ('o, 'e) monitor) option"
where
  "handle_new_request fr now slave request m =
     (let m1 = m\<lparr>mn_table := mark_seen slave (mn_table m)\<rparr> in
      if slave = 0 then do {
        m2 \<leftarrow> push_broadcast_record fr now slave request (log_complete slave request None m1);
        Some (ExpectRequest, m2\<lparr>mn_table := apply_broadcast slave request (mn_table m2)\<rparr>)
      }
      else Some (ExpectResponse slave (fr_request_function fr request) request, m1))"

definition process_frame ::
  "('o, 'e) framing \<Rightarrow> nat \<Rightarrow> u8 list \<Rightarrow> 'o match_state \<Rightarrow> ('o, 'e) monitor
     \<Rightarrow> ('o match_state \<times> ('o, 'e) monitor) option"
where
  "process_frame fr now bytes state m =
     (case state of
        ExpectRequest \<Rightarrow>
          (case fr_decode_request fr bytes of
             Err e \<Rightarrow> Some (ExpectRequest, mn_logged Warning (MalformedDiscarded e) m)
           | Ok (slave, request) \<Rightarrow> handle_new_request fr now slave request m)
      | ExpectResponse slave function_code request \<Rightarrow>
          let otherwise =
            (case fr_decode_request fr bytes of
               Ok (new_slave, new_request) \<Rightarrow> do {
                 m1 \<leftarrow> push_unmatched_record fr now slave request (log_unmatched slave request m);
                 handle_new_request fr now new_slave new_request m1
               }
             | Err _ \<Rightarrow> Some (ExpectResponse slave function_code request, mn_logged Warning MalformedAwaiting m))
          in (case fr_decode_response fr bytes of
                Ok (resp_slave, response) \<Rightarrow>
                  if resp_slave = slave \<and> fr_response_function fr response = function_code then do {
                    m1 \<leftarrow> push_matched_record fr now slave request response
                           (log_complete slave request (Some response) m);
                    Some (ExpectRequest, m1\<lparr>mn_table := apply_matched slave request response (mn_table m1)\<rparr>)
                  }
                  else otherwise
              | Err _ \<Rightarrow> otherwise))"

section \<open>The receive loop and its task\<close>

text \<open>A received frame with its instant, a failed read, or anything on the command channel.\<close>

datatype ('o, 'e) monitor_event =
    MonFrame nat "u8 list"
  | MonReadFailed "('o, 'e) rmb_error"
  | MonCommand "server_command option"

fun drive_monitor ::
  "('o, 'e) framing \<Rightarrow> ('o, 'e) monitor_event list \<Rightarrow> 'o match_state \<Rightarrow> bool \<Rightarrow> ('o, 'e) monitor
     \<Rightarrow> (('o, 'e) monitor_end \<times> bool \<times> ('o, 'e) monitor) option"
where
  "drive_monitor fr [] state activity m = None"
| "drive_monitor fr (MonReadFailed e # evs) state activity m = Some (MonFailed e, activity, m)"
| "drive_monitor fr (MonCommand c # evs) state activity m = Some (MonTerminated, activity, m)"
| "drive_monitor fr (MonFrame now bytes # evs) state activity m = do {
     (state', m') \<leftarrow> process_frame fr now bytes state m;
     drive_monitor fr evs state' True m'
   }"

record ('o, 'e) monitor_input =
  mi_reconnect :: bool
  mi_baud :: u32
  mi_data_bits :: "u8 option"
  mi_stop_bits :: "u8 option"
  mi_parity :: "string option"
  mi_path :: string
  mi_home :: "string option"
  mi_conflict :: path_conflict_cell
  mi_timing :: "serial_config \<Rightarrow> (('o, 'e) rmb_error, unit) result"
  mi_opener :: "string \<Rightarrow> serial_config \<Rightarrow> (('o, 'e) rmb_error, unit) result"
  mi_events :: "('o, 'e) monitor_event list"

record ('o, 'e) monitor_task =
  mt_monitor :: "('o, 'e) monitor"
  mt_open :: connected_cell
  mt_status :: "string log"

definition mt_logged ::
  "level \<Rightarrow> ('o, 'e) monitor_line \<Rightarrow> ('o, 'e) monitor_task \<Rightarrow> ('o, 'e) monitor_task"
where
  "mt_logged lv l t = t\<lparr>mt_monitor := mn_logged lv l (mt_monitor t)\<rparr>"

definition monitor_attempt ::
  "('o, 'e) framing \<Rightarrow> serial_config \<Rightarrow> ('o, 'e) monitor_input \<Rightarrow> ('o, 'e) monitor_task
     \<Rightarrow> (('o, 'e) mb_err attempt_outcome \<times> ('o, 'e) monitor_task) option"
where
  "monitor_attempt fr defaults i t =
     (let reconnect = mi_reconnect i in
      case serial_config_from defaults (mi_baud i) (mi_data_bits i) (mi_stop_bits i) (mi_parity i) of
        Err e \<Rightarrow> Some (Failed (ErrSerial e) False False, t)
      | Ok serial \<Rightarrow>
          let path = mi_path i; expanded = expand_with_home (mi_home i) path in
          case path_conflict_check (mi_conflict i) expanded of
            Some other \<Rightarrow>
              Some (Failed (ErrPathConflict expanded other) reconnect False,
                    mt_logged Warning (PathTaken expanded other) t)
          | None \<Rightarrow>
              (case mi_timing i serial of
                 Err e \<Rightarrow> Some (Failed (ErrSerial (SerialErr e)) False False, t)
               | Ok _ \<Rightarrow>
                   (case mi_opener i path serial of
                      Err e \<Rightarrow>
                        Some (Failed (ErrSerial (SerialErr e)) reconnect False,
                              mt_logged Error (PortFailed path e) t)
                    | Ok _ \<Rightarrow> do {
                        let t1 = mt_logged Info (PortOpened path) (t\<lparr>mt_open := True\<rparr>);
                        (end, activity, m) \<leftarrow> drive_monitor fr (mi_events i) ExpectRequest False (mt_monitor t1);
                        let t2 = t1\<lparr>mt_monitor := m, mt_open := False\<rparr>;
                        Some (case end of
                           MonTerminated \<Rightarrow> (Done, t2)
                         | MonFailed e \<Rightarrow> (Failed (ErrServer e) reconnect activity, t2))
                      })))"

text \<open>The wait is the server's: it ends early on anything the channel delivers.\<close>

definition run_serial_monitor ::
  "('o, 'e) framing \<Rightarrow> serial_config \<Rightarrow> (('o, 'e) monitor_input \<times> server_command option option) list
     \<Rightarrow> ('o, 'e) monitor_task \<Rightarrow> (('o, 'e) mb_err run_end \<times> ('o, 'e) monitor_task) option"
where
  "run_serial_monitor fr defaults env t = do {
     (r, t') \<leftarrow> backoff_run backoff_policy_default (monitor_attempt fr defaults)
                 (\<lambda>w d s. (wait_reconnect_backoff w, s)) (bp_initial backoff_policy_default) env t;
     Some (r, case r of
        Returned _ \<Rightarrow> t'\<lparr>mt_status := mt_status t' @ [(Info, ''Monitor stopped'')]\<rparr>
      | Running _ \<Rightarrow> t')
   }"

end
