(* ===== verification/Monitor_Properties.thy ===== *)
theory Monitor_Properties
  imports Monitor Modbus_Server_Properties Ring_Buffer
begin

text \<open>
  Properties of the bus monitor: the observed-value table as a partial map from addresses to words,
  the record rings as bounded queues, and the whole machine as the sequence of transactions on the
  bus, from which its log, its rings and its table are computed.
\<close>

section \<open>The table as a partial map\<close>

type_synonym observations = "slave_key key \<Rightarrow> u16 \<Rightarrow> u16 option"

definition observed :: "observed_table \<Rightarrow> observations" where
  "observed t k a = Option.bind (region_of t k) (\<lambda>region. map_of region a)"

definition wf_table :: "observed_table \<Rightarrow> bool" where
  "wf_table t \<longleftrightarrow> list_all (\<lambda>e. bt_sorted (snd e)) (ot_values t) \<and> bt_sorted (ot_seen t)"

definition put_words :: "slave_key key \<Rightarrow> u16 \<Rightarrow> u16 list \<Rightarrow> observations \<Rightarrow> observations" where
  "put_words k a ws obs k' x =
     (if k' = k \<and> unat a \<le> unat x \<and> unat x < unat a + length ws then Some (ws ! (unat x - unat a)) else obs k' x)"

lemma unat_of_off: "n < 65536 \<Longrightarrow> unat (of_nat n :: u16) = n"
  by (rule unat_len)

lemma u16_checked_add_off:
  assumes "off < 65536"
  shows "u16_checked_add a (of_nat off) = (if unat a + off < 65536 then Some (a + of_nat off) else None)"
  using assms by (simp add: u16_checked_add_def unat_of_off)

lemma unat_add_off: "unat a + off < 65536 \<Longrightarrow> unat (a + of_nat off :: u16) = unat a + off"
  by (subst unat_add_lem [THEN iffD1]) (simp_all add: unat_of_off)

lemma write_region_spec:
  assumes "bt_sorted r" "off + length ws \<le> 65536"
  shows "bt_sorted (write_region a off ws r) \<and>
    map_of (write_region a off ws r) x =
      (if unat a + off \<le> unat x \<and> unat x < unat a + off + length ws
       then Some (ws ! (unat x - unat a - off)) else map_of r x)"
  using assms
proof (induction ws arbitrary: off r)
  case (Cons w ws)
  then have off: "off < 65536" by simp
  show ?case
  proof (cases "unat a + off < 65536")
    case False
    with off Cons.prems(1) unat_u16_less [of x] show ?thesis by (simp add: u16_checked_add_off)
  next
    case True
    have "x = a + of_nat off \<longleftrightarrow> unat x = unat a + off"
      using unat_add_off [OF True] by (metis word_unat_eq_iff)
    with True off Cons.prems Cons.IH [of "bt_insert (a + of_nat off) w r" "Suc off"] show ?thesis
      by (auto simp: u16_checked_add_off bt_sorted_insert map_of_bt_insert nth_Cons')
  qed
qed auto

lemma region_of_sorted: "wf_table t \<Longrightarrow> region_of t k = Some r \<Longrightarrow> bt_sorted r"
  by (auto simp: wf_table_def region_of_def list_all_iff dest!: map_of_SomeD)

lemma set_alist_update: "set (AList.update k v al) \<subseteq> insert (k, v) (set al)"
  by (induction al) auto

lemma table_write_words_wf:
  assumes "wf_table t" "length ws \<le> 65536"
  shows "wf_table (table_write_words k a ws t)"
proof -
  let ?r = "case region_of t k of Some r \<Rightarrow> r | None \<Rightarrow> []"
  have "bt_sorted ?r" using region_of_sorted [OF assms(1)] by (auto simp: bt_sorted_def split: option.split)
  from write_region_spec [OF this, of 0 ws a] assms(2) have "bt_sorted (write_region a 0 ws ?r)" by simp
  with assms(1) set_alist_update [of k "write_region a 0 ws ?r" "ot_values t"] show ?thesis
    by (auto simp: wf_table_def table_write_words_def Let_def list_all_iff)
qed

lemma observed_write:
  assumes "wf_table t" "length ws \<le> 65536"
  shows "observed (table_write_words k a ws t) = put_words k a ws (observed t)"
proof (intro ext)
  fix k' x
  let ?r = "case region_of t k of Some r \<Rightarrow> r | None \<Rightarrow> []"
  have "bt_sorted ?r" using region_of_sorted [OF assms(1)] by (auto simp: bt_sorted_def split: option.split)
  from write_region_spec [OF this, of 0 ws a x] assms(2)
  show "observed (table_write_words k a ws t) k' x = put_words k a ws (observed t) k' x"
    by (auto simp: observed_def table_write_words_def region_of_def put_words_def update_conv' Let_def
        split: option.split)
qed

lemma read_region_spec:
  assumes "off + n \<le> 65536" "0 < n"
  shows "read_region r a off n =
    (if unat a + off + n \<le> 65536 then all_some (map (\<lambda>i. map_of r (a + of_nat i)) [off ..< off + n]) else None)"
  using assms
proof (induction n arbitrary: off)
  case (Suc n)
  have upt: "[off ..< off + Suc n] = off # [Suc off ..< Suc off + n]" by (simp add: upt_conv_Cons)
  show ?case
  proof (cases "n = 0")
    case True
    with Suc.prems show ?thesis
      by (cases "map_of r (a + of_nat off)") (auto simp: u16_checked_add_off)
  next
    case False
    with Suc.prems Suc.IH [of "Suc off"] show ?thesis
      unfolding upt
      by (cases "map_of r (a + of_nat off)") (auto simp: u16_checked_add_off split: Option.bind_split)
  qed
qed simp

lemma read_words_observed:
  assumes "0 < n" "n \<le> 65536"
  shows "table_read_words t k a n =
    (if unat a + n \<le> 65536 then all_some (map (\<lambda>i. observed t k (a + of_nat i)) [0 ..< n]) else None)"
proof (cases "region_of t k")
  case None
  obtain m where "n = Suc m" using assms(1) by (cases n) auto
  then have "[0 ..< n] = 0 # [1 ..< n]" by (simp add: upt_conv_Cons)
  then show ?thesis using None by (simp add: table_read_words_def observed_def)
next
  case (Some r)
  then show ?thesis using read_region_spec [of 0 n r a] assms by (simp add: table_read_words_def observed_def)
qed

text \<open>
  What the monitor observed is what it shows: words written to the table are read back from
  the same place, every other slave, table and address reads as before, and a listing of a region
  has strictly ascending addresses and exactly the observed words.
\<close>

theorem observed_words_read_back:
  assumes "wf_table t" "0 < length ws" "unat a + length ws \<le> 65536"
  shows "table_read_words (table_write_words k a ws t) k a (length ws) = Some ws \<and>
    (\<forall>k' b n. 0 < n \<and> n \<le> 65536 \<and> (k' \<noteq> k \<or> unat b + n \<le> unat a \<or> unat a + length ws \<le> unat b) \<longrightarrow>
       table_read_words (table_write_words k a ws t) k' b n = table_read_words t k' b n) \<and>
    sorted_wrt (<) (map fst (table_dump (table_write_words k a ws t) k')) \<and>
    map_of (table_dump (table_write_words k a ws t) k') x = put_words k a ws (observed t) k' x"
proof (intro conjI allI impI)
  have len: "length ws \<le> 65536" using assms(3) by simp
  note obs = observed_write [OF assms(1) len]
  have "observed (table_write_words k a ws t) k (a + of_nat i) = Some (ws ! i)" if "i < length ws" for i
    using that assms(3) by (simp add: obs put_words_def unat_add_off)
  then have "all_some (map (\<lambda>i. observed (table_write_words k a ws t) k (a + of_nat i)) [0 ..< length ws]) =
      Some (map ((!) ws) [0 ..< length ws])"
    by (intro all_some_cong_Some) simp
  then show "table_read_words (table_write_words k a ws t) k a (length ws) = Some ws"
    using assms(2,3) len by (simp add: read_words_observed map_nth)
  fix k'
  have wf: "wf_table (table_write_words k a ws t)" by (rule table_write_words_wf [OF assms(1) len])
  show "sorted_wrt (<) (map fst (table_dump (table_write_words k a ws t) k'))"
    using region_of_sorted [OF wf] by (auto simp: table_dump_def bt_sorted_def split: option.split)
  show "map_of (table_dump (table_write_words k a ws t) k') x = put_words k a ws (observed t) k' x"
    unfolding obs [symmetric] by (simp add: table_dump_def observed_def split: option.split)
  fix b :: u16 and n :: nat
  assume n: "0 < n \<and> n \<le> 65536 \<and> (k' \<noteq> k \<or> unat b + n \<le> unat a \<or> unat a + length ws \<le> unat b)"
  have "observed (table_write_words k a ws t) k' (b + of_nat i) = observed t k' (b + of_nat i)"
    if "i < n" "unat b + n \<le> 65536" for i
    using that n by (auto simp: obs put_words_def unat_add_off)
  then have "unat b + n \<le> 65536 \<Longrightarrow> map (\<lambda>i. observed (table_write_words k a ws t) k' (b + of_nat i)) [0 ..< n] =
      map (\<lambda>i. observed t k' (b + of_nat i)) [0 ..< n]"
    by simp
  with n show "table_read_words (table_write_words k a ws t) k' b n = table_read_words t k' b n"
    by (simp add: read_words_observed del: map_eq_conv)
qed

theorem observed_words_read_back_witness:
  "table_read_words (table_write_words demo_key 65534 [5, 6] table_default) demo_key 65534 2 = Some [5, 6]"
proof -
  have "wf_table table_default" by (simp add: wf_table_def table_default_def bt_sorted_def)
  from observed_words_read_back [OF this, of "[5, 6]" 65534 demo_key, THEN conjunct1] show ?thesis
    by (simp add: numeral_2_eq_2)
qed

section \<open>Shapes\<close>

lemmas mon_write_defs = mon_write_words_def mon_write_bits_def mon_write_regs_def

text \<open>
  The record of a transaction and the table agree: a transaction has a shape exactly when it is
  applied, the words applied at the shape's address are the shape's values, and a second written
  range has the length the shape says. This holds for matched pairs and for broadcasts.
\<close>

theorem shapes_agree_with_table:
  "(case shape_from_pair request response of
      None \<Rightarrow> apply_matched slave request response t = t
    | Some s \<Rightarrow>
        (let t1 = table_write_words (Key \<lparr>sk_slave_id = slave, sk_kind = ts_kind s\<rparr>) (ts_address s) (ts_values s) t in
         case ts_write_address s of
           None \<Rightarrow> ts_write_quantity s = None \<and> apply_matched slave request response t = t1
         | Some wa \<Rightarrow> (\<exists>ws. ts_write_quantity s = Some (len16 ws) \<and>
             apply_matched slave request response t =
               table_write_words (Key \<lparr>sk_slave_id = slave, sk_kind = ts_kind s\<rparr>) wa ws t1))) \<and>
   (case shape_from_broadcast request of
      None \<Rightarrow> apply_broadcast slave request t = t
    | Some s \<Rightarrow> ts_write_address s = None \<and> apply_broadcast slave request t =
        table_write_words (Key \<lparr>sk_slave_id = slave, sk_kind = ts_kind s\<rparr>) (ts_address s) (ts_values s) t)"
  by (cases request; cases response)
    (auto simp: shape_from_pair_def apply_matched_def plain_shape_def mon_write_defs)

section \<open>Transactions on the bus\<close>

text \<open>
  The abstract view of the traffic: requests answered, requests another request follows before any
  answer, and broadcasts. \<open>pair_step\<close> pairs frames without regard to the log, the rings and the table.
\<close>

datatype 'o transaction =
    Matched (tx_slave: unit_id) (tx_request: "'o request_pdu") "'o response_pdu"
  | Unanswered (tx_slave: unit_id) (tx_request: "'o request_pdu")
  | Broadcast (tx_slave: unit_id) (tx_request: "'o request_pdu")

definition begin_request ::
  "('o, 'e) framing \<Rightarrow> unit_id \<times> 'o request_pdu \<Rightarrow> 'o match_state \<times> 'o transaction list"
where
  "begin_request fr = (\<lambda>(u, rq).
     if u = 0 then (ExpectRequest, [Broadcast u rq]) else (ExpectResponse u (fr_request_function fr rq) rq, []))"

definition answer_to ::
  "('o, 'e) framing \<Rightarrow> u8 list \<Rightarrow> unit_id \<Rightarrow> 'o function_code \<Rightarrow> 'o response_pdu option"
where
  "answer_to fr bytes u fc =
     (case fr_decode_response fr bytes of
        Ok (u', rs) \<Rightarrow> if u' = u \<and> fr_response_function fr rs = fc then Some rs else None
      | Err _ \<Rightarrow> None)"

fun pair_step ::
  "('o, 'e) framing \<Rightarrow> u8 list \<Rightarrow> 'o match_state \<Rightarrow> 'o match_state \<times> 'o transaction list"
where
  "pair_step fr bytes ExpectRequest =
     (case fr_decode_request fr bytes of Err _ \<Rightarrow> (ExpectRequest, []) | Ok r \<Rightarrow> begin_request fr r)"
| "pair_step fr bytes (ExpectResponse u fc rq) =
     (case answer_to fr bytes u fc of
        Some rs \<Rightarrow> (ExpectRequest, [Matched u rq rs])
      | None \<Rightarrow>
          (case fr_decode_request fr bytes of
             Err _ \<Rightarrow> (ExpectResponse u fc rq, [])
           | Ok r \<Rightarrow> map_prod (\<lambda>st. st) ((#) (Unanswered u rq)) (begin_request fr r)))"

fun transactions ::
  "('o, 'e) framing \<Rightarrow> (nat \<times> u8 list) list \<Rightarrow> 'o match_state \<Rightarrow> (nat \<times> 'o transaction) list"
where
  "transactions fr [] st = []"
| "transactions fr ((now, bytes) # frames) st =
     (let (st', txs) = pair_step fr bytes st in map (Pair now) txs @ transactions fr frames st')"

fun state_after :: "('o, 'e) framing \<Rightarrow> (nat \<times> u8 list) list \<Rightarrow> 'o match_state \<Rightarrow> 'o match_state" where
  "state_after fr [] st = st"
| "state_after fr ((now, bytes) # frames) st = state_after fr frames (fst (pair_step fr bytes st))"

text \<open>
  What a transaction contributes: its log line, its record, and the words it puts into the table. A
  read puts what the response carries, a write what the request carries, when the response is to
  the same operation.
\<close>

fun tx_line :: "'o transaction \<Rightarrow> level \<times> ('o, 'e) monitor_line" where
  "tx_line (Matched u rq rs) = (Info, Complete u rq rs)"
| "tx_line (Unanswered u rq) = (Warning, Unmatched u rq)"
| "tx_line (Broadcast u rq) = (Info, CompleteBroadcast u rq)"

fun tx_status :: "'o transaction \<Rightarrow> 'o record_status" where
  "tx_status (Matched u rq (RsException fc e)) = StException e"
| "tx_status (Unanswered u rq) = StUnmatched"
| "tx_status _ = StOk"

fun tx_shape :: "'o transaction \<Rightarrow> table_shape option" where
  "tx_shape (Matched u rq (RsException fc e)) = shape_address_only rq"
| "tx_shape (Matched u rq rs) = shape_from_pair rq rs"
| "tx_shape (Unanswered u rq) = shape_address_only rq"
| "tx_shape (Broadcast u rq) = shape_from_broadcast rq"

definition tx_record :: "('o, 'e) framing \<Rightarrow> nat \<times> 'o transaction \<Rightarrow> 'o monitor_record" where
  "tx_record fr = (\<lambda>(now, tx). \<lparr>mr_timestamp = now, mr_status = tx_status tx,
     mr_operation = fr_request_function fr (tx_request tx), mr_shape = tx_shape tx\<rparr>)"

fun rq_operation :: "'o request_pdu \<Rightarrow> nat option" where
  "rq_operation (RqReadCoils _ _) = Some 1"
| "rq_operation (RqReadDiscreteInputs _ _) = Some 2"
| "rq_operation (RqReadHoldingRegisters _ _) = Some 3"
| "rq_operation (RqReadInputRegisters _ _) = Some 4"
| "rq_operation (RqWriteSingleCoil _ _) = Some 5"
| "rq_operation (RqWriteSingleRegister _ _) = Some 6"
| "rq_operation (RqWriteMultipleCoils _ _) = Some 15"
| "rq_operation (RqWriteMultipleRegisters _ _) = Some 16"
| "rq_operation (RqReadWriteMultipleRegisters _ _ _ _) = Some 23"
| "rq_operation (RqOther _) = None"

fun rs_operation :: "'o response_pdu \<Rightarrow> nat option" where
  "rs_operation (RsReadCoils _) = Some 1"
| "rs_operation (RsReadDiscreteInputs _) = Some 2"
| "rs_operation (RsReadHoldingRegisters _) = Some 3"
| "rs_operation (RsReadInputRegisters _) = Some 4"
| "rs_operation (RsWriteSingleCoil _ _) = Some 5"
| "rs_operation (RsWriteSingleRegister _ _) = Some 6"
| "rs_operation (RsWriteMultipleCoils _ _) = Some 15"
| "rs_operation (RsWriteMultipleRegisters _ _) = Some 16"
| "rs_operation (RsReadWriteMultipleRegisters _) = Some 23"
| "rs_operation _ = None"

fun read_at :: "'o request_pdu \<Rightarrow> (Codec_Format.reg_kind \<times> u16) option" where
  "read_at (RqReadCoils a _) = Some (KCoil, a)"
| "read_at (RqReadDiscreteInputs a _) = Some (DiscreteInput, a)"
| "read_at (RqReadHoldingRegisters a _) = Some (HoldingRegister, a)"
| "read_at (RqReadInputRegisters a _) = Some (InputRegister, a)"
| "read_at (RqReadWriteMultipleRegisters a _ _ _) = Some (HoldingRegister, a)"
| "read_at _ = None"

fun words_read :: "'o response_pdu \<Rightarrow> u16 list" where
  "words_read (RsReadCoils bs) = bit_words bs"
| "words_read (RsReadDiscreteInputs bs) = bit_words bs"
| "words_read (RsReadHoldingRegisters ws) = ws"
| "words_read (RsReadInputRegisters ws) = ws"
| "words_read (RsReadWriteMultipleRegisters ws) = ws"
| "words_read _ = []"

fun written_at :: "'o request_pdu \<Rightarrow> (Codec_Format.reg_kind \<times> u16 \<times> u16 list) option" where
  "written_at (RqWriteSingleCoil a v) = Some (KCoil, a, bit_words [v])"
| "written_at (RqWriteSingleRegister a v) = Some (HoldingRegister, a, [v])"
| "written_at (RqWriteMultipleCoils a bs) = Some (KCoil, a, bit_words bs)"
| "written_at (RqWriteMultipleRegisters a ws) = Some (HoldingRegister, a, ws)"
| "written_at (RqReadWriteMultipleRegisters _ _ a ws) = Some (HoldingRegister, a, ws)"
| "written_at _ = None"

definition puts_read :: "unit_id \<Rightarrow> 'o request_pdu \<Rightarrow> 'o response_pdu \<Rightarrow> observations \<Rightarrow> observations" where
  "puts_read u rq rs obs =
     (case read_at rq of None \<Rightarrow> obs
      | Some (kind, a) \<Rightarrow> put_words (Key \<lparr>sk_slave_id = u, sk_kind = kind\<rparr>) a (words_read rs) obs)"

definition puts_written :: "unit_id \<Rightarrow> 'o request_pdu \<Rightarrow> observations \<Rightarrow> observations" where
  "puts_written u rq obs =
     (case written_at rq of None \<Rightarrow> obs
      | Some (kind, a, ws) \<Rightarrow> put_words (Key \<lparr>sk_slave_id = u, sk_kind = kind\<rparr>) a ws obs)"

fun tx_puts :: "'o transaction \<Rightarrow> observations \<Rightarrow> observations" where
  "tx_puts (Matched u rq rs) obs =
     (if rq_operation rq \<noteq> None \<and> rq_operation rq = rs_operation rs
      then puts_written u rq (puts_read u rq rs obs) else obs)"
| "tx_puts (Unanswered u rq) obs = obs"
| "tx_puts (Broadcast u rq) obs = puts_written u rq obs"

section \<open>The monitor computes the transactions\<close>

text \<open>The words a message carries fit the address space; the library's frames are far shorter.\<close>

definition short_request :: "'o request_pdu \<Rightarrow> bool" where
  "short_request rq \<longleftrightarrow> (case written_at rq of None \<Rightarrow> True | Some (kind, a, ws) \<Rightarrow> length ws \<le> 65536)"

definition short_frames :: "('o, 'e) framing \<Rightarrow> bool" where
  "short_frames fr \<longleftrightarrow>
     (\<forall>bytes u rq. fr_decode_request fr bytes = Ok (u, rq) \<longrightarrow> short_request rq) \<and>
     (\<forall>bytes u rs. fr_decode_response fr bytes = Ok (u, rs) \<longrightarrow> length (words_read rs) \<le> 65536)"

definition seen_ids :: "observed_table \<Rightarrow> unit_id set" where
  "seen_ids t = fst ` set (ot_seen t)"

definition listed :: "observed_table \<Rightarrow> bool" where
  "listed t \<longleftrightarrow> (\<lambda>e. sk_slave_id (key_id (fst e))) ` set (ot_values t) \<subseteq> seen_ids t"

lemma unit_ids_listed:
  assumes "listed t"
  shows "sorted_wrt (<) (unit_ids t)" "set (unit_ids t) = seen_ids t"
  using bt_fold_insert [of "[]" "map (\<lambda>e. sk_slave_id (key_id (fst e))) (ot_values t) @ map fst (ot_seen t)"] assms
  by (auto simp: unit_ids_def bt_sorted_def listed_def seen_ids_def)

lemma mark_seen_table:
  assumes "wf_table t" "listed t"
  shows "wf_table (mark_seen u t)" "listed (mark_seen u t)" "seen_ids (mark_seen u t) = insert u (seen_ids t)"
    "observed (mark_seen u t) = observed t"
proof -
  have "bt_sorted (ot_seen t)" using assms(1) by (simp add: wf_table_def)
  then have "fst ` set (bt_insert u () (ot_seen t)) = insert u (fst ` set (ot_seen t))"
    by (rule bt_insert_keys)
  then show "seen_ids (mark_seen u t) = insert u (seen_ids t)" by (simp add: seen_ids_def mark_seen_def)
  with assms show "wf_table (mark_seen u t)" "listed (mark_seen u t)" "observed (mark_seen u t) = observed t"
    by (auto simp: wf_table_def listed_def mark_seen_def bt_sorted_insert observed_def region_of_def fun_eq_iff)
qed

text \<open>Everything a table write keeps, and what it puts.\<close>

definition table_puts :: "unit_id \<Rightarrow> (observations \<Rightarrow> observations) \<Rightarrow> observed_table \<Rightarrow> observed_table \<Rightarrow> bool" where
  "table_puts u f t t' \<longleftrightarrow> wf_table t' \<and> listed t' \<and> seen_ids t' = seen_ids t \<and> observed t' = f (observed t)"

lemma mon_write_puts:
  assumes "wf_table t" "listed t" "u \<in> seen_ids t" "length ws \<le> 65536"
  shows "table_puts u (put_words (Key \<lparr>sk_slave_id = u, sk_kind = kind\<rparr>) a ws) t (mon_write_words u kind a ws t)"
proof -
  let ?k = "Key \<lparr>sk_slave_id = u, sk_kind = kind\<rparr>"
  have seen: "seen_ids (table_write_words ?k a ws t) = seen_ids t"
    by (simp add: seen_ids_def table_write_words_def Let_def)
  have "(\<lambda>e. sk_slave_id (key_id (fst e))) ` set (ot_values (table_write_words ?k a ws t)) \<subseteq>
      insert u ((\<lambda>e. sk_slave_id (key_id (fst e))) ` set (ot_values t))"
    using set_alist_update [of ?k "write_region a 0 ws (case region_of t ?k of Some r \<Rightarrow> r | None \<Rightarrow> [])" "ot_values t"]
    by (auto simp: table_write_words_def Let_def)
  with assms(2,3) have "listed (table_write_words ?k a ws t)"
    unfolding listed_def seen by (meson insert_subset order_trans)
  with seen table_write_words_wf [OF assms(1,4)] observed_write [OF assms(1,4)] show ?thesis
    by (simp add: table_puts_def mon_write_words_def)
qed

lemma table_puts_id: "wf_table t \<Longrightarrow> listed t \<Longrightarrow> table_puts u (\<lambda>obs. obs) t t"
  by (simp add: table_puts_def)

lemma length_bit_words [simp]: "length (bit_words bs) = length bs"
  by (simp add: bit_words_def)

lemma table_puts_then:
  "table_puts u f t t1 \<Longrightarrow> table_puts u g t1 t2 \<Longrightarrow> table_puts u (\<lambda>obs. g (f obs)) t t2"
  by (simp add: table_puts_def)

lemma apply_broadcast_puts:
  assumes "wf_table t" "listed t" "u \<in> seen_ids t" "short_request rq"
  shows "table_puts u (tx_puts (Broadcast u rq)) t (apply_broadcast u rq t)"
  using mon_write_puts [OF assms(1-3)] table_puts_id [OF assms(1,2)] assms(4)
  by (cases rq) (simp_all add: table_puts_def short_request_def puts_written_def mon_write_bits_def mon_write_regs_def)

lemma apply_matched_puts:
  assumes "wf_table t" "listed t" "u \<in> seen_ids t" "short_request rq" "length (words_read rs) \<le> 65536"
  shows "table_puts u (tx_puts (Matched u rq rs)) t (apply_matched u rq rs t)"
proof (cases "rq_operation rq \<noteq> None \<and> rq_operation rq = rs_operation rs")
  case False
  then have "apply_matched u rq rs t = t" by (cases rq; cases rs) (simp_all add: apply_matched_def)
  with False assms(1,2) show ?thesis by (auto simp: table_puts_def)
next
  case True
  note w = mon_write_puts [OF assms(1-3)]
  show ?thesis
  proof (cases "rq_operation rq = Some 23")
    case False
    with True w assms(4,5) show ?thesis
      by (cases rq; cases rs) (simp_all add: table_puts_def apply_matched_def short_request_def puts_written_def puts_read_def
          mon_write_bits_def mon_write_regs_def)
  next
    case rw: True
    obtain ra q wa ws where rq: "rq = RqReadWriteMultipleRegisters ra q wa ws" using rw by (cases rq) auto
    obtain vs where rs: "rs = RsReadWriteMultipleRegisters vs" using True rw by (cases rs) auto
    note w1 = w [of vs HoldingRegister ra]
    have "table_puts u (put_words (Key \<lparr>sk_slave_id = u, sk_kind = HoldingRegister\<rparr>) wa ws)
        (mon_write_words u HoldingRegister ra vs t)
        (mon_write_words u HoldingRegister wa ws (mon_write_words u HoldingRegister ra vs t))"
      using w1 assms(3-5) rq rs by (intro mon_write_puts) (auto simp: table_puts_def short_request_def)
    from table_puts_then [OF w1 this] assms(5) rq rs show ?thesis
      by (simp add: table_puts_def apply_matched_def puts_written_def puts_read_def mon_write_regs_def)
  qed
qed

text \<open>The rings.\<close>

definition records_of :: "('o, 'e) framing \<Rightarrow> (nat \<times> 'o transaction) list \<Rightarrow> unit_id \<Rightarrow> 'o monitor_record list" where
  "records_of fr txs u = map (tx_record fr) (filter (\<lambda>x. tx_slave (snd x) = u) txs)"

definition rings_of :: "('o, 'e) framing \<Rightarrow> (nat \<times> 'o transaction) list \<Rightarrow> 'o record_log \<Rightarrow> bool" where
  "rings_of fr txs log \<longleftrightarrow> (\<forall>u. records_for log u = newest RECORD_RING_CAPACITY (records_of fr txs u) \<and>
     generation_for log u = of_nat (length (records_of fr txs u)))"

lemma records_of_snoc: "records_of fr (txs @ [x]) u =
    records_of fr txs u @ (if tx_slave (snd x) = u then [tx_record fr x] else [])"
  by (simp add: records_of_def)

lemma records_push_rings:
  assumes "rings_of fr txs log" "length txs + 1 < 2 ^ 64"
  shows "\<exists>log'. records_push (tx_slave (snd x)) (tx_record fr x) log = Some log' \<and> rings_of fr (txs @ [x]) log'"
proof -
  let ?u = "tx_slave (snd x)" and ?n = "length (records_of fr txs (tx_slave (snd x)))"
  let ?e = "case log ?u of Some e \<Rightarrow> e | None \<Rightarrow> slave_ring_default"
  have n: "?n \<le> length txs" by (simp add: records_of_def)
  have e: "sr_ring ?e = newest RECORD_RING_CAPACITY (records_of fr txs ?u)" "sr_generation ?e = of_nat ?n"
    using assms(1) by (auto simp: rings_of_def records_for_def generation_for_def slave_ring_default_def
        split: option.split_asm option.split dest!: spec [of _ ?u])
  have "unat (of_nat ?n :: u64) = ?n"
    using n assms(2) by (simp add: unat_of_nat take_bit_nat_eq_self)
  moreover have "(if length (sr_ring ?e) = RECORD_RING_CAPACITY then tl (sr_ring ?e) else sr_ring ?e) @ [tx_record fr x] =
      newest RECORD_RING_CAPACITY (records_of fr txs ?u @ [tx_record fr x])"
    unfolding e(1) newest_newest_append [of RECORD_RING_CAPACITY "records_of fr txs ?u", symmetric]
    by (auto simp: newest_def RECORD_RING_CAPACITY_def drop_Suc tl_drop Suc_diff_le)
  ultimately show ?thesis
    using n assms e(2) by (auto simp: records_push_def Let_def rings_of_def records_of_snoc records_for_def
        generation_for_def)
qed

text \<open>The whole monitor shows a list of transactions, with the given slave ids seen.\<close>

fun pairing_line :: "('o, 'e) monitor_line \<Rightarrow> bool" where
  "pairing_line (Complete _ _ _) \<longleftrightarrow> True"
| "pairing_line (CompleteBroadcast _ _) \<longleftrightarrow> True"
| "pairing_line (Unmatched _ _) \<longleftrightarrow> True"
| "pairing_line _ \<longleftrightarrow> False"

definition pairing_log :: "('o, 'e) monitor_line log \<Rightarrow> ('o, 'e) monitor_line log" where
  "pairing_log log = filter (\<lambda>l. pairing_line (snd l)) log"

definition shows_txs ::
  "('o, 'e) framing \<Rightarrow> (nat \<times> 'o transaction) list \<Rightarrow> unit_id set \<Rightarrow> ('o, 'e) monitor \<Rightarrow> bool"
where
  "shows_txs fr txs ids m \<longleftrightarrow>
     wf_table (mn_table m) \<and> listed (mn_table m) \<and> seen_ids (mn_table m) = ids \<and>
     observed (mn_table m) = fold tx_puts (map snd txs) (\<lambda>_ _. None) \<and>
     rings_of fr txs (mn_records m) \<and> pairing_log (mn_log m) = map (tx_line \<circ> snd) txs"

definition monitor_default :: "('o, 'e) monitor" where
  "monitor_default = \<lparr>mn_table = table_default, mn_records = (\<lambda>_. None), mn_log = []\<rparr>"

lemma shows_default: "shows_txs fr [] {} monitor_default"
  by (auto simp: shows_txs_def monitor_default_def table_default_def wf_table_def listed_def seen_ids_def bt_sorted_def
      observed_def region_of_def rings_of_def records_for_def generation_for_def records_of_def pairing_log_def
      fun_eq_iff)

text \<open>
  A transaction is shown by logging its line, pushing its record and applying its words; what is
  applied goes into the table after the push.
\<close>

lemma shows_emit:
  assumes "shows_txs fr txs ids m" "length txs + 1 < 2 ^ 64"
    and "\<And>t. wf_table t \<Longrightarrow> listed t \<Longrightarrow> seen_ids t = ids \<Longrightarrow> table_puts u (tx_puts tx) t (f t)"
    and "tx_line tx = (lv, l)"
  shows "\<exists>m1. push_record (tx_slave tx) (tx_record fr (now, tx)) (mn_logged lv l m) = Some m1 \<and>
    shows_txs fr (txs @ [(now, tx)]) ids (m1\<lparr>mn_table := f (mn_table m1)\<rparr>)"
proof -
  obtain log' where "records_push (tx_slave tx) (tx_record fr (now, tx)) (mn_records m) = Some log'"
      "rings_of fr (txs @ [(now, tx)]) log'"
    using records_push_rings [of fr txs "mn_records m" "(now, tx)"] assms(1,2) by (auto simp: shows_txs_def)
  moreover have "table_puts u (tx_puts tx) (mn_table m) (f (mn_table m))"
    using assms(1,3) by (simp add: shows_txs_def)
  moreover have "pairing_line l" using assms(4) by (cases tx) auto
  ultimately show ?thesis
    using assms(1,4) by (auto simp: push_record_def mn_logged_def shows_txs_def table_puts_def pairing_log_def)
qed

lemma shows_malformed: "\<not> pairing_line l \<Longrightarrow> shows_txs fr txs ids (mn_logged lv l m) = shows_txs fr txs ids m"
  by (simp add: shows_txs_def mn_logged_def pairing_log_def)

definition pending_ids :: "'o match_state \<Rightarrow> unit_id set" where
  "pending_ids st = (case st of ExpectRequest \<Rightarrow> {} | ExpectResponse u fc rq \<Rightarrow> {u})"

definition short_state :: "'o match_state \<Rightarrow> bool" where
  "short_state st \<longleftrightarrow> (case st of ExpectRequest \<Rightarrow> True | ExpectResponse u fc rq \<Rightarrow> short_request rq)"

definition ids_of :: "(nat \<times> 'o transaction) list \<Rightarrow> unit_id set" where
  "ids_of txs = set (map (tx_slave \<circ> snd) txs)"

lemma handle_new_request_shows:
  assumes "shows_txs fr txs ids m" "length txs + 1 < 2 ^ 64" "short_request rq" "begin_request fr (u, rq) = (st, new)"
  shows "\<exists>m'. handle_new_request fr now u rq m = Some (st, m') \<and> short_state st \<and>
    shows_txs fr (txs @ map (Pair now) new) (insert u ids) m'"
proof -
  let ?m = "m\<lparr>mn_table := mark_seen u (mn_table m)\<rparr>"
  have m: "shows_txs fr txs (insert u ids) ?m"
    using assms(1) mark_seen_table [of "mn_table m" u] by (simp add: shows_txs_def)
  show ?thesis
  proof (cases "u = 0")
    case False
    then show ?thesis using m assms(3,4) by (auto simp: handle_new_request_def begin_request_def short_state_def)
  next
    case True
    have "\<And>t. wf_table t \<Longrightarrow> listed t \<Longrightarrow> seen_ids t = insert u ids \<Longrightarrow>
        table_puts u (tx_puts (Broadcast u rq)) t (apply_broadcast u rq t)"
      using assms(3) by (intro apply_broadcast_puts) simp_all
    from shows_emit [where f = "apply_broadcast u rq", OF m assms(2) this tx_line.simps(3), of now]
    show ?thesis using True assms(4)
      by (auto simp: handle_new_request_def begin_request_def push_broadcast_record_def log_complete_def
          tx_record_def short_state_def)
  qed
qed

lemma ids_of_append: "ids_of (xs @ ys) = ids_of xs \<union> ids_of ys"
  by (simp add: ids_of_def)

lemma begin_request_ids:
  "begin_request fr (u, rq) = (st, new) \<Longrightarrow>
     ids_of (txs @ map (Pair now) new) \<union> pending_ids st = insert u (ids_of txs)"
  by (auto simp: begin_request_def ids_of_def pending_ids_def split: if_splits)

lemma pair_step_length: "length (snd (pair_step fr bytes st)) \<le> 2"
  by (cases st) (auto simp: begin_request_def split: sum.split option.split)

text \<open>One frame, for the three things it can be: a request, an answer, or a request instead of one.\<close>

lemma request_shows:
  assumes "shows_txs fr txs (ids_of txs) m" "length txs + 2 < 2 ^ 64" "short_frames fr"
    "pair_step fr bytes ExpectRequest = (st', new)"
  shows "\<exists>m'. process_frame fr now bytes ExpectRequest m = Some (st', m') \<and> short_state st' \<and>
    shows_txs fr (txs @ map (Pair now) new) (ids_of (txs @ map (Pair now) new) \<union> pending_ids st') m'"
proof (cases "fr_decode_request fr bytes")
  case (Inl e)
  then show ?thesis using assms by (auto simp: process_frame_def shows_malformed short_state_def pending_ids_def)
next
  case (Inr r)
  obtain u rq where r: "r = (u, rq)" by (cases r)
  have b: "begin_request fr (u, rq) = (st', new)" using assms(4) Inr r by simp
  have "short_request rq" using assms(3) Inr r by (auto simp: short_frames_def)
  from handle_new_request_shows [OF assms(1) _ this b, of now] assms(2) show ?thesis
    using Inr r by (simp add: process_frame_def begin_request_ids [OF b])
qed

lemma answer_shows:
  assumes "shows_txs fr txs (insert u (ids_of txs)) m" "length txs + 2 < 2 ^ 64" "short_request rq" "short_frames fr"
    "answer_to fr bytes u fc = Some rs"
  shows "\<exists>m'. process_frame fr now bytes (ExpectResponse u fc rq) m = Some (ExpectRequest, m') \<and>
    shows_txs fr (txs @ [(now, Matched u rq rs)]) (insert u (ids_of txs)) m'"
proof -
  have dec: "fr_decode_response fr bytes = Ok (u, rs)" "fr_response_function fr rs = fc"
    using assms(5) by (auto simp: answer_to_def split: sum.split_asm if_split_asm)
  have "length (words_read rs) \<le> 65536" using assms(4) dec(1) by (auto simp: short_frames_def)
  then have "\<And>t. wf_table t \<Longrightarrow> listed t \<Longrightarrow> seen_ids t = insert u (ids_of txs) \<Longrightarrow>
      table_puts u (tx_puts (Matched u rq rs)) t (apply_matched u rq rs t)"
    using assms(3) by (intro apply_matched_puts) simp_all
  from shows_emit [where f = "apply_matched u rq rs", OF assms(1) _ this tx_line.simps(1), of now] assms(2)
  obtain m1 where "push_record u (tx_record fr (now, Matched u rq rs)) (mn_logged Info (Complete u rq rs) m) = Some m1"
      "shows_txs fr (txs @ [(now, Matched u rq rs)]) (insert u (ids_of txs))
        (m1\<lparr>mn_table := apply_matched u rq rs (mn_table m1)\<rparr>)" by (simp only: transaction.sel) fastforce
  moreover have "push_matched_record fr now u rq rs m0 = push_record u (tx_record fr (now, Matched u rq rs)) m0" for m0
    by (cases rs) (simp_all add: push_matched_record_def tx_record_def)
  ultimately show ?thesis using dec by (simp add: process_frame_def log_complete_def)
qed

lemma unanswered_shows:
  assumes "shows_txs fr txs (insert u (ids_of txs)) m" "length txs + 2 < 2 ^ 64" "short_request rq" "short_frames fr"
    "answer_to fr bytes u fc = None" "pair_step fr bytes (ExpectResponse u fc rq) = (st', new)"
  shows "\<exists>m'. process_frame fr now bytes (ExpectResponse u fc rq) m = Some (st', m') \<and> short_state st' \<and>
    shows_txs fr (txs @ map (Pair now) new) (ids_of (txs @ map (Pair now) new) \<union> pending_ids st') m'"
proof -
  have pf: "process_frame fr now bytes (ExpectResponse u fc rq) m =
     (case fr_decode_request fr bytes of
        Ok (new_slave, new_request) \<Rightarrow> do {
          m1 \<leftarrow> push_unmatched_record fr now u rq (log_unmatched u rq m);
          handle_new_request fr now new_slave new_request m1
        }
      | Err _ \<Rightarrow> Some (ExpectResponse u fc rq, mn_logged Warning MalformedAwaiting m))"
    using assms(5) by (auto simp: process_frame_def answer_to_def Let_def split: sum.split_asm sum.split if_split_asm)
  show ?thesis
  proof (cases "fr_decode_request fr bytes")
    case (Inl e)
    then show ?thesis using assms pf by (auto simp: shows_malformed short_state_def pending_ids_def)
  next
    case (Inr r)
    obtain u' rq' where r: "r = (u', rq')" by (cases r)
    obtain new' where b: "begin_request fr (u', rq') = (st', new')" "new = Unanswered u rq # new'"
      using assms(5,6) Inr r by (cases "begin_request fr (u', rq')") auto
    have rq': "short_request rq'" using assms(4) Inr r by (auto simp: short_frames_def)
    have "\<And>t. wf_table t \<Longrightarrow> listed t \<Longrightarrow> table_puts u (tx_puts (Unanswered u rq)) t t"
      by (simp add: table_puts_def)
    from shows_emit [where f = "\<lambda>t. t", OF assms(1) _ this tx_line.simps(2), of now] assms(2)
    obtain m1 where m1: "push_unmatched_record fr now u rq (log_unmatched u rq m) = Some m1"
        "shows_txs fr (txs @ [(now, Unanswered u rq)]) (insert u (ids_of txs)) m1"
      by (auto simp: push_unmatched_record_def log_unmatched_def tx_record_def)
    have "ids_of ((txs @ [(now, Unanswered u rq)]) @ map (Pair now) new') \<union> pending_ids st' =
        insert u' (insert u (ids_of txs))"
      unfolding begin_request_ids [OF b(1)] by (simp add: ids_of_def)
    with handle_new_request_shows [OF m1(2) _ rq' b(1), of now] assms(2) show ?thesis
      using pf Inr r m1(1) b(2) by simp
  qed
qed

lemma process_frame_shows:
  assumes "shows_txs fr txs (ids_of txs \<union> pending_ids st) m" "length txs + 2 < 2 ^ 64" "short_state st"
    "short_frames fr" "pair_step fr bytes st = (st', new)"
  shows "\<exists>m'. process_frame fr now bytes st m = Some (st', m') \<and> short_state st' \<and>
    shows_txs fr (txs @ map (Pair now) new) (ids_of (txs @ map (Pair now) new) \<union> pending_ids st') m'"
proof (cases st)
  case ExpectRequest
  then show ?thesis using request_shows [OF _ assms(2,4)] assms(1,5) by (simp add: pending_ids_def)
next
  case (ExpectResponse u fc rq)
  have m: "shows_txs fr txs (insert u (ids_of txs)) m" "short_request rq"
    using assms(1,3) ExpectResponse by (simp_all add: pending_ids_def short_state_def)
  show ?thesis
  proof (cases "answer_to fr bytes u fc")
    case None
    then show ?thesis using unanswered_shows [OF m(1) assms(2) m(2) assms(4)] assms(5) ExpectResponse by simp
  next
    case (Some rs)
    then have "st' = ExpectRequest" "new = [Matched u rq rs]" using assms(5) ExpectResponse by auto
    then show ?thesis using answer_shows [OF m(1) assms(2) m(2) assms(4) Some, of now] ExpectResponse
      by (simp add: short_state_def pending_ids_def ids_of_append) (simp add: ids_of_def)
  qed
qed

lemma drive_monitor_shows:
  assumes "shows_txs fr txs (ids_of txs \<union> pending_ids st) m" "length txs + 2 * length frames < 2 ^ 64"
    "short_state st" "short_frames fr"
  shows "\<exists>m'. drive_monitor fr (map (case_prod MonFrame) frames @ [MonCommand c]) st act m =
      Some (MonTerminated, act \<or> frames \<noteq> [], m') \<and>
    shows_txs fr (txs @ transactions fr frames st)
      (ids_of (txs @ transactions fr frames st) \<union> pending_ids (state_after fr frames st)) m'"
  using assms(1-3)
proof (induction frames arbitrary: txs st act m)
  case Nil
  then show ?case by auto
next
  case (Cons f frames)
  obtain now bytes where f: "f = (now, bytes)" by (cases f)
  obtain st1 new where step: "pair_step fr bytes st = (st1, new)" by (cases "pair_step fr bytes st")
  have len: "length new \<le> 2" using pair_step_length [of fr bytes st] step by simp
  obtain m1 where m1: "process_frame fr now bytes st m = Some (st1, m1)" "short_state st1"
      "shows_txs fr (txs @ map (Pair now) new) (ids_of (txs @ map (Pair now) new) \<union> pending_ids st1) m1"
    using process_frame_shows [OF Cons.prems(1) _ Cons.prems(3) assms(4) step, of now] Cons.prems(2) by auto
  from Cons.IH [OF m1(3) _ m1(2), of True] Cons.prems(2) len m1(1) step f show ?case by simp
qed

text \<open>
  C21. The monitor computes the transactions on the bus. Whatever frames arrive, it never panics, and
  when it is stopped its pairing log is the list of transactions in order, each slave's ring holds
  the records of its 200 most recent transactions and its counter their number, the table holds
  exactly the words put by answered reads, answered writes and broadcast writes (none by an
  exception or an unanswered request), and the slave ids listed are those of the transactions and
  of the request still waiting.
\<close>

theorem monitor_computes_transactions:
  assumes "short_frames fr" "length frames < 2 ^ 62" "txs = transactions fr frames ExpectRequest"
  shows "\<exists>m'. drive_monitor fr (map (case_prod MonFrame) frames @ [MonCommand c]) ExpectRequest False monitor_default =
      Some (MonTerminated, frames \<noteq> [], m') \<and>
    pairing_log (mn_log m') = map (tx_line \<circ> snd) txs \<and>
    (\<forall>u. records_for (mn_records m') u = newest RECORD_RING_CAPACITY (records_of fr txs u) \<and>
       generation_for (mn_records m') u = of_nat (length (records_of fr txs u))) \<and>
    observed (mn_table m') = fold tx_puts (map snd txs) (\<lambda>_ _. None) \<and>
    set (unit_ids (mn_table m')) = ids_of txs \<union> pending_ids (state_after fr frames ExpectRequest) \<and>
    sorted_wrt (<) (unit_ids (mn_table m'))"
proof -
  have "shows_txs fr [] (ids_of [] \<union> pending_ids ExpectRequest) monitor_default" "short_state ExpectRequest"
    using shows_default by (simp_all add: ids_of_def pending_ids_def short_state_def)
  from drive_monitor_shows [OF this(1) _ this(2) assms(1), of frames c False] assms(2)
  obtain m' where run: "drive_monitor fr (map (case_prod MonFrame) frames @ [MonCommand c]) ExpectRequest False
        monitor_default = Some (MonTerminated, frames \<noteq> [], m')"
      and m': "shows_txs fr txs (ids_of txs \<union> pending_ids (state_after fr frames ExpectRequest)) m'"
    by (auto simp: assms(3))
  from m' have "set (unit_ids (mn_table m')) = ids_of txs \<union> pending_ids (state_after fr frames ExpectRequest)" "sorted_wrt (<) (unit_ids (mn_table m'))"
    using unit_ids_listed [of "mn_table m'"] by (simp_all add: shows_txs_def)
  with run m' show ?thesis by (auto simp: shows_txs_def rings_of_def)
qed

text \<open>
  A framing of two frames: the request of two holding registers from slave 1, and its answer.
\<close>

definition demo_framing :: "(nat, nat) framing" where
  "demo_framing = \<lparr>
     fr_decode_request = (\<lambda>bytes. if bytes = [1] then Ok (1, RqReadHoldingRegisters 4 2) else Err RmbUnexpectedEof),
     fr_decode_response = (\<lambda>bytes. if bytes = [2] then Ok (1, RsReadHoldingRegisters [7, 8]) else Err RmbUnexpectedEof),
     fr_request_function = (\<lambda>_. FC_ReadHoldingRegisters),
     fr_response_function = (\<lambda>_. FC_ReadHoldingRegisters)\<rparr>"

theorem monitor_computes_transactions_witness:
  "\<exists>m'. drive_monitor demo_framing (map (case_prod MonFrame) [(10, [1]), (20, [1]), (30, [9]), (40, [2])] @ [MonCommand None])
       ExpectRequest False monitor_default = Some (MonTerminated, True, m') \<and>
     pairing_log (mn_log m') = [(Warning, Unmatched 1 (RqReadHoldingRegisters 4 2)),
       (Info, Complete 1 (RqReadHoldingRegisters 4 2) (RsReadHoldingRegisters [7, 8]))] \<and>
     generation_for (mn_records m') 1 = 2"
proof -
  let ?frames = "[(10, [1]), (20, [1]), (30, [9]), (40, [2])] :: (nat \<times> u8 list) list"
  have short: "short_frames demo_framing"
    by (auto simp: short_frames_def demo_framing_def short_request_def split: if_splits)
  have txs: "transactions demo_framing ?frames ExpectRequest =
      [(20, Unanswered 1 (RqReadHoldingRegisters 4 2)),
       (40, Matched 1 (RqReadHoldingRegisters 4 2) (RsReadHoldingRegisters [7, 8]))]"
    by (simp add: demo_framing_def begin_request_def answer_to_def)
  from monitor_computes_transactions [OF short _ txs [symmetric], of None] show ?thesis
    by (force simp: records_of_def)
qed

section \<open>The monitor task\<close>

lemma monitor_attempt_closed:
  assumes "monitor_attempt fr defaults i t = Some (out, t')" "\<not> mt_open t"
  shows "\<not> mt_open t'" "mt_status t' = mt_status t"
  using assms
  by (auto simp: monitor_attempt_def mt_logged_def Let_def
      split: sum.split_asm option.split_asm Option.bind_split_asm monitor_end.split_asm)

text \<open>
  A monitor task between attempts has its port closed; when it returns, for whatever reason,
  the port is closed and it has reported exactly once that it stopped.
\<close>

theorem monitor_task_settles:
  assumes "\<not> mt_open t" "run_serial_monitor fr defaults env t = Some (r, t')"
  shows "\<not> mt_open t' \<and>
    mt_status t' = mt_status t @ (case r of Returned _ \<Rightarrow> [(Info, ''Monitor stopped'')] | Running _ \<Rightarrow> [])"
proof -
  obtain t1 where run: "backoff_run backoff_policy_default (monitor_attempt fr defaults)
      (\<lambda>w d s. (wait_reconnect_backoff w, s)) (bp_initial backoff_policy_default) env t = Some (r, t1)"
      "t' = (case r of Returned _ \<Rightarrow> t1\<lparr>mt_status := mt_status t1 @ [(Info, ''Monitor stopped'')]\<rparr> | Running _ \<Rightarrow> t1)"
    using assms(2) by (auto simp: run_serial_monitor_def bind_eq_Some_conv)
  have "\<not> mt_open t1 \<and> mt_status t1 = mt_status t"
    by (rule backoff_run_keeps [where Q = "\<lambda>s. \<not> mt_open s \<and> mt_status s = mt_status t", OF _ _ run(1)])
      (use assms(1) in \<open>auto dest: monitor_attempt_closed\<close>)
  with run(2) show ?thesis by (cases r) auto
qed

definition demo_bus :: "(nat, nat) monitor_input" where
  "demo_bus = \<lparr>mi_reconnect = True, mi_baud = 9600, mi_data_bits = None, mi_stop_bits = None, mi_parity = None,
     mi_path = ''/dev/ttyS0'', mi_home = None, mi_conflict = None, mi_timing = (\<lambda>_. Ok ()), mi_opener = (\<lambda>_ _. Ok ()),
     mi_events = [MonFrame 10 [1], MonCommand None]\<rparr>"

theorem monitor_task_settles_witness:
  "\<exists>t'. run_serial_monitor demo_framing \<lparr>sc_baud_rate = 19200, sc_data_bits = Eight, sc_stop_bits = One, sc_parity = Even\<rparr>
      [(demo_bus, None)] \<lparr>mt_monitor = monitor_default, mt_open = False, mt_status = []\<rparr> = Some (Returned (Ok ()), t') \<and>
    \<not> mt_open t' \<and> mt_status t' = [(Info, ''Monitor stopped'')]"
proof -
  let ?t = "\<lparr>mt_monitor = monitor_default, mt_open = False, mt_status = []\<rparr> :: (nat, nat) monitor_task"
  let ?d = "\<lparr>sc_baud_rate = 19200, sc_data_bits = Eight, sc_stop_bits = One, sc_parity = Even\<rparr>"
  obtain t' where run: "run_serial_monitor demo_framing ?d [(demo_bus, None)] ?t = Some (Returned (Ok ()), t')"
    by (simp add: run_serial_monitor_def monitor_attempt_def demo_bus_def serial_config_from_def path_conflict_check_def
        process_frame_def demo_framing_def handle_new_request_def Let_def)
  from monitor_task_settles [OF _ run] run show ?thesis by simp
qed

end
