(* ===== verification/Bridge.thy ===== *)
theory Bridge
  imports Modbus_Types Codec Ordered_Map Str_Util
begin

text \<open>
  The Modbus relay (\<^verbatim>\<open>ferrowl-modbus/src/bridge/\<close>): the allow-list of unit ids (\<^verbatim>\<open>config.rs\<close>), the
  downstream link with its background reconnector (\<^verbatim>\<open>downstream.rs\<close>), the service that filters and
  forwards (\<^verbatim>\<open>service.rs\<close>) and the end of a serial upstream link (\<^verbatim>\<open>upstream_rtu.rs\<close>). Connecting and
  the exchange with the downstream device are the library's and are arguments.
\<close>

section \<open>The allow-list of unit ids (config.rs)\<close>

definition u8_from_str :: "string \<Rightarrow> u8 option" where
  "u8_from_str s = (case from_str_radix 0 255 10 s of Ok n \<Rightarrow> Some (word_of_int n) | Err _ \<Rightarrow> None)"

text \<open>The ordered set of ids is its list of entries.\<close>

datatype unit_id_filter = UnitIdFilter "(u8 \<times> unit) list"

datatype filter_error = InvalidSegment string | ReversedRange string

definition id_range :: "u8 \<Rightarrow> u8 \<Rightarrow> u8 list" where
  "id_range lo hi = map of_nat [unat lo ..< Suc (unat hi)]"

definition parse_segment :: "string \<Rightarrow> (filter_error, u8 list) result" where
  "parse_segment part =
     (case str_split_once (CHR ''-'') part of
        Some (lo, hi) \<Rightarrow>
          (case u8_from_str (str_trim lo) of
             None \<Rightarrow> Err (InvalidSegment part)
           | Some l \<Rightarrow>
               (case u8_from_str (str_trim hi) of
                  None \<Rightarrow> Err (InvalidSegment part)
                | Some h \<Rightarrow> if l > h then Err (ReversedRange part) else Ok (id_range l h)))
      | None \<Rightarrow>
          (case u8_from_str part of
             None \<Rightarrow> Err (InvalidSegment part)
           | Some i \<Rightarrow> Ok [i]))"

fun parse_parts :: "string list \<Rightarrow> (u8 \<times> unit) list \<Rightarrow> (filter_error, unit_id_filter) result" where
  "parse_parts [] ids = Ok (UnitIdFilter ids)"
| "parse_parts (p # ps) ids =
     (let part = str_trim p in
      if part = [] then parse_parts ps ids
      else case parse_segment part of
        Err e \<Rightarrow> Err e
      | Ok new \<Rightarrow> parse_parts ps (fold (\<lambda>i. bt_insert i ()) new ids))"

definition filter_parse :: "string \<Rightarrow> (filter_error, unit_id_filter) result" where
  "filter_parse input = parse_parts (str_split (CHR '','') input) []"

fun filter_allows :: "unit_id_filter \<Rightarrow> unit_id \<Rightarrow> bool" where
  "filter_allows (UnitIdFilter ids) u \<longleftrightarrow> map_of ids u \<noteq> None"

section \<open>The downstream link (downstream.rs)\<close>

text \<open>
  The reconnector is between two of its awaits: waiting to be notified, connecting, sleeping out a
  backoff, or ended. The notification primitive stores at most one permit. A failed exchange clears
  the link under the lock and notifies after the lock is released; \<open>dn_notifies\<close> counts the forwards
  between the two.
\<close>

datatype reconnector = AwaitNotify | Connecting duration | Backing duration | ReconnectorEnded

datatype ('o, 'e) bridge_line =
    DownstreamConnected
  | DownstreamConnectFailed "('o, 'e) mb_err" nat
  | Relaying unit_id
  | GatewayException unit_id "'o exception_code"

record ('o, 'e) downstream =
  dn_linked :: bool
  dn_permit :: bool
  dn_notifies :: nat
  dn_task :: reconnector
  dn_log :: "('o, 'e) bridge_line log"

definition dn_logged :: "level \<Rightarrow> ('o, 'e) bridge_line \<Rightarrow> ('o, 'e) downstream \<Rightarrow> ('o, 'e) downstream" where
  "dn_logged lv l d = d\<lparr>dn_log := dn_log d @ [(lv, l)]\<rparr>"

definition notify_one :: "('o, 'e) downstream \<Rightarrow> ('o, 'e) downstream" where
  "notify_one d = d\<lparr>dn_permit := True\<rparr>"

definition downstream_spawn :: "('o, 'e) downstream" where
  "downstream_spawn = notify_one
     \<lparr>dn_linked = False, dn_permit = False, dn_notifies = 0, dn_task = AwaitNotify, dn_log = []\<rparr>"

text \<open>The steps of the reconnector's two nested loops, from one await to the next.\<close>

definition reconnector_notified :: "('o, 'e) downstream \<Rightarrow> ('o, 'e) downstream" where
  "reconnector_notified d = d\<lparr>dn_permit := False, dn_task := Connecting (bp_initial backoff_policy_default)\<rparr>"

definition reconnector_connected ::
  "bool \<Rightarrow> duration \<Rightarrow> (('o, 'e) mb_err, unit) result \<Rightarrow> ('o, 'e) downstream \<Rightarrow> ('o, 'e) downstream"
where
  "reconnector_connected reconnect backoff res d =
     (case res of
        Ok _ \<Rightarrow>
          (dn_logged Info DownstreamConnected d)
            \<lparr>dn_linked := True, dn_task := (if reconnect then AwaitNotify else ReconnectorEnded)\<rparr>
      | Err e \<Rightarrow>
          (dn_logged Error (DownstreamConnectFailed e (backoff div 1000000000)) d)
            \<lparr>dn_task := (if reconnect then Backing backoff else ReconnectorEnded)\<rparr>)"

definition reconnector_slept :: "duration \<Rightarrow> ('o, 'e) downstream \<Rightarrow> ('o, 'e) downstream option" where
  "reconnector_slept backoff d = do {
     twice \<leftarrow> duration_twice backoff;
     Some (d\<lparr>dn_task := Connecting (min twice (bp_max backoff_policy_default))\<rparr>)
   }"

text \<open>One forwarded request; the exchange is the library's.\<close>

type_synonym ('o, 'e) exchange =
  "unit_id \<Rightarrow> 'o request_pdu \<Rightarrow> (('o, 'e) rmb_error, 'o response_pdu option) result"

definition downstream_forward ::
  "('o, 'e) exchange \<Rightarrow> unit_id \<Rightarrow> 'o request_pdu \<Rightarrow> ('o, 'e) downstream
     \<Rightarrow> ('o exception_code, 'o response_pdu option) result \<times> ('o, 'e) downstream"
where
  "downstream_forward call u rq d =
     (if \<not> dn_linked d then (Err GatewayPathUnavailable, d)
      else case call u rq of
        Ok resp \<Rightarrow> (Ok resp, d)
      | Err _ \<Rightarrow>
          (Err GatewayTargetDeviceFailedToRespond, d\<lparr>dn_linked := False, dn_notifies := Suc (dn_notifies d)\<rparr>))"

definition forward_notify :: "('o, 'e) downstream \<Rightarrow> ('o, 'e) downstream" where
  "forward_notify d = (notify_one d)\<lparr>dn_notifies := dn_notifies d - 1\<rparr>"

section \<open>The relay service (service.rs)\<close>

definition forward_and_relay ::
  "unit_id_filter option \<Rightarrow> ('o, 'e) exchange \<Rightarrow> unit_id \<Rightarrow> 'o request_pdu \<Rightarrow> ('o, 'e) downstream
     \<Rightarrow> ('o exception_code, 'o response_pdu option) result \<times> ('o, 'e) downstream"
where
  "forward_and_relay unit_filter call u rq d =
     (if (case unit_filter of Some f \<Rightarrow> \<not> filter_allows f u | None \<Rightarrow> False) then (Ok None, d)
      else
        let (res, d1) = downstream_forward call u rq (dn_logged Info (Relaying u) d)
        in (res, case res of Err e \<Rightarrow> dn_logged Error (GatewayException u e) d1 | Ok _ \<Rightarrow> d1))"

text \<open>
  The link as the tasks interleave on it: requests relayed, notifications delivered, and the
  reconnector moving from await to await.
\<close>

inductive bridge_step :: "bool \<Rightarrow> ('o, 'e) downstream \<Rightarrow> ('o, 'e) downstream \<Rightarrow> bool" for reconnect where
  relays: "forward_and_relay unit_filter call u rq d = (res, d') \<Longrightarrow> bridge_step reconnect d d'"
| notifies: "0 < dn_notifies d \<Longrightarrow> bridge_step reconnect d (forward_notify d)"
| wakes: "dn_task d = AwaitNotify \<Longrightarrow> dn_permit d \<Longrightarrow> bridge_step reconnect d (reconnector_notified d)"
| connects: "dn_task d = Connecting b \<Longrightarrow> bridge_step reconnect d (reconnector_connected reconnect b res d)"
| sleeps: "dn_task d = Backing b \<Longrightarrow> reconnector_slept b d = Some d' \<Longrightarrow> bridge_step reconnect d d'"

inductive bridge_reachable :: "bool \<Rightarrow> ('o, 'e) downstream \<Rightarrow> bool" for reconnect where
  spawned: "bridge_reachable reconnect downstream_spawn"
| stepped: "bridge_reachable reconnect d \<Longrightarrow> bridge_step reconnect d d' \<Longrightarrow> bridge_reachable reconnect d'"

section \<open>The upstream serial link (upstream_rtu.rs)\<close>

definition link_end :: "(('o, 'e) rmb_error, unit) result \<Rightarrow> (('o, 'e) mb_err, unit) result" where
  "link_end res = (case res of Ok _ \<Rightarrow> Err (ErrServer RmbUnexpectedEof) | Err e \<Rightarrow> Err (ErrServer e))"

definition upstream_rtu_run ::
  "serial_config \<Rightarrow> (string \<Rightarrow> serial_config \<Rightarrow> (('o, 'e) rmb_error, unit) result)
     \<Rightarrow> (('o, 'e) rmb_error, unit) result
     \<Rightarrow> u32 \<Rightarrow> u8 option \<Rightarrow> u8 option \<Rightarrow> string option \<Rightarrow> string
     \<Rightarrow> (('o, 'e) mb_err, (('o, 'e) mb_err, unit) result) result"
where
  "upstream_rtu_run defaults opener served baud data stop par path =
     (case serial_config_from defaults baud data stop par of
        Err e \<Rightarrow> Err (ErrSerial e)
      | Ok serial \<Rightarrow>
          (case opener path serial of
             Ok _ \<Rightarrow> Ok (link_end served)
           | Err e \<Rightarrow> Err (ErrSerial (SerialErr e))))"

end
