(* ===== verification/Bridge_Properties.thy ===== *)
theory Bridge_Properties
  imports Bridge Modbus_Serve
begin

text \<open>
  Properties of the relay: what the allow-list's text means, and that the downstream link is never
  abandoned while reconnecting is enabled.
\<close>

section \<open>The text of an allow-list\<close>

datatype id_segment = OneId u8 | IdSpan u8 u8

definition dec_u8 :: "nat \<Rightarrow> string" where
  "dec_u8 n =
     (let digit = (\<lambda>d. ''0123456789'' ! d) in
      if n < 10 then [digit n]
      else if n < 100 then [digit (n div 10), digit (n mod 10)]
      else [digit (n div 100), digit (n div 10 mod 10), digit (n mod 10)])"

fun segment_text :: "id_segment \<Rightarrow> string" where
  "segment_text (OneId i) = dec_u8 (unat i)"
| "segment_text (IdSpan lo hi) = dec_u8 (unat lo) @ CHR ''-'' # dec_u8 (unat hi)"

fun segment_ok :: "id_segment \<Rightarrow> bool" where
  "segment_ok (OneId i) \<longleftrightarrow> True"
| "segment_ok (IdSpan lo hi) \<longleftrightarrow> lo \<le> hi"

fun segment_ids :: "id_segment \<Rightarrow> u8 set" where
  "segment_ids (OneId i) = {i}"
| "segment_ids (IdSpan lo hi) = {lo .. hi}"

lemma dec_u8_parses: "list_all (\<lambda>n. from_str_radix 0 255 10 (dec_u8 n) = Ok (int n)) [0 ..< 256]"
  by code_simp

lemma dec_u8_chars: "list_all (\<lambda>n. dec_u8 n \<noteq> [] \<and>
    list_all (\<lambda>c. c \<noteq> CHR ''-'' \<and> c \<noteq> CHR '','' \<and> \<not> is_space c) (dec_u8 n)) [0 ..< 256]"
  by code_simp

lemma unat_u8_less: "unat (i :: u8) < 256"
  using unsigned_less [of i, where 'a = nat] by simp

lemma u8_from_dec [simp]: "u8_from_str (dec_u8 (unat i)) = Some i"
  using dec_u8_parses unat_u8_less [of i] by (simp add: list_all_iff u8_from_str_def)

lemma dec_u8_char: "c \<in> set (dec_u8 (unat (i :: u8))) \<Longrightarrow> c \<noteq> CHR ''-'' \<and> c \<noteq> CHR '','' \<and> \<not> is_space c"
  using dec_u8_chars unat_u8_less [of i] by (simp add: list_all_iff)

lemma segment_text_char: "c \<in> set (segment_text s) \<Longrightarrow> c \<noteq> CHR '','' \<and> \<not> is_space c"
  using dec_u8_char by (cases s) (auto simp: is_space_def code_point_def)

lemma dec_u8_not_empty [simp]: "dec_u8 n \<noteq> []"
  by (simp add: dec_u8_def Let_def)

lemma segment_text_not_empty [simp]: "segment_text s \<noteq> []"
  by (cases s) simp_all

lemma set_id_range: "lo \<le> hi \<Longrightarrow> set (id_range lo hi) = {lo .. hi}"
proof (intro set_eqI iffI)
  fix x assume le: "lo \<le> hi" and x: "x \<in> {lo .. hi}"
  then have "unat x \<in> set [unat lo ..< Suc (unat hi)]" by (auto simp: word_le_nat_alt)
  then have "of_nat (unat x) \<in> set (id_range lo hi)" unfolding id_range_def set_map by (rule imageI)
  then show "x \<in> set (id_range lo hi)" by simp
next
  fix x assume "lo \<le> hi" "x \<in> set (id_range lo hi)"
  then obtain n where n: "x = of_nat n" "unat lo \<le> n" "n \<le> unat hi" by (auto simp: id_range_def)
  then have "unat x = n" using unat_u8_less [of hi] by (simp add: unat_of_nat take_bit_nat_eq_self)
  with n show "x \<in> {lo .. hi}" by (simp add: word_le_nat_alt)
qed

lemma parse_segment_text:
  assumes "segment_ok s"
  shows "\<exists>ids. parse_segment (segment_text s) = Ok ids \<and> set ids = segment_ids s"
proof (cases s)
  case (OneId i)
  have "str_split_once (CHR ''-'') (dec_u8 (unat i)) = None" by (rule str_split_once_none) (use dec_u8_char in blast)
  with OneId show ?thesis by (simp add: parse_segment_def)
next
  case (IdSpan lo hi)
  have "str_split_once (CHR ''-'') (dec_u8 (unat lo) @ CHR ''-'' # dec_u8 (unat hi)) =
      Some (dec_u8 (unat lo), dec_u8 (unat hi))"
    by (rule str_split_once_some) (use dec_u8_char in blast)
  moreover have "str_trim (dec_u8 (unat i)) = dec_u8 (unat i)" for i :: u8
    by (rule str_trim_id) (use dec_u8_char in blast)
  ultimately show ?thesis using assms IdSpan set_id_range [of lo hi] by (simp add: parse_segment_def)
qed

lemma parse_parts_texts:
  assumes "list_all segment_ok segs" "bt_sorted ids"
  shows "\<exists>f. parse_parts (map segment_text segs) ids = Ok f \<and>
    (\<forall>u. filter_allows f u \<longleftrightarrow> u \<in> fst ` set ids \<union> \<Union> (segment_ids ` set segs))"
  using assms
proof (induction segs arbitrary: ids)
  case Nil
  then show ?case by (auto simp: map_of_eq_None_iff)
next
  case (Cons s segs)
  obtain new where new: "parse_segment (segment_text s) = Ok new" "set new = segment_ids s"
    using parse_segment_text [of s] Cons.prems(1) by auto
  have "str_trim (segment_text s) = segment_text s" by (rule str_trim_id) (use segment_text_char in blast)
  with new Cons.IH [of "fold (\<lambda>i. bt_insert i ()) new ids"] Cons.prems bt_fold_insert [OF Cons.prems(2), of new]
  show ?case by (simp add: Un_assoc Un_left_commute)
qed

lemma split_segments:
  "segs \<noteq> [] \<Longrightarrow> str_split (CHR '','') (join_strings '','' (map segment_text segs)) = map segment_text segs"
  using segment_text_char by (intro split_join) auto

text \<open>
  C35. An allow-list written as comma-separated ids and ranges is accepted and allows exactly the
  ids it names; the empty text is accepted and allows none.
\<close>

theorem unit_filter_round_trip:
  assumes "list_all segment_ok segs"
  shows "\<exists>f. filter_parse (join_strings '','' (map segment_text segs)) = Ok f \<and>
    (\<forall>u. filter_allows f u \<longleftrightarrow> u \<in> \<Union> (segment_ids ` set segs))"
proof (cases segs)
  case Nil
  then show ?thesis by (simp add: filter_parse_def str_trim_def)
next
  case (Cons s rest)
  then have "filter_parse (join_strings '','' (map segment_text segs)) = parse_parts (map segment_text segs) []"
    using split_segments [of segs] unfolding filter_parse_def by (metis list.distinct(1))
  with parse_parts_texts [OF assms, of "[]"] show ?thesis by (simp add: bt_sorted_def)
qed

theorem unit_filter_round_trip_witness:
  "\<exists>f. filter_parse ''1,3,5-8'' = Ok f \<and> filter_allows f 6 \<and> \<not> filter_allows f 4"
proof -
  have shown: "join_strings '','' (map segment_text [OneId 1, OneId 3, IdSpan 5 8]) = ''1,3,5-8''"
    by (simp add: dec_u8_def)
  show ?thesis using unit_filter_round_trip [of "[OneId 1, OneId 3, IdSpan 5 8]"] unfolding shown by auto
qed

section \<open>The downstream link\<close>

text \<open>
  With reconnecting enabled, a link that is down is the business of exactly one of: a permit, a
  notification on its way, or the reconnector itself.
\<close>

definition link_owned :: "('o, 'e) downstream \<Rightarrow> bool" where
  "link_owned d \<longleftrightarrow>
     of_bool (dn_permit d) + dn_notifies d + of_bool (dn_task d \<noteq> AwaitNotify) = (of_bool (\<not> dn_linked d) :: nat) \<and>
     dn_task d \<noteq> ReconnectorEnded \<and>
     (\<forall>b. dn_task d = Backing b \<or> dn_task d = Connecting b \<longrightarrow> b \<le> bp_max backoff_policy_default)"

lemma forward_and_relay_cases:
  assumes "forward_and_relay unit_filter call u rq d = (res, d')"
  obtains "d' = d\<lparr>dn_log := dn_log d'\<rparr>"
    | "dn_linked d" "d' = d\<lparr>dn_linked := False, dn_notifies := Suc (dn_notifies d), dn_log := dn_log d'\<rparr>"
  using assms by (auto simp: forward_and_relay_def downstream_forward_def dn_logged_def Let_def
      split: if_splits sum.split_asm)

lemma backoff_default_max: "b \<le> bp_max backoff_policy_default \<Longrightarrow> duration_twice b = Some (2 * b)"
  using sane_policy_default by (simp add: duration_twice_def sane_policy_def)

lemma bridge_step_owned: "bridge_step True d d' \<Longrightarrow> link_owned d \<Longrightarrow> link_owned d'"
proof (induction rule: bridge_step.induct)
  case (relays unit_filter call u rq d res d')
  from relays(1) show ?case
  proof (cases rule: forward_and_relay_cases)
    case 1
    have "dn_permit d' = dn_permit d" "dn_notifies d' = dn_notifies d" "dn_task d' = dn_task d" "dn_linked d' = dn_linked d"
      by (subst 1, simp)+
    with relays(2) show ?thesis by (simp add: link_owned_def)
  next
    case 2
    have "dn_permit d' = dn_permit d" "dn_notifies d' = Suc (dn_notifies d)" "dn_task d' = dn_task d" "\<not> dn_linked d'"
      by (subst 2(2), simp)+
    with relays(2) 2(1) show ?thesis by (simp add: link_owned_def)
  qed
next
  case (notifies d)
  then show ?case by (auto simp: link_owned_def forward_notify_def notify_one_def of_bool_def split: if_splits)
next
  case (wakes d)
  then show ?case using sane_policy_default
    by (auto simp: link_owned_def reconnector_notified_def sane_policy_def of_bool_def split: if_splits)
next
  case (connects d b res)
  then show ?case
    by (auto simp: link_owned_def reconnector_connected_def dn_logged_def of_bool_def split: if_splits sum.split)
next
  case (sleeps d b d')
  then show ?case by (auto simp: link_owned_def reconnector_slept_def bind_eq_Some_conv of_bool_def split: if_splits)
qed

lemma bridge_reachable_owned: "bridge_reachable True d \<Longrightarrow> link_owned d"
proof (induction rule: bridge_reachable.induct)
  case spawned
  then show ?case by (simp add: link_owned_def downstream_spawn_def notify_one_def)
qed (rule bridge_step_owned)

text \<open>Whoever owns a link that is down can restore it.\<close>

lemma connecting_restores:
  "dn_task d = Connecting b \<Longrightarrow> \<exists>d'. (bridge_step True)\<^sup>*\<^sup>* d d' \<and> dn_linked d'"
  using bridge_step.connects [of d b True "Ok ()"]
  by (intro exI [of _ "reconnector_connected True b (Ok ()) d"]) (simp add: reconnector_connected_def dn_logged_def)

lemma step_then_restores:
  "bridge_step True d d1 \<Longrightarrow> \<exists>d'. (bridge_step True)\<^sup>*\<^sup>* d1 d' \<and> dn_linked d' \<Longrightarrow>
     \<exists>d'. (bridge_step True)\<^sup>*\<^sup>* d d' \<and> dn_linked d'"
  by (meson converse_rtranclp_into_rtranclp)

lemma permit_restores:
  assumes "dn_task d = AwaitNotify" "dn_permit d"
  shows "\<exists>d'. (bridge_step True)\<^sup>*\<^sup>* d d' \<and> dn_linked d'"
  by (rule step_then_restores [OF bridge_step.wakes [OF assms]], rule connecting_restores)
    (simp add: reconnector_notified_def)

lemma owned_restores:
  assumes "link_owned d"
  shows "\<exists>d'. (bridge_step True)\<^sup>*\<^sup>* d d' \<and> dn_linked d'"
proof (cases "dn_linked d")
  case True
  then show ?thesis by blast
next
  case False
  show ?thesis
  proof (cases "dn_task d")
    case AwaitNotify
    show ?thesis
    proof (cases "dn_permit d")
      case True
      with AwaitNotify show ?thesis by (rule permit_restores)
    next
      case no_permit: False
      then have "0 < dn_notifies d" using assms False AwaitNotify by (simp add: link_owned_def)
      then show ?thesis
        by (rule step_then_restores [OF bridge_step.notifies], intro permit_restores)
          (simp_all add: AwaitNotify forward_notify_def notify_one_def)
    qed
  next
    case (Connecting b)
    then show ?thesis by (rule connecting_restores)
  next
    case (Backing b)
    have b: "b \<le> bp_max backoff_policy_default" using assms Backing by (simp add: link_owned_def)
    show ?thesis
      by (rule step_then_restores [OF bridge_step.sleeps [OF Backing]], simp add: reconnector_slept_def backoff_default_max [OF b],
          rule connecting_restores, simp)
  next
    case ReconnectorEnded
    then show ?thesis using assms by (simp add: link_owned_def)
  qed
qed

text \<open>
  C36. With reconnecting enabled the downstream link is never abandoned and never connected twice:
  in every reachable state a link that is up has no permit, no notification under way and an idle
  reconnector, a link that is down is owned by exactly one of the three, and from there a link can
  always be reached again. No backoff exceeds the cap and the reconnector does not panic.
\<close>

theorem downstream_never_abandoned:
  assumes "bridge_reachable True d"
  shows "of_bool (dn_permit d) + dn_notifies d + of_bool (dn_task d \<noteq> AwaitNotify) = (of_bool (\<not> dn_linked d) :: nat) \<and>
    dn_task d \<noteq> ReconnectorEnded \<and> (\<exists>d'. (bridge_step True)\<^sup>*\<^sup>* d d' \<and> dn_linked d') \<and>
    (\<forall>b. dn_task d = Backing b \<longrightarrow> b \<le> from_secs 30 \<and> reconnector_slept b d \<noteq> None)"
  using bridge_reachable_owned [OF assms] owned_restores [OF bridge_reachable_owned [OF assms]]
  by (auto simp: link_owned_def reconnector_slept_def backoff_default_max)
    (simp add: backoff_policy_default_def)

text \<open>The link after a failed first connect.\<close>

definition demo_down :: "(nat, nat) downstream" where
  "demo_down = reconnector_connected True (from_secs 1) (Err (ErrTcp TcpTimeout)) (reconnector_notified downstream_spawn)"

theorem downstream_never_abandoned_witness:
  "dn_task demo_down = Backing (from_secs 1) \<and> \<not> dn_linked demo_down \<and>
     (\<exists>d'. (bridge_step True)\<^sup>*\<^sup>* demo_down d' \<and> dn_linked d')"
proof -
  let ?d = "reconnector_notified downstream_spawn :: (nat, nat) downstream"
  have "bridge_reachable True ?d"
    by (rule bridge_reachable.stepped [OF bridge_reachable.spawned bridge_step.wakes])
      (simp_all add: downstream_spawn_def notify_one_def)
  moreover have task: "dn_task ?d = Connecting (from_secs 1)"
    by (simp add: reconnector_notified_def backoff_policy_default_def)
  ultimately have reach: "bridge_reachable True demo_down"
    unfolding demo_down_def by (rule bridge_reachable.stepped [OF _ bridge_step.connects])
  from downstream_never_abandoned [OF reach] show ?thesis
    by (auto simp: demo_down_def reconnector_connected_def reconnector_notified_def downstream_spawn_def notify_one_def
        dn_logged_def)
qed

end
