(* ===== verification/Ocpp_Message.thy ===== *)
theory Ocpp_Message
  imports Prelude
begin

text \<open>
  The OCPP-J message layer (\<^verbatim>\<open>ferrowl-ocpp/src/ocppj/\<close>): envelopes (\<^verbatim>\<open>message.rs\<close>), error codes
  (\<^verbatim>\<open>error_code.rs\<close>), the hand-written array codec (\<^verbatim>\<open>codec.rs\<close>), and the errors of
  \<^verbatim>\<open>ferrowl-ocpp/src/error.rs\<close> that reach the wire.
\<close>

section \<open>The JSON library's data\<close>

text \<open>
  A JSON value as the library has it; its numbers are the library's own type. Reading and writing
  text, and moving between numbers and 64-bit integers, are the library's. Errors of the library
  are represented by the text they display.
\<close>

datatype 'n json =
    JNull
  | JBool bool
  | JNumber 'n
  | JString string
  | JArray "'n json list"
  | JObject "(string \<times> 'n json) list"

record 'n serde =
  sj_from_str :: "string \<Rightarrow> (string, 'n json) result"
  sj_to_string :: "'n json \<Rightarrow> string"
  sj_as_i64 :: "'n \<Rightarrow> int option"
  sj_i64 :: "int \<Rightarrow> 'n"

fun as_array :: "'n json \<Rightarrow> 'n json list option" where
  "as_array (JArray vs) = Some vs"
| "as_array _ = None"

fun as_str :: "'n json \<Rightarrow> string option" where
  "as_str (JString s) = Some s"
| "as_str _ = None"

fun as_i64 :: "'n serde \<Rightarrow> 'n json \<Rightarrow> int option" where
  "as_i64 lib (JNumber n) = sj_as_i64 lib n"
| "as_i64 lib _ = None"

definition arr_get :: "'a list \<Rightarrow> nat \<Rightarrow> 'a option" where
  "arr_get xs i = (if i < length xs then Some (xs ! i) else None)"

section \<open>Decimal text\<close>

fun decimal :: "nat \<Rightarrow> string" where
  "decimal n = (if n < 10 then [''0123456789'' ! n] else decimal (n div 10) @ [''0123456789'' ! (n mod 10)])"

declare decimal.simps [simp del]

definition decimal_int :: "int \<Rightarrow> string" where
  "decimal_int i = (if i < 0 then ''-'' @ decimal (nat (- i)) else decimal (nat i))"

section \<open>Error codes (error_code.rs)\<close>

datatype call_error_code =
    NotImplemented
  | NotSupported
  | InternalError
  | ProtocolError
  | SecurityError
  | FormationViolation
  | PropertyConstraintViolation
  | OccurenceConstraintViolation
  | TypeConstraintViolation
  | GenericError

fun code_as_str :: "call_error_code \<Rightarrow> string" where
  "code_as_str NotImplemented = ''NotImplemented''"
| "code_as_str NotSupported = ''NotSupported''"
| "code_as_str InternalError = ''InternalError''"
| "code_as_str ProtocolError = ''ProtocolError''"
| "code_as_str SecurityError = ''SecurityError''"
| "code_as_str FormationViolation = ''FormationViolation''"
| "code_as_str PropertyConstraintViolation = ''PropertyConstraintViolation''"
| "code_as_str OccurenceConstraintViolation = ''OccurenceConstraintViolation''"
| "code_as_str TypeConstraintViolation = ''TypeConstraintViolation''"
| "code_as_str GenericError = ''GenericError''"

definition code_from_wire :: "string \<Rightarrow> call_error_code" where
  "code_from_wire s =
     (if s = ''NotImplemented'' then NotImplemented
      else if s = ''NotSupported'' then NotSupported
      else if s = ''InternalError'' then InternalError
      else if s = ''ProtocolError'' then ProtocolError
      else if s = ''SecurityError'' then SecurityError
      else if s = ''FormationViolation'' then FormationViolation
      else if s = ''PropertyConstraintViolation'' then PropertyConstraintViolation
      else if s = ''OccurenceConstraintViolation'' then OccurenceConstraintViolation
      else if s = ''TypeConstraintViolation'' then TypeConstraintViolation
      else GenericError)"

section \<open>Errors (error.rs)\<close>

datatype framing_error =
    NotAnArray
  | BadArity nat
  | UnknownMessageType int
  | BadFieldType string
  | FramingJson string

fun framing_text :: "framing_error \<Rightarrow> string" where
  "framing_text NotAnArray = ''OCPP-J frame is not a JSON array''"
| "framing_text (BadArity n) = ''OCPP-J frame has invalid arity: '' @ decimal n @ '' elements''"
| "framing_text (UnknownMessageType i) = ''OCPP-J frame has unknown message type id: '' @ decimal_int i"
| "framing_text (BadFieldType field) = ''OCPP-J frame field '' @ field @ '' has the wrong JSON type''"
| "framing_text (FramingJson e) = ''OCPP-J frame is not valid JSON: '' @ e"

text \<open>A validation error is its text, as the library displays it.\<close>

datatype ocpp_error = UnknownAction string | OcppJson string | OcppValidation string

definition validation_text :: "string \<Rightarrow> string" where
  "validation_text e = ''validation failed: '' @ e"

fun ocpp_error_text :: "ocpp_error \<Rightarrow> string" where
  "ocpp_error_text (UnknownAction a) = ''unknown action: '' @ a"
| "ocpp_error_text (OcppJson e) = ''payload (de)serialization failed: '' @ e"
| "ocpp_error_text (OcppValidation e) = validation_text e"

record 'n call_error =
  ce_code :: call_error_code
  ce_description :: string
  ce_details :: "'n json"

definition call_error_new :: "call_error_code \<Rightarrow> string \<Rightarrow> 'n call_error" where
  "call_error_new code description = \<lparr>ce_code = code, ce_description = description, ce_details = JObject []\<rparr>"

definition call_error_from :: "ocpp_error \<Rightarrow> 'n call_error" where
  "call_error_from err =
     call_error_new
       (case err of UnknownAction _ \<Rightarrow> NotImplemented | OcppJson _ \<Rightarrow> FormationViolation
        | OcppValidation _ \<Rightarrow> FormationViolation)
       (ocpp_error_text err)"

section \<open>Envelopes (message.rs)\<close>

datatype message_type_id = CallType | CallResultType | CallErrorType

fun type_id :: "message_type_id \<Rightarrow> int" where
  "type_id CallType = 2"
| "type_id CallResultType = 3"
| "type_id CallErrorType = 4"

type_synonym unique_id = string

datatype 'n ocppj_message =
    Call unique_id string "'n json"
  | CallResult unique_id "'n json"
  | CallError unique_id call_error_code string "'n json"

fun message_id :: "'n ocppj_message \<Rightarrow> unique_id" where
  "message_id (Call i a p) = i"
| "message_id (CallResult i p) = i"
| "message_id (CallError i c d ds) = i"

section \<open>The codec (codec.rs)\<close>

fun envelope :: "'n serde \<Rightarrow> 'n ocppj_message \<Rightarrow> 'n json" where
  "envelope lib (Call i action payload) =
     JArray [JNumber (sj_i64 lib (type_id CallType)), JString i, JString action, payload]"
| "envelope lib (CallResult i payload) =
     JArray [JNumber (sj_i64 lib (type_id CallResultType)), JString i, payload]"
| "envelope lib (CallError i code description details) =
     JArray [JNumber (sj_i64 lib (type_id CallErrorType)), JString i, JString (code_as_str code),
             JString description, details]"

definition ocppj_encode :: "'n serde \<Rightarrow> 'n ocppj_message \<Rightarrow> string" where
  "ocppj_encode lib msg = sj_to_string lib (envelope lib msg)"

definition str_at :: "'n json list \<Rightarrow> nat \<Rightarrow> string \<Rightarrow> (framing_error, string) result" where
  "str_at arr idx field =
     (case Option.bind (arr_get arr idx) as_str of Some s \<Rightarrow> Ok s | None \<Rightarrow> Err (BadFieldType field))"

definition ocppj_decode :: "'n serde \<Rightarrow> string \<Rightarrow> (framing_error, 'n ocppj_message) result" where
  "ocppj_decode lib txt =
     (case sj_from_str lib txt of
        Err e \<Rightarrow> Err (FramingJson e)
      | Ok v \<Rightarrow>
          (case as_array v of
             None \<Rightarrow> Err NotAnArray
           | Some arr \<Rightarrow>
               (case Option.bind (arr_get arr 0) (as_i64 lib) of
                  None \<Rightarrow> Err (BadFieldType ''messageTypeId'')
                | Some x \<Rightarrow>
                    if x = type_id CallType then
                      if length arr \<noteq> 4 then Err (BadArity (length arr))
                      else (case str_at arr 1 ''uniqueId'' of
                              Err e \<Rightarrow> Err e
                            | Ok i \<Rightarrow>
                                (case str_at arr 2 ''action'' of
                                   Err e \<Rightarrow> Err e
                                 | Ok action \<Rightarrow> Ok (Call i action (arr ! 3))))
                    else if x = type_id CallResultType then
                      if length arr \<noteq> 3 then Err (BadArity (length arr))
                      else (case str_at arr 1 ''uniqueId'' of
                              Err e \<Rightarrow> Err e
                            | Ok i \<Rightarrow> Ok (CallResult i (arr ! 2)))
                    else if x = type_id CallErrorType then
                      if length arr \<noteq> 5 then Err (BadArity (length arr))
                      else (case str_at arr 1 ''uniqueId'' of
                              Err e \<Rightarrow> Err e
                            | Ok i \<Rightarrow>
                                (case str_at arr 2 ''errorCode'' of
                                   Err e \<Rightarrow> Err e
                                 | Ok code \<Rightarrow>
                                     (case str_at arr 3 ''errorDescription'' of
                                        Err e \<Rightarrow> Err e
                                      | Ok description \<Rightarrow>
                                          Ok (CallError i (code_from_wire code) description (arr ! 4)))))
                    else Err (UnknownMessageType x))))"

definition recover_call_id :: "'n serde \<Rightarrow> string \<Rightarrow> unique_id option" where
  "recover_call_id lib txt =
     (case sj_from_str lib txt of
        Err _ \<Rightarrow> None
      | Ok v \<Rightarrow> do {
          arr \<leftarrow> as_array v;
          x \<leftarrow> Option.bind (arr_get arr 0) (as_i64 lib);
          if x \<noteq> type_id CallType then None
          else Option.bind (arr_get arr 1) as_str
        })"

section \<open>What the codec accepts\<close>

lemma code_round_trip [simp]: "code_from_wire (code_as_str c) = c"
  by (cases c) (simp_all add: code_from_wire_def)

lemma as_array_iff: "as_array v = Some arr \<longleftrightarrow> v = JArray arr"
  by (cases v) auto

lemma as_str_iff: "as_str v = Some s \<longleftrightarrow> v = JString s"
  by (cases v) auto

lemma arr_get_0 [simp]: "arr_get (x # xs) 0 = Some x"
  by (simp add: arr_get_def)

text \<open>
  The array a message stands for, with the error code spelled as the peer spelled it and the
  message type as any number that reads as the right integer.
\<close>

definition reads_as :: "'n serde \<Rightarrow> 'n json list \<Rightarrow> 'n ocppj_message \<Rightarrow> bool" where
  "reads_as lib arr m \<longleftrightarrow>
     (case m of
        Call i action payload \<Rightarrow>
          \<exists>n. sj_as_i64 lib n = Some 2 \<and> arr = [JNumber n, JString i, JString action, payload]
      | CallResult i payload \<Rightarrow>
          \<exists>n. sj_as_i64 lib n = Some 3 \<and> arr = [JNumber n, JString i, payload]
      | CallError i code description details \<Rightarrow>
          \<exists>n c. sj_as_i64 lib n = Some 4 \<and> code = code_from_wire c \<and>
                arr = [JNumber n, JString i, JString c, JString description, details])"

lemma str_at_iff: "str_at arr k f = Ok s \<longleftrightarrow> k < length arr \<and> arr ! k = JString s"
  by (auto simp: str_at_def arr_get_def as_str_iff split: option.splits)

lemma type_at_iff: "Option.bind (arr_get arr 0) (as_i64 lib) = Some x \<longleftrightarrow>
    (\<exists>n rest. arr = JNumber n # rest \<and> sj_as_i64 lib n = Some x)"
proof (cases arr)
  case (Cons v vs)
  then show ?thesis by (cases v) auto
qed (simp add: arr_get_def)

lemma as_i64_iff: "as_i64 lib v = Some x \<longleftrightarrow> (\<exists>n. v = JNumber n \<and> sj_as_i64 lib n = Some x)"
  by (cases v) auto

lemma length_2: "length xs = 2 \<longleftrightarrow> (\<exists>a b. xs = [a, b])"
  by (auto simp: numeral_2_eq_2 length_Suc_conv)

lemma length_3: "length xs = 3 \<longleftrightarrow> (\<exists>a b c. xs = [a, b, c])"
  by (auto simp: numeral_3_eq_3 length_Suc_conv)

lemma length_4: "length xs = 4 \<longleftrightarrow> (\<exists>a b c d. xs = [a, b, c, d])"
  by (auto simp: eval_nat_numeral length_Suc_conv)

lemma length_5: "length xs = 5 \<longleftrightarrow> (\<exists>a b c d e. xs = [a, b, c, d, e])"
  by (auto simp: eval_nat_numeral length_Suc_conv)

end
