(* ===== verification/Ocpp_Connection.thy ===== *)
theory Ocpp_Connection
  imports Ocpp_Message Modbus_Types "HOL-Library.AList" "HOL-Library.Multiset"
begin

text \<open>
  The duplex connection shared by both OCPP roles: the correlation table (\<^verbatim>\<open>ferrowl-ocpp/src/correlation.rs\<close>),
  the version interface (\<^verbatim>\<open>action/mod.rs\<close>) and the engine of \<^verbatim>\<open>conn.rs\<close> with its writer, its reader,
  a task per inbound Call, a task per awaited outbound Call, and the command loop (\<^verbatim>\<open>cs/core.rs\<close>). The
  tasks interleave: each step below is what one task does from one await to the next.
\<close>

section \<open>The version interface (action/mod.rs)\<close>

datatype connector_scope = ScopeNone | ScopeOptional | ScopeRequired

record ('n, 'a, 'r) version =
  v_action_name :: "'a \<Rightarrow> string"
  v_action_names :: "string list"
  v_cs_actions :: "string list"
  v_csms_actions :: "(string \<times> connector_scope) list"
  v_default_action :: "string \<Rightarrow> 'a option"
  v_default_response :: "string \<Rightarrow> 'r option"
  v_subprotocol :: string
  v_decode_call :: "string \<Rightarrow> 'n json \<Rightarrow> (ocpp_error, 'a) result"
  v_validate :: "'a \<Rightarrow> (string, unit) result"
  v_encode_response :: "'r \<Rightarrow> (ocpp_error, 'n json) result"
  v_encode_action :: "'a \<Rightarrow> (ocpp_error, 'n json) result"
  v_decode_result :: "'a \<Rightarrow> 'n json \<Rightarrow> (ocpp_error, 'r) result"

section \<open>Outbound-call correlation (correlation.rs)\<close>

text \<open>
  A reply slot is a one-shot channel: waiting, filled, or with its sending end gone. Slots are
  numbered in the order they are made; the table holds the sending ends by id.
\<close>

type_synonym 'n call_outcome = "('n call_error, 'n json) result"

datatype 'n reply_slot = SlotEmpty | SlotSent "'n call_outcome" | SlotDropped

record 'n pending_calls =
  pn_calls :: "(unique_id \<times> nat) list"
  pn_slots :: "'n reply_slot list"

definition pending_new :: "'n pending_calls" where
  "pending_new = \<lparr>pn_calls = [], pn_slots = []\<rparr>"

definition pending_remove :: "unique_id \<Rightarrow> 'n pending_calls \<Rightarrow> 'n pending_calls" where
  "pending_remove i p =
     (case map_of (pn_calls p) i of
        None \<Rightarrow> p
      | Some n \<Rightarrow> \<lparr>pn_calls = AList.delete i (pn_calls p), pn_slots = (pn_slots p)[n := SlotDropped]\<rparr>)"

text \<open>Registering an id again drops the sender registered before.\<close>

definition pending_register :: "unique_id \<Rightarrow> 'n pending_calls \<Rightarrow> nat \<times> 'n pending_calls" where
  "pending_register i p =
     (let q = pending_remove i p in
      (length (pn_slots q),
       \<lparr>pn_calls = (i, length (pn_slots q)) # pn_calls q, pn_slots = pn_slots q @ [SlotEmpty]\<rparr>))"

definition pending_complete :: "unique_id \<Rightarrow> 'n call_outcome \<Rightarrow> 'n pending_calls \<Rightarrow> 'n pending_calls" where
  "pending_complete i outcome p =
     (case map_of (pn_calls p) i of
        None \<Rightarrow> p
      | Some n \<Rightarrow>
          \<lparr>pn_calls = AList.delete i (pn_calls p), pn_slots = (pn_slots p)[n := SlotSent outcome]\<rparr>)"

definition pending_fail_all :: "'n call_error \<Rightarrow> 'n pending_calls \<Rightarrow> 'n pending_calls" where
  "pending_fail_all err p =
     \<lparr>pn_calls = [], pn_slots = fold (\<lambda>(_, n) slots. slots[n := SlotSent (Err err)]) (pn_calls p) (pn_slots p)\<rparr>"

section \<open>The connection (conn.rs)\<close>

definition OUTBOUND_CHANNEL_CAP :: nat where
  "OUTBOUND_CHANNEL_CAP = 64"

text \<open>What the websocket delivers; \<open>StreamEnd\<close> is the end of the stream.\<close>

datatype ws_item = WsText string | WsClose | WsOther | WsFailed string | StreamEnd

datatype conn_end = RunTerminated | RunDisconnected

datatype ocpp_conn_error = EncodeFailed ocpp_error | ChannelClosed

datatype conn_line =
    FramingLine framing_error
  | WebsocketLine string
  | SendFailed ocpp_conn_error

text \<open>Where each task of the connection stands.\<close>

datatype 'n reader_state = Reading | ReaderReplying "'n ocppj_message" | ReaderEnded

datatype 'n handler_state =
    Handling unique_id string "'n json"
  | HandlerReplying "'n ocppj_message"
  | HandlerFinished

datatype writer_state = Writing | SinkClosing | WriterEnded

record 'a call_task =
  ct_reply :: nat
  ct_action :: 'a
  ct_id :: unique_id
  ct_slot :: nat

datatype ('n, 'a) loop_state =
    LoopIdle
  | Firing "'n ocppj_message"
  | Calling "'a call_task" "'n ocppj_message"
  | Stopping conn_end
  | Draining conn_end
  | LoopEnded conn_end

text \<open>
  The connection: the correlation table, the outbound channel, every task, what was read from and
  written to the websocket, and the awaited calls made (with their id once they have one) and
  answered, by the number of their reply channel.
\<close>

record ('n, 'a, 'r) conn =
  cn_pending :: "'n pending_calls"
  cn_queue :: "'n ocppj_message list"
  cn_writer :: writer_state
  cn_reader :: "'n reader_state"
  cn_handlers :: "'n handler_state list"
  cn_aborting :: bool
  cn_loop :: "('n, 'a) loop_state"
  cn_permit :: bool
  cn_tasks :: "'a call_task list"
  cn_calls :: "('a \<times> unique_id option) list"
  cn_answers :: "(nat \<times> ('n call_error, 'r) result) list"
  cn_read :: "ws_item list"
  cn_wire :: "string list"
  cn_log :: "(level \<times> conn_line) list"

definition conn_start :: "('n, 'a, 'r) conn" where
  "conn_start =
     \<lparr>cn_pending = pending_new, cn_queue = [], cn_writer = Writing, cn_reader = Reading, cn_handlers = [],
      cn_aborting = False, cn_loop = LoopIdle, cn_permit = False, cn_tasks = [], cn_calls = [], cn_answers = [],
      cn_read = [], cn_wire = [], cn_log = []\<rparr>"

definition conn_logged :: "level \<Rightarrow> conn_line \<Rightarrow> ('n, 'a, 'r) conn \<Rightarrow> ('n, 'a, 'r) conn" where
  "conn_logged lv l c = c\<lparr>cn_log := cn_log c @ [(lv, l)]\<rparr>"

definition answer :: "nat \<Rightarrow> ('n call_error, 'r) result \<Rightarrow> ('n, 'a, 'r) conn \<Rightarrow> ('n, 'a, 'r) conn" where
  "answer k res c = c\<lparr>cn_answers := cn_answers c @ [(k, res)]\<rparr>"

text \<open>
  The outbound channel is open until the writer task ends; a send waits while the channel is full.
\<close>

definition out_open :: "('n, 'a, 'r) conn \<Rightarrow> bool" where
  "out_open c \<longleftrightarrow> cn_writer c \<noteq> WriterEnded"

definition out_room :: "('n, 'a, 'r) conn \<Rightarrow> bool" where
  "out_room c \<longleftrightarrow> out_open c \<and> length (cn_queue c) < OUTBOUND_CHANNEL_CAP"

definition out_send :: "'n ocppj_message \<Rightarrow> ('n, 'a, 'r) conn \<Rightarrow> ('n, 'a, 'r) conn" where
  "out_send msg c = c\<lparr>cn_queue := cn_queue c @ [msg]\<rparr>"

subsection \<open>Outbound calls\<close>

definition outbound_fire ::
  "('n, 'a, 'r) version \<Rightarrow> unique_id \<Rightarrow> 'a \<Rightarrow> ('n, 'a, 'r) conn \<Rightarrow> ('n, 'a, 'r) conn"
where
  "outbound_fire v i action c =
     (case v_encode_action v action of
        Err e \<Rightarrow> conn_logged Error (SendFailed (EncodeFailed e)) c
      | Ok payload \<Rightarrow> c\<lparr>cn_loop := Firing (Call i (v_action_name v action) payload)\<rparr>)"

definition fire_sent :: "'n ocppj_message \<Rightarrow> ('n, 'a, 'r) conn \<Rightarrow> ('n, 'a, 'r) conn" where
  "fire_sent msg c = (out_send msg c)\<lparr>cn_loop := LoopIdle\<rparr>"

definition fire_closed :: "('n, 'a, 'r) conn \<Rightarrow> ('n, 'a, 'r) conn" where
  "fire_closed c = (conn_logged Error (SendFailed ChannelClosed) c)\<lparr>cn_loop := LoopIdle\<rparr>"

definition outbound_call ::
  "('n, 'a, 'r) version \<Rightarrow> unique_id \<Rightarrow> 'a \<Rightarrow> ('n, 'a, 'r) conn \<Rightarrow> ('n, 'a, 'r) conn"
where
  "outbound_call v i action c =
     (let k = length (cn_calls c) in
      case v_encode_action v action of
        Err e \<Rightarrow> answer k (Err (call_error_from e)) (c\<lparr>cn_calls := cn_calls c @ [(action, None)]\<rparr>)
      | Ok payload \<Rightarrow>
          let (n, p) = pending_register i (cn_pending c) in
          c\<lparr>cn_calls := cn_calls c @ [(action, Some i)], cn_pending := p,
            cn_loop := Calling \<lparr>ct_reply = k, ct_action = action, ct_id = i, ct_slot = n\<rparr>
                         (Call i (v_action_name v action) payload)\<rparr>)"

definition call_sent :: "'a call_task \<Rightarrow> 'n ocppj_message \<Rightarrow> ('n, 'a, 'r) conn \<Rightarrow> ('n, 'a, 'r) conn" where
  "call_sent t msg c = (out_send msg c)\<lparr>cn_tasks := cn_tasks c @ [t], cn_loop := LoopIdle\<rparr>"

definition call_closed :: "'a call_task \<Rightarrow> ('n, 'a, 'r) conn \<Rightarrow> ('n, 'a, 'r) conn" where
  "call_closed t c =
     answer (ct_reply t) (Err (call_error_new GenericError ''connection closed''))
       (c\<lparr>cn_pending := pending_remove (ct_id t) (cn_pending c), cn_loop := LoopIdle\<rparr>)"

text \<open>The task that awaits the reply, once its slot is filled or dropped, and when its time is up.\<close>

definition task_outcome ::
  "('n, 'a, 'r) version \<Rightarrow> 'a \<Rightarrow> 'n reply_slot \<Rightarrow> ('n call_error, 'r) result option"
where
  "task_outcome v action s =
     (case s of
        SlotEmpty \<Rightarrow> None
      | SlotSent (Ok val) \<Rightarrow>
          Some (case v_decode_result v action val of Ok r \<Rightarrow> Ok r | Err e \<Rightarrow> Err (call_error_from e))
      | SlotSent (Err call_err) \<Rightarrow> Some (Err call_err)
      | SlotDropped \<Rightarrow> Some (Err (call_error_new GenericError ''reply channel dropped'')))"

definition task_ends :: "'a call_task \<Rightarrow> ('n call_error, 'r) result \<Rightarrow> ('n, 'a, 'r) conn \<Rightarrow> ('n, 'a, 'r) conn" where
  "task_ends t res c = answer (ct_reply t) res (c\<lparr>cn_tasks := remove1 t (cn_tasks c)\<rparr>)"

definition task_times_out :: "'a call_task \<Rightarrow> ('n, 'a, 'r) conn \<Rightarrow> ('n, 'a, 'r) conn" where
  "task_times_out t c =
     task_ends t (Err (call_error_new GenericError ''call timed out''))
       (c\<lparr>cn_pending := pending_remove (ct_id t) (cn_pending c)\<rparr>)"

subsection \<open>Inbound calls\<close>

definition into_error :: "unique_id \<Rightarrow> 'n call_error \<Rightarrow> 'n ocppj_message" where
  "into_error i err = CallError i (ce_code err) (ce_description err) (ce_details err)"

definition dispatch_call ::
  "('n, 'a, 'r) version \<Rightarrow> ('a \<Rightarrow> ('n call_error, 'r) result) \<Rightarrow> unique_id \<Rightarrow> string \<Rightarrow> 'n json
     \<Rightarrow> 'n ocppj_message"
where
  "dispatch_call v handle i action_name payload =
     (case v_decode_call v action_name payload of
        Err e \<Rightarrow> into_error i (call_error_from e)
      | Ok action \<Rightarrow>
          (case v_validate v action of
             Err ve \<Rightarrow> into_error i (call_error_new FormationViolation (validation_text ve))
           | Ok _ \<Rightarrow>
               (case handle action of
                  Ok response \<Rightarrow>
                    (case v_encode_response v response of
                       Ok p \<Rightarrow> CallResult i p
                     | Err e \<Rightarrow> into_error i (call_error_from e))
                | Err call_err \<Rightarrow> into_error i call_err)))"

definition handlers_track :: "'n handler_state \<Rightarrow> 'n handler_state list \<Rightarrow> 'n handler_state list" where
  "handlers_track h hs = filter (\<lambda>h. h \<noteq> HandlerFinished) hs @ [h]"

definition handlers_abort_all :: "('n, 'a, 'r) conn \<Rightarrow> ('n, 'a, 'r) conn" where
  "handlers_abort_all c = c\<lparr>cn_aborting := True\<rparr>"

subsection \<open>The reader\<close>

definition reader_ends :: "('n, 'a, 'r) conn \<Rightarrow> ('n, 'a, 'r) conn" where
  "reader_ends c = c\<lparr>cn_reader := ReaderEnded, cn_permit := True\<rparr>"

definition reader_message :: "'n ocppj_message \<Rightarrow> ('n, 'a, 'r) conn \<Rightarrow> ('n, 'a, 'r) conn" where
  "reader_message msg c =
     (case msg of
        Call i action payload \<Rightarrow> c\<lparr>cn_handlers := handlers_track (Handling i action payload) (cn_handlers c)\<rparr>
      | CallResult i payload \<Rightarrow> c\<lparr>cn_pending := pending_complete i (Ok payload) (cn_pending c)\<rparr>
      | CallError i code description details \<Rightarrow>
          c\<lparr>cn_pending :=
              pending_complete i (Err \<lparr>ce_code = code, ce_description = description, ce_details = details\<rparr>)
                (cn_pending c)\<rparr>)"

definition reader_item :: "'n serde \<Rightarrow> ws_item \<Rightarrow> ('n, 'a, 'r) conn \<Rightarrow> ('n, 'a, 'r) conn" where
  "reader_item lib item c0 =
     (let c = c0\<lparr>cn_read := cn_read c0 @ [item]\<rparr> in
      case item of
        WsText txt \<Rightarrow>
          (case ocppj_decode lib txt of
             Ok msg \<Rightarrow> reader_message msg c
           | Err e \<Rightarrow>
               let c1 = conn_logged Warning (FramingLine e) c in
               (case recover_call_id lib txt of
                  Some i \<Rightarrow> c1\<lparr>cn_reader := ReaderReplying (CallError i FormationViolation (framing_text e) (JObject []))\<rparr>
                | None \<Rightarrow> c1))
      | WsClose \<Rightarrow> reader_ends c
      | WsOther \<Rightarrow> c
      | WsFailed e \<Rightarrow> reader_ends (conn_logged Warning (WebsocketLine e) c)
      | StreamEnd \<Rightarrow> reader_ends c)"

subsection \<open>The writer and the end of a connection\<close>

definition writer_wrote :: "'n serde \<Rightarrow> 'n ocppj_message \<Rightarrow> 'n ocppj_message list \<Rightarrow> ('n, 'a, 'r) conn \<Rightarrow> ('n, 'a, 'r) conn" where
  "writer_wrote lib msg rest c = c\<lparr>cn_queue := rest, cn_wire := cn_wire c @ [ocppj_encode lib msg]\<rparr>"

definition writer_failed :: "'n ocppj_message list \<Rightarrow> ('n, 'a, 'r) conn \<Rightarrow> ('n, 'a, 'r) conn" where
  "writer_failed rest c = c\<lparr>cn_queue := rest, cn_writer := SinkClosing\<rparr>"

text \<open>Every sender of the outbound channel is gone: the loop's, the reader's and the handlers'.\<close>

definition senders_gone :: "('n, 'a, 'r) conn \<Rightarrow> bool" where
  "senders_gone c \<longleftrightarrow>
     (case cn_loop c of Draining _ \<Rightarrow> True | LoopEnded _ \<Rightarrow> True | _ \<Rightarrow> False) \<and>
     cn_reader c = ReaderEnded \<and> list_all (\<lambda>h. h = HandlerFinished) (cn_handlers c)"

definition conn_shutdown :: "conn_end \<Rightarrow> ('n, 'a, 'r) conn \<Rightarrow> ('n, 'a, 'r) conn" where
  "conn_shutdown e c =
     (let c1 = handlers_abort_all c in
      c1\<lparr>cn_pending := pending_fail_all (call_error_new GenericError ''connection terminated'') (cn_pending c1),
         cn_loop := Draining e\<rparr>)"

section \<open>The command loop (cs/core.rs) and the interleaving\<close>

datatype 'a cs_command = CsTerminate | SendAction 'a | SendActionAwait 'a

text \<open>
  What the loop does with the next command; \<open>None\<close> is a closed command channel. The id is the fresh
  one a Call takes.
\<close>

definition cs_loop_command ::
  "('n, 'a, 'r) version \<Rightarrow> unique_id \<Rightarrow> 'a cs_command option \<Rightarrow> ('n, 'a, 'r) conn \<Rightarrow> ('n, 'a, 'r) conn"
where
  "cs_loop_command v i cmd c =
     (case cmd of
        None \<Rightarrow> c\<lparr>cn_loop := Stopping RunTerminated\<rparr>
      | Some CsTerminate \<Rightarrow> c\<lparr>cn_loop := Stopping RunTerminated\<rparr>
      | Some (SendAction action) \<Rightarrow> outbound_fire v i action c
      | Some (SendActionAwait action) \<Rightarrow> outbound_call v i action c)"

definition loop_notified :: "('n, 'a, 'r) conn \<Rightarrow> ('n, 'a, 'r) conn" where
  "loop_notified c = c\<lparr>cn_permit := False, cn_loop := Stopping RunDisconnected\<rparr>"

inductive conn_step ::
  "'n serde \<Rightarrow> ('n, 'a, 'r) version \<Rightarrow> ('n, 'a, 'r) conn \<Rightarrow> ('n, 'a, 'r) conn \<Rightarrow> bool"
  for lib v
where
  commanded: "cn_loop c = LoopIdle \<Longrightarrow> conn_step lib v c (cs_loop_command v i cmd c)"
| notified: "cn_loop c = LoopIdle \<Longrightarrow> cn_permit c \<Longrightarrow> conn_step lib v c (loop_notified c)"
| fired: "cn_loop c = Firing msg \<Longrightarrow> out_room c \<Longrightarrow> conn_step lib v c (fire_sent msg c)"
| fire_failed: "cn_loop c = Firing msg \<Longrightarrow> \<not> out_open c \<Longrightarrow> conn_step lib v c (fire_closed c)"
| called: "cn_loop c = Calling t msg \<Longrightarrow> out_room c \<Longrightarrow> conn_step lib v c (call_sent t msg c)"
| call_failed: "cn_loop c = Calling t msg \<Longrightarrow> \<not> out_open c \<Longrightarrow> conn_step lib v c (call_closed t c)"
| replied: "t \<in> set (cn_tasks c) \<Longrightarrow> task_outcome v (ct_action t) (pn_slots (cn_pending c) ! ct_slot t) = Some res
    \<Longrightarrow> conn_step lib v c (task_ends t res c)"
| timed_out: "t \<in> set (cn_tasks c) \<Longrightarrow> pn_slots (cn_pending c) ! ct_slot t = SlotEmpty
    \<Longrightarrow> conn_step lib v c (task_times_out t c)"
| reads: "cn_reader c = Reading \<Longrightarrow> conn_step lib v c (reader_item lib item c)"
| reader_sends: "cn_reader c = ReaderReplying msg \<Longrightarrow> out_room c
    \<Longrightarrow> conn_step lib v c ((out_send msg c)\<lparr>cn_reader := Reading\<rparr>)"
| reader_gives_up: "cn_reader c = ReaderReplying msg \<Longrightarrow> \<not> out_open c \<Longrightarrow> conn_step lib v c (c\<lparr>cn_reader := Reading\<rparr>)"
| reader_aborted: "cn_loop c = Stopping e \<Longrightarrow> conn_step lib v c (c\<lparr>cn_reader := ReaderEnded\<rparr>)"
| handles: "k < length (cn_handlers c) \<Longrightarrow> cn_handlers c ! k = Handling i action payload
    \<Longrightarrow> conn_step lib v c
          (c\<lparr>cn_handlers := (cn_handlers c)[k := HandlerReplying (dispatch_call v handle i action payload)]\<rparr>)"
| handler_sends: "k < length (cn_handlers c) \<Longrightarrow> cn_handlers c ! k = HandlerReplying msg \<Longrightarrow> out_room c
    \<Longrightarrow> conn_step lib v c ((out_send msg c)\<lparr>cn_handlers := (cn_handlers c)[k := HandlerFinished]\<rparr>)"
| handler_gives_up: "k < length (cn_handlers c) \<Longrightarrow> cn_handlers c ! k = HandlerReplying msg \<Longrightarrow> \<not> out_open c
    \<Longrightarrow> conn_step lib v c (c\<lparr>cn_handlers := (cn_handlers c)[k := HandlerFinished]\<rparr>)"
| handler_aborted: "k < length (cn_handlers c) \<Longrightarrow> cn_aborting c
    \<Longrightarrow> conn_step lib v c (c\<lparr>cn_handlers := (cn_handlers c)[k := HandlerFinished]\<rparr>)"
| writes: "cn_writer c = Writing \<Longrightarrow> cn_queue c = msg # rest \<Longrightarrow> conn_step lib v c (writer_wrote lib msg rest c)"
| write_fails: "cn_writer c = Writing \<Longrightarrow> cn_queue c = msg # rest \<Longrightarrow> conn_step lib v c (writer_failed rest c)"
| drained: "cn_writer c = Writing \<Longrightarrow> cn_queue c = [] \<Longrightarrow> senders_gone c
    \<Longrightarrow> conn_step lib v c (c\<lparr>cn_writer := SinkClosing\<rparr>)"
| closes: "cn_writer c = SinkClosing \<Longrightarrow> conn_step lib v c (c\<lparr>cn_writer := WriterEnded, cn_queue := []\<rparr>)"
| shuts_down: "cn_loop c = Stopping e \<Longrightarrow> cn_reader c = ReaderEnded \<Longrightarrow> conn_step lib v c (conn_shutdown e c)"
| finishes: "cn_loop c = Draining e \<Longrightarrow> cn_writer c = WriterEnded \<Longrightarrow> conn_step lib v c (c\<lparr>cn_loop := LoopEnded e\<rparr>)"

inductive conn_reachable :: "'n serde \<Rightarrow> ('n, 'a, 'r) version \<Rightarrow> ('n, 'a, 'r) conn \<Rightarrow> bool" for lib v where
  started: "conn_reachable lib v conn_start"
| stepped: "conn_reachable lib v c \<Longrightarrow> conn_step lib v c c' \<Longrightarrow> conn_reachable lib v c'"

end
