(* ===== verification/Ocpp_Message_Properties.thy ===== *)
theory Ocpp_Message_Properties
  imports Ocpp_Message
begin

text \<open>
  The OCPP-J codec: what it writes it reads back, what it reads is exactly a well-formed envelope,
  and a malformed frame is answerable exactly when it is a Call with an id.
\<close>

text \<open>
  The JSON library's side of the contract, for one message: its text parses back to the array it
  was written from, and the message type ids survive as numbers.
\<close>

definition library_faithful :: "'n serde \<Rightarrow> 'n ocppj_message \<Rightarrow> bool" where
  "library_faithful lib m \<longleftrightarrow>
     sj_from_str lib (sj_to_string lib (envelope lib m)) = Ok (envelope lib m) \<and>
     list_all (\<lambda>t. sj_as_i64 lib (sj_i64 lib t) = Some t) [2, 3, 4]"

lemma decode_reads: "ocppj_decode lib txt = Ok m \<longleftrightarrow>
    (\<exists>arr. sj_from_str lib txt = Ok (JArray arr) \<and> reads_as lib arr m)"
proof
  assume "ocppj_decode lib txt = Ok m"
  then show "\<exists>arr. sj_from_str lib txt = Ok (JArray arr) \<and> reads_as lib arr m"
    by (auto simp: ocppj_decode_def as_array_iff type_at_iff reads_as_def str_at_iff length_2 length_3 length_4 length_5
        split: sum.split_asm option.split_asm if_split_asm)
next
  assume "\<exists>arr. sj_from_str lib txt = Ok (JArray arr) \<and> reads_as lib arr m"
  then show "ocppj_decode lib txt = Ok m"
    by (cases m) (auto simp: ocppj_decode_def reads_as_def str_at_def arr_get_def)
qed

lemma recover_reads: "recover_call_id lib txt = Some i \<longleftrightarrow>
    (\<exists>n rest. sj_from_str lib txt = Ok (JArray (JNumber n # JString i # rest)) \<and> sj_as_i64 lib n = Some 2)"
proof
  assume "recover_call_id lib txt = Some i"
  then show "\<exists>n rest. sj_from_str lib txt = Ok (JArray (JNumber n # JString i # rest)) \<and> sj_as_i64 lib n = Some 2"
    by (auto simp: recover_call_id_def as_array_iff type_at_iff arr_get_def as_str_iff as_i64_iff nth_Cons'
        bind_eq_Some_conv neq_Nil_conv split: sum.split_asm if_split_asm)
qed (auto simp: recover_call_id_def arr_get_def)

lemma decode_recover:
  "ocppj_decode lib tx = Ok m \<Longrightarrow> recover_call_id lib tx = (case m of Call j a p \<Rightarrow> Some j | _ \<Rightarrow> None)"
  unfolding decode_reads by (cases m) (auto simp: reads_as_def recover_call_id_def arr_get_def)

lemma decode_encoded: "library_faithful lib m \<Longrightarrow> ocppj_decode lib (ocppj_encode lib m) = Ok m"
  unfolding decode_reads
  by (cases m) (force simp: library_faithful_def ocppj_encode_def reads_as_def)+

text \<open>
  C26. An encoded message decodes to itself, whatever its id, action, code, description and payload,
  as long as the JSON library reads back what it wrote.
\<close>

theorem message_round_trip:
  assumes "library_faithful lib m"
  shows "ocppj_decode lib (ocppj_encode lib m) = Ok m"
  by (rule decode_encoded [OF assms])

text \<open>A library whose numbers are integers and whose text is written for the one message.\<close>

definition demo_serde :: "int serde" where
  "demo_serde =
     \<lparr>sj_from_str = (\<lambda>t. if t = ''F'' then Ok (JArray [JNumber 4, JString ''7'', JString ''SecurityError'', JString ''no'', JNull])
                       else if t = ''S'' then Ok (JArray [JNumber 2, JString ''7'', JNull])
                       else Err ''eof''),
      sj_to_string = (\<lambda>_. ''F''), sj_as_i64 = Some, sj_i64 = (\<lambda>i. i)\<rparr>"

theorem message_round_trip_witness:
  "ocppj_decode demo_serde (ocppj_encode demo_serde (CallError ''7'' SecurityError ''no'' JNull)) =
     Ok (CallError ''7'' SecurityError ''no'' JNull)"
  by (rule message_round_trip) (simp add: library_faithful_def demo_serde_def)

text \<open>
  C27. Decoding accepts exactly the well-formed envelopes: three arities for the three message
  types, string ids, any spelling of an error code. A frame is answerable exactly when it is an
  array starting with the Call type and a string id; for a frame that decodes this is the id of the
  Call, and a rejected frame that is answerable has only a wrong length or action.
\<close>

theorem message_decode_exact:
  "(ocppj_decode lib txt = Ok m \<longleftrightarrow> (\<exists>arr. sj_from_str lib txt = Ok (JArray arr) \<and> reads_as lib arr m)) \<and>
   (recover_call_id lib txt = Some i \<longleftrightarrow>
     (\<exists>n rest. sj_from_str lib txt = Ok (JArray (JNumber n # JString i # rest)) \<and> sj_as_i64 lib n = Some 2)) \<and>
   (ocppj_decode lib txt = Ok m \<longrightarrow> recover_call_id lib txt = (case m of Call j a p \<Rightarrow> Some j | _ \<Rightarrow> None)) \<and>
   (ocppj_decode lib txt = Err e \<and> recover_call_id lib txt = Some i \<longrightarrow>
     (\<exists>n. e = BadArity n \<and> n \<noteq> 4) \<or> e = BadFieldType ''action'')"
proof (intro conjI)
  show "ocppj_decode lib txt = Ok m \<longrightarrow> recover_call_id lib txt = (case m of Call j a p \<Rightarrow> Some j | _ \<Rightarrow> None)"
    using decode_recover by blast
  show "ocppj_decode lib txt = Err e \<and> recover_call_id lib txt = Some i \<longrightarrow>
      (\<exists>n. e = BadArity n \<and> n \<noteq> 4) \<or> e = BadFieldType ''action''"
    unfolding recover_reads
    by (auto simp: ocppj_decode_def str_at_def arr_get_def split: if_split_asm option.split_asm sum.split_asm)
qed (rule decode_reads recover_reads)+

theorem message_decode_exact_witness:
  "(\<exists>e. ocppj_decode demo_serde ''S'' = Err e \<and> ((\<exists>n. e = BadArity n \<and> n \<noteq> 4) \<or> e = BadFieldType ''action'')) \<and>
     recover_call_id demo_serde ''S'' = Some ''7'' \<and> recover_call_id demo_serde ''F'' = None"
proof -
  have d: "ocppj_decode demo_serde ''S'' = Err (BadArity 3)"
    by (simp add: ocppj_decode_def demo_serde_def)
  have r: "recover_call_id demo_serde ''S'' = Some ''7''"
    by (simp add: recover_call_id_def demo_serde_def arr_get_def)
  have "ocppj_decode demo_serde ''F'' = Ok (CallError ''7'' SecurityError ''no'' JNull)"
    by (simp add: ocppj_decode_def demo_serde_def str_at_def arr_get_def code_from_wire_def)
  then show ?thesis
    using d r message_decode_exact [of demo_serde "''S''" "Call ''7'' [] JNull" "''7''" "BadArity 3"]
      message_decode_exact [of demo_serde "''F''" "CallError ''7'' SecurityError ''no'' JNull" "''7''" NotAnArray]
    by simp
qed

end
