(* ===== verification/Ocpp_Connection_Properties.thy ===== *)
theory Ocpp_Connection_Properties
  imports Ocpp_Connection Ocpp_Message_Properties
begin

text \<open>
  The connection engine under every interleaving of its tasks: each awaited call is answered once
  and only by its own reply, each inbound Call is answered at most once and only under its own id,
  and a connection can always be brought to its end with every caller answered.
\<close>

section \<open>The correlation table\<close>

text \<open>The table holds exactly the slots that still wait, each under one id.\<close>

definition pending_ok :: "'n pending_calls \<Rightarrow> bool" where
  "pending_ok p \<longleftrightarrow> distinct (map fst (pn_calls p)) \<and> distinct (map snd (pn_calls p)) \<and>
     (\<forall>n. n \<in> snd ` set (pn_calls p) \<longleftrightarrow> n < length (pn_slots p) \<and> pn_slots p ! n = SlotEmpty)"

lemma delete_set: "distinct (map fst xs) \<Longrightarrow> set (AList.delete i xs) = {x \<in> set xs. fst x \<noteq> i}"
  by (induction xs) auto

lemma distinct_snd_delete: "distinct (map snd xs) \<Longrightarrow> distinct (map snd (AList.delete i xs))"
  unfolding AList.delete_eq by (rule distinct_map_filter)

lemma distinct_snd_inj: "distinct (map snd xs) \<Longrightarrow> (i, n) \<in> set xs \<Longrightarrow> (j, n) \<in> set xs \<Longrightarrow> i = j"
  by (induction xs) force+

lemma pending_slot_of:
  assumes "pending_ok p" "map_of (pn_calls p) i = Some n"
  shows "n < length (pn_slots p)" "pn_slots p ! n = SlotEmpty" "(i, n) \<in> set (pn_calls p)"
  using assms map_of_SomeD [OF assms(2)] unfolding pending_ok_def by force+

text \<open>Taking the entry of an id out of the table, and settling its slot.\<close>

definition pending_settle :: "unique_id \<Rightarrow> 'n reply_slot \<Rightarrow> 'n pending_calls \<Rightarrow> 'n pending_calls" where
  "pending_settle i s p =
     (case map_of (pn_calls p) i of
        None \<Rightarrow> p
      | Some n \<Rightarrow> \<lparr>pn_calls = AList.delete i (pn_calls p), pn_slots = (pn_slots p)[n := s]\<rparr>)"

lemma pending_remove_settle: "pending_remove i p = pending_settle i SlotDropped p"
  by (simp add: pending_remove_def pending_settle_def split: option.split)

lemma pending_complete_settle: "pending_complete i r p = pending_settle i (SlotSent r) p"
  by (simp add: pending_complete_def pending_settle_def split: option.split)

lemma settle_calls: "pending_ok p \<Longrightarrow> set (pn_calls (pending_settle i s p)) = {x \<in> set (pn_calls p). fst x \<noteq> i}"
  by (auto simp: pending_settle_def pending_ok_def delete_set map_of_eq_None_iff split: option.split)

lemma settle_length [simp]: "length (pn_slots (pending_settle i s p)) = length (pn_slots p)"
  by (simp add: pending_settle_def split: option.split)

lemma settle_slot:
  assumes "pending_ok p" "n < length (pn_slots p)"
  shows "pn_slots (pending_settle i s p) ! n = (if (i, n) \<in> set (pn_calls p) then s else pn_slots p ! n)"
proof (cases "map_of (pn_calls p) i")
  case None
  then have "(i, n) \<notin> set (pn_calls p)" by (force simp: map_of_eq_None_iff)
  with None show ?thesis by (simp add: pending_settle_def)
next
  case (Some m)
  have "(i, n) \<in> set (pn_calls p) \<longleftrightarrow> n = m"
    using assms(1) map_of_SomeD [OF Some] eq_key_imp_eq_value [of "pn_calls p" i n m]
    by (auto simp: pending_ok_def)
  with Some assms(2) show ?thesis by (auto simp: pending_settle_def)
qed

lemma settle_ok:
  assumes ok: "pending_ok p" and s: "s \<noteq> SlotEmpty"
  shows "pending_ok (pending_settle i s p)"
proof -
  have "n \<in> snd ` set (pn_calls (pending_settle i s p)) \<longleftrightarrow>
      n < length (pn_slots p) \<and> pn_slots (pending_settle i s p) ! n = SlotEmpty" for n
  proof (cases "n < length (pn_slots p)")
    case True
    have "n \<in> snd ` set (pn_calls p) \<longleftrightarrow> pn_slots p ! n = SlotEmpty" using ok True by (simp add: pending_ok_def)
    moreover have "(i, n) \<in> set (pn_calls p) \<Longrightarrow> (j, n) \<in> set (pn_calls p) \<Longrightarrow> j = i" for j
      using ok distinct_snd_inj [of "pn_calls p" j n i] by (simp add: pending_ok_def)
    ultimately show ?thesis using True s by (auto simp: settle_calls [OF ok] settle_slot [OF ok True] image_iff) force+
  next
    case False
    then have "n \<notin> snd ` set (pn_calls p)" using ok by (simp add: pending_ok_def)
    with False show ?thesis by (auto simp: settle_calls [OF ok])
  qed
  moreover have "distinct (map fst (pn_calls (pending_settle i s p)))" "distinct (map snd (pn_calls (pending_settle i s p)))"
    using ok by (auto simp: pending_settle_def pending_ok_def distinct_delete distinct_snd_delete split: option.split)
  ultimately show ?thesis by (simp add: pending_ok_def)
qed

lemma pending_new_ok: "pending_ok pending_new"
  by (simp add: pending_ok_def pending_new_def)

lemma fail_all_slots:
  "n < length slots \<Longrightarrow> fold (\<lambda>(_, n) ss. ss[n := s]) xs slots ! n = (if n \<in> snd ` set xs then s else slots ! n)"
  "length (fold (\<lambda>(_, n) ss. ss[n := s]) xs slots) = length slots"
  by (induction xs arbitrary: slots) (auto simp: nth_list_update split: prod.split)

lemma fail_all_ok: "pending_ok p \<Longrightarrow> pending_ok (pending_fail_all e p)"
  by (auto simp: pending_ok_def pending_fail_all_def fail_all_slots)

lemma register_ok:
  assumes "pending_ok p"
  shows "pending_ok (snd (pending_register i p))"
proof -
  define q where "q = pending_settle i SlotDropped p"
  have q: "pending_ok q" unfolding q_def by (rule settle_ok [OF assms]) simp
  have i: "i \<notin> fst ` set (pn_calls q)" by (auto simp: q_def settle_calls [OF assms])
  have "length (pn_slots q) \<notin> snd ` set (pn_calls q)" using q by (simp add: pending_ok_def)
  with q i show ?thesis
    by (auto simp: pending_register_def pending_remove_settle Let_def q_def [symmetric] pending_ok_def nth_append
        less_Suc_eq)
qed

section \<open>Awaited calls\<close>

text \<open>What the peer said about a call, and what else may settle it.\<close>

definition peer_outcome :: "'n serde \<Rightarrow> ws_item list \<Rightarrow> unique_id \<Rightarrow> 'n call_outcome \<Rightarrow> bool" where
  "peer_outcome lib items i r \<longleftrightarrow>
     (\<exists>txt. WsText txt \<in> set items \<and>
        (case r of
           Ok p \<Rightarrow> ocppj_decode lib txt = Ok (CallResult i p)
         | Err e \<Rightarrow> ocppj_decode lib txt = Ok (CallError i (ce_code e) (ce_description e) (ce_details e))))"

definition local_failure :: "string \<Rightarrow> ('n call_error, 'x) result" where
  "local_failure m = Err (call_error_new GenericError m)"

definition outcome_ok :: "'n serde \<Rightarrow> ws_item list \<Rightarrow> unique_id \<Rightarrow> 'n call_outcome \<Rightarrow> bool" where
  "outcome_ok lib items i r \<longleftrightarrow> peer_outcome lib items i r \<or> r = local_failure ''connection terminated''"

definition slot_ok :: "'n serde \<Rightarrow> ws_item list \<Rightarrow> unique_id \<Rightarrow> nat \<Rightarrow> 'n pending_calls \<Rightarrow> bool" where
  "slot_ok lib items i n p \<longleftrightarrow>
     (case pn_slots p ! n of
        SlotEmpty \<Rightarrow> (i, n) \<in> set (pn_calls p)
      | SlotSent r \<Rightarrow> outcome_ok lib items i r
      | SlotDropped \<Rightarrow> True)"

definition answer_ok ::
  "'n serde \<Rightarrow> ('n, 'a, 'r) version \<Rightarrow> ws_item list \<Rightarrow> 'a \<times> unique_id option \<Rightarrow> ('n call_error, 'r) result \<Rightarrow> bool"
where
  "answer_ok lib v items call res \<longleftrightarrow>
     (case call of
        (a, None) \<Rightarrow> \<exists>e. v_encode_action v a = Err e \<and> res = Err (call_error_from e)
      | (a, Some i) \<Rightarrow>
          (\<exists>r. peer_outcome lib items i r \<and> task_outcome v a (SlotSent r) = Some res) \<or>
          res \<in> {local_failure ''connection closed'', local_failure ''reply channel dropped'',
                 local_failure ''call timed out'', local_failure ''connection terminated''})"

definition calls_inv ::
  "'n serde \<Rightarrow> ('n, 'a, 'r) version \<Rightarrow> 'n pending_calls \<Rightarrow> 'a call_task list \<Rightarrow> ('a \<times> unique_id option) list
     \<Rightarrow> (nat \<times> ('n call_error, 'r) result) list \<Rightarrow> ws_item list \<Rightarrow> bool"
where
  "calls_inv lib v p live calls answers items \<longleftrightarrow>
     pending_ok p \<and>
     distinct (map ct_reply live @ map fst answers) \<and>
     set (map ct_reply live @ map fst answers) = {..<length calls} \<and>
     distinct (map ct_slot live) \<and>
     (\<forall>t \<in> set live. ct_slot t < length (pn_slots p) \<and> calls ! ct_reply t = (ct_action t, Some (ct_id t)) \<and>
                      slot_ok lib items (ct_id t) (ct_slot t) p) \<and>
     (\<forall>(k, res) \<in> set answers. answer_ok lib v items (calls ! k) res)"

lemma peer_outcome_mono: "peer_outcome lib items i r \<Longrightarrow> set items \<subseteq> set items' \<Longrightarrow> peer_outcome lib items' i r"
  unfolding peer_outcome_def by blast

lemma slot_ok_mono: "slot_ok lib items i n p \<Longrightarrow> set items \<subseteq> set items' \<Longrightarrow> slot_ok lib items' i n p"
  unfolding slot_ok_def outcome_ok_def using peer_outcome_mono by (fastforce split: reply_slot.splits)

lemma answer_ok_mono: "answer_ok lib v items call res \<Longrightarrow> set items \<subseteq> set items' \<Longrightarrow> answer_ok lib v items' call res"
  unfolding answer_ok_def using peer_outcome_mono by (fastforce split: prod.splits option.splits)

lemma calls_inv_mono:
  assumes "calls_inv lib v p live calls answers items" "set items \<subseteq> set items'"
  shows "calls_inv lib v p live calls answers items'"
  using assms slot_ok_mono [OF _ assms(2)] answer_ok_mono [OF _ assms(2)] unfolding calls_inv_def by blast

lemma calls_inv_settle:
  assumes inv: "calls_inv lib v p live calls answers items" and "s \<noteq> SlotEmpty"
    and sent: "\<And>r. s = SlotSent r \<Longrightarrow> outcome_ok lib items i r"
  shows "calls_inv lib v (pending_settle i s p) live calls answers items"
proof -
  have ok: "pending_ok p" using inv by (simp add: calls_inv_def)
  have "slot_ok lib items (ct_id t) (ct_slot t) (pending_settle i s p)" if t: "t \<in> set live" for t
  proof -
    have n: "ct_slot t < length (pn_slots p)" and so: "slot_ok lib items (ct_id t) (ct_slot t) p"
      using inv t by (simp_all add: calls_inv_def)
    show ?thesis
    proof (cases "(i, ct_slot t) \<in> set (pn_calls p)")
      case True
      then have "pn_slots p ! ct_slot t = SlotEmpty" using ok n unfolding pending_ok_def by force
      with so have "(ct_id t, ct_slot t) \<in> set (pn_calls p)" by (simp add: slot_ok_def)
      with True have "ct_id t = i" using ok distinct_snd_inj by (force simp: pending_ok_def)
      with True assms(2) sent show ?thesis by (simp add: slot_ok_def settle_slot [OF ok n] split: reply_slot.split)
    next
      case False
      then show ?thesis
        using so by (auto simp: slot_ok_def settle_slot [OF ok n] settle_calls [OF ok] split: reply_slot.splits)
    qed
  qed
  then show ?thesis using inv settle_ok [OF ok assms(2)] by (simp add: calls_inv_def)
qed

lemma calls_inv_fail_all:
  assumes inv: "calls_inv lib v p live calls answers items"
  shows "calls_inv lib v (pending_fail_all (call_error_new GenericError ''connection terminated'') p) live calls answers items"
proof -
  have ok: "pending_ok p" using inv by (simp add: calls_inv_def)
  have "slot_ok lib items (ct_id t) (ct_slot t) (pending_fail_all (call_error_new GenericError ''connection terminated'') p)"
    if "t \<in> set live" for t
    using inv that ok
    by (auto simp: calls_inv_def slot_ok_def pending_fail_all_def fail_all_slots outcome_ok_def local_failure_def
        pending_ok_def split: reply_slot.splits)
  then show ?thesis using inv fail_all_ok [OF ok] by (simp add: calls_inv_def pending_fail_all_def fail_all_slots)
qed

lemma calls_invD:
  assumes "calls_inv lib v p live calls answers items"
  shows "t \<in> set live \<Longrightarrow> ct_reply t < length calls"
    "t \<in> set live \<Longrightarrow> ct_slot t < length (pn_slots p)"
    "t \<in> set live \<Longrightarrow> calls ! ct_reply t = (ct_action t, Some (ct_id t))"
    "t \<in> set live \<Longrightarrow> slot_ok lib items (ct_id t) (ct_slot t) p"
    "(k, res) \<in> set answers \<Longrightarrow> k < length calls"
    "(k, res) \<in> set answers \<Longrightarrow> answer_ok lib v items (calls ! k) res"
proof -
  have all: "set (map ct_reply live @ map fst answers) = {..<length calls}" using assms by (simp add: calls_inv_def)
  show "t \<in> set live \<Longrightarrow> ct_reply t < length calls"
    using all by (metis Un_iff image_eqI lessThan_iff set_append set_map)
  show "(k, res) \<in> set answers \<Longrightarrow> k < length calls"
    using all by (metis Un_iff fst_conv image_eqI lessThan_iff set_append set_map)
qed (use assms in \<open>auto simp: calls_inv_def\<close>)

lemma calls_inv_extend:
  assumes inv: "calls_inv lib v p live calls answers items"
  shows "t \<in> set live \<Longrightarrow> (calls @ xs) ! ct_reply t = (ct_action t, Some (ct_id t))"
    "(k, res) \<in> set answers \<Longrightarrow> answer_ok lib v items ((calls @ xs) ! k) res"
  using calls_invD [OF inv] by (simp_all add: nth_append)

lemma calls_inv_register:
  assumes inv: "calls_inv lib v p live calls answers items" and reg: "pending_register i p = (n, p')"
    and t: "t = \<lparr>ct_reply = length calls, ct_action = a, ct_id = i, ct_slot = n\<rparr>"
  shows "calls_inv lib v p' (live @ [t]) (calls @ [(a, Some i)]) answers items"
proof -
  define q where "q = pending_settle i SlotDropped p"
  have q: "calls_inv lib v q live calls answers items" unfolding q_def by (rule calls_inv_settle [OF inv]) simp_all
  have p': "p' = \<lparr>pn_calls = (i, n) # pn_calls q, pn_slots = pn_slots q @ [SlotEmpty]\<rparr>" and n: "n = length (pn_slots q)"
    using reg by (auto simp: pending_register_def Let_def pending_remove_settle q_def)
  have ok': "pending_ok p'" using register_ok [of p i] inv reg by (simp add: calls_inv_def)
  have old: "slot_ok lib items (ct_id u) (ct_slot u) p'" "ct_slot u < n" if u: "u \<in> set live" for u
    using calls_invD(2,4) [OF q u] by (auto simp: p' n slot_ok_def nth_append split: reply_slot.splits)
  have slots: "distinct (map ct_slot (live @ [t]))"
    using q old(2) unfolding calls_inv_def t by force
  have replies: "distinct (map ct_reply (live @ [t]) @ map fst answers)"
      "set (map ct_reply (live @ [t]) @ map fst answers) = {..<length (calls @ [(a, Some i)])}"
    using q by (auto simp: calls_inv_def t lessThan_Suc)
  have each: "ct_slot u < length (pn_slots p') \<and> (calls @ [(a, Some i)]) ! ct_reply u = (ct_action u, Some (ct_id u)) \<and>
      slot_ok lib items (ct_id u) (ct_slot u) p'" if "u \<in> set (live @ [t])" for u
  proof (cases "u = t")
    case True
    then show ?thesis by (simp add: t p' n slot_ok_def)
  next
    case False
    with that have u: "u \<in> set live" by simp
    show ?thesis using old [OF u] calls_inv_extend(1) [OF q u] by (simp add: p' n less_SucI)
  qed
  show ?thesis unfolding calls_inv_def
    using ok' slots replies each calls_inv_extend(2) [OF q] by blast
qed

lemma calls_inv_refused:
  assumes inv: "calls_inv lib v p live calls answers items" and "v_encode_action v a = Err e"
  shows "calls_inv lib v p live (calls @ [(a, None)]) (answers @ [(length calls, Err (call_error_from e))]) items"
proof -
  have replies: "distinct (map ct_reply live @ map fst (answers @ [(length calls, Err (call_error_from e))]))"
      "set (map ct_reply live @ map fst (answers @ [(length calls, Err (call_error_from e))])) =
         {..<length (calls @ [(a, None)])}"
    using inv by (auto simp: calls_inv_def lessThan_Suc)
  have "answer_ok lib v items ((calls @ [(a, None)]) ! k) res"
    if "(k, res) \<in> set (answers @ [(length calls, Err (call_error_from e))])" for k res
  proof (cases "(k, res) \<in> set answers")
    case True
    then show ?thesis by (rule calls_inv_extend(2) [OF inv])
  next
    case False
    with that assms(2) show ?thesis by (simp add: answer_ok_def)
  qed
  then show ?thesis unfolding calls_inv_def
    using inv replies calls_invD(2,4) [OF inv] calls_inv_extend(1) [OF inv] unfolding calls_inv_def by blast
qed

lemma calls_inv_end:
  assumes inv: "calls_inv lib v p (xs @ t # ys) calls answers items"
    and "answer_ok lib v items (ct_action t, Some (ct_id t)) res"
  shows "calls_inv lib v p (xs @ ys) calls (answers @ [(ct_reply t, res)]) items"
  using assms unfolding calls_inv_def by auto

text \<open>The calls still under way: those whose task runs, and the one being sent.\<close>

definition calling :: "('n, 'a) loop_state \<Rightarrow> 'a call_task list" where
  "calling l = (case l of Calling t msg \<Rightarrow> [t] | _ \<Rightarrow> [])"

definition live_calls :: "('n, 'a, 'r) conn \<Rightarrow> 'a call_task list" where
  "live_calls c = cn_tasks c @ calling (cn_loop c)"

definition torn_down :: "('n, 'a) loop_state \<Rightarrow> bool" where
  "torn_down l \<longleftrightarrow> (case l of Draining e \<Rightarrow> True | LoopEnded e \<Rightarrow> True | _ \<Rightarrow> False)"

lemma calling_simps [simp]:
  "calling LoopIdle = []" "calling (Firing msg) = []" "calling (Calling t msg) = [t]"
  "calling (Stopping e) = []" "calling (Draining e) = []" "calling (LoopEnded e) = []"
  by (simp_all add: calling_def)

lemma torn_down_simps [simp]:
  "\<not> torn_down LoopIdle" "\<not> torn_down (Firing msg)" "\<not> torn_down (Calling t msg)"
  "\<not> torn_down (Stopping e)" "torn_down (Draining e)" "torn_down (LoopEnded e)"
  by (simp_all add: torn_down_def)

definition conn_calls :: "'n serde \<Rightarrow> ('n, 'a, 'r) version \<Rightarrow> ('n, 'a, 'r) conn \<Rightarrow> bool" where
  "conn_calls lib v c \<longleftrightarrow>
     calls_inv lib v (cn_pending c) (live_calls c) (cn_calls c) (cn_answers c) (cn_read c) \<and>
     (torn_down (cn_loop c) \<longrightarrow> pn_calls (cn_pending c) = [])"

lemmas conn_ops = conn_logged_def answer_def out_send_def fire_sent_def fire_closed_def call_sent_def
  call_closed_def task_ends_def task_times_out_def reader_ends_def loop_notified_def writer_wrote_def
  writer_failed_def conn_shutdown_def handlers_abort_all_def outbound_fire_def

lemma settle_none [simp]: "pn_calls p = [] \<Longrightarrow> pending_settle i s p = p"
  by (simp add: pending_settle_def)

lemma conn_calls_settle:
  assumes "conn_calls lib v c" "s \<noteq> SlotEmpty" "\<And>r. s = SlotSent r \<Longrightarrow> outcome_ok lib (cn_read c) i r"
  shows "conn_calls lib v (c\<lparr>cn_pending := pending_settle i s (cn_pending c)\<rparr>)"
  using assms calls_inv_settle [OF _ assms(2,3)] by (auto simp: conn_calls_def live_calls_def)

lemma conn_calls_read:
  "conn_calls lib v c \<Longrightarrow> conn_calls lib v (c\<lparr>cn_read := cn_read c @ [item]\<rparr>)"
  by (auto simp: conn_calls_def live_calls_def intro: calls_inv_mono)

lemma conn_calls_reader:
  assumes "conn_calls lib v c"
  shows "conn_calls lib v (reader_item lib item c)"
proof -
  let ?c = "c\<lparr>cn_read := cn_read c @ [item]\<rparr>"
  have c: "conn_calls lib v ?c" by (rule conn_calls_read [OF assms])
  show ?thesis
  proof (cases item)
    case (WsText tx)
    show ?thesis
    proof (cases "ocppj_decode lib tx")
      case (Inl e)
      with c WsText show ?thesis
        by (simp add: reader_item_def conn_ops conn_calls_def live_calls_def Let_def split: option.split)
    next
      case (Inr msg)
      have rd: "WsText tx \<in> set (cn_read ?c)" by (simp add: WsText)
      show ?thesis
      proof (cases msg)
        case (Call i act p)
        with c WsText Inr show ?thesis
          by (simp add: reader_item_def reader_message_def conn_calls_def live_calls_def)
      next
        case (CallResult i p)
        then have "outcome_ok lib (cn_read ?c) i (Ok p)"
          using Inr rd by (auto simp: outcome_ok_def peer_outcome_def)
        from conn_calls_settle [OF c, of "SlotSent (Ok p)" i] this show ?thesis
          by (simp add: reader_item_def reader_message_def WsText Inr CallResult pending_complete_settle)
      next
        case (CallError i code d ds)
        let ?r = "Err \<lparr>ce_code = code, ce_description = d, ce_details = ds\<rparr>"
        have "outcome_ok lib (cn_read ?c) i ?r"
          using Inr rd CallError by (auto simp: outcome_ok_def peer_outcome_def)
        from conn_calls_settle [OF c, of "SlotSent ?r" i] this show ?thesis
          by (simp add: reader_item_def reader_message_def WsText Inr CallError pending_complete_settle)
      qed
    qed
  qed (use c in \<open>simp_all add: reader_item_def conn_ops conn_calls_def live_calls_def Let_def\<close>)
qed

lemma task_outcome_ok:
  assumes "slot_ok lib items i n p" "task_outcome v a (pn_slots p ! n) = Some res"
  shows "answer_ok lib v items (a, Some i) res"
  using assms
  by (auto simp: slot_ok_def task_outcome_def outcome_ok_def answer_ok_def local_failure_def
      split: reply_slot.splits sum.splits)

lemma conn_calls_end:
  assumes ok: "conn_calls lib v c" and t: "t \<in> set (cn_tasks c)"
    and res: "answer_ok lib v (cn_read c) (ct_action t, Some (ct_id t)) res"
  shows "conn_calls lib v (task_ends t res c)"
proof -
  obtain xs ys where split: "cn_tasks c = xs @ t # ys" and "t \<notin> set xs" using split_list_first [OF t] by blast
  then have "remove1 t (cn_tasks c) = xs @ ys" by (simp add: remove1_append)
  then show ?thesis
    using ok calls_inv_end [of lib v "cn_pending c" xs t "ys @ calling (cn_loop c)" "cn_calls c" "cn_answers c" "cn_read c" res] res
    by (simp add: conn_calls_def live_calls_def task_ends_def answer_def split)
qed

lemma conn_calls_command:
  assumes ok: "conn_calls lib v c" and idle: "cn_loop c = LoopIdle"
  shows "conn_calls lib v (cs_loop_command v i cmd c)"
proof (cases cmd)
  case None
  with ok idle show ?thesis by (simp add: cs_loop_command_def conn_calls_def live_calls_def)
next
  case (Some cm)
  show ?thesis
  proof (cases cm)
    case CsTerminate
    with ok idle Some show ?thesis by (simp add: cs_loop_command_def conn_calls_def live_calls_def)
  next
    case (SendAction a)
    with ok idle Some show ?thesis
      by (simp add: cs_loop_command_def conn_calls_def live_calls_def conn_ops split: sum.split)
  next
    case (SendActionAwait a)
    obtain n p where reg: "pending_register i (cn_pending c) = (n, p)" by (cases "pending_register i (cn_pending c)")
    show ?thesis
      using ok idle calls_inv_register [OF _ reg refl, of lib v "cn_tasks c" "cn_calls c" "cn_answers c" "cn_read c" a]
        calls_inv_refused [of lib v "cn_pending c" "cn_tasks c" "cn_calls c" "cn_answers c" "cn_read c" a]
      by (cases "v_encode_action v a")
        (simp_all add: cs_loop_command_def Some SendActionAwait outbound_call_def conn_calls_def live_calls_def answer_def
          reg Let_def)
  qed
qed

lemma conn_step_calls: "conn_step lib v c c' \<Longrightarrow> conn_calls lib v c \<Longrightarrow> conn_calls lib v c'"
proof (induction rule: conn_step.induct)
  case (commanded c i cmd)
  then show ?case using conn_calls_command by blast
next
  case (call_failed c t msg)
  have "answer_ok lib v (cn_read c) (ct_action t, Some (ct_id t)) (local_failure ''connection closed'')"
    by (simp add: answer_ok_def)
  moreover have "conn_calls lib v (c\<lparr>cn_pending := pending_remove (ct_id t) (cn_pending c)\<rparr>)"
    unfolding pending_remove_settle by (rule conn_calls_settle [OF call_failed(3)]) simp_all
  ultimately show ?case
    using call_failed(1) calls_inv_end [of lib v _ "cn_tasks c" t "[]"]
    by (simp add: conn_calls_def live_calls_def conn_ops local_failure_def)
next
  case (replied t c res)
  have "slot_ok lib (cn_read c) (ct_id t) (ct_slot t) (cn_pending c)"
    using replied(1,3) by (simp add: conn_calls_def calls_inv_def live_calls_def)
  from task_outcome_ok [OF this replied(2)] show ?case by (rule conn_calls_end [OF replied(3,1)])
next
  case (timed_out t c)
  let ?c = "c\<lparr>cn_pending := pending_remove (ct_id t) (cn_pending c)\<rparr>"
  have "conn_calls lib v ?c"
    unfolding pending_remove_settle by (rule conn_calls_settle [OF timed_out(3)]) simp_all
  then show ?case using conn_calls_end [of lib v ?c t "local_failure ''call timed out''"] timed_out(1)
    by (simp add: task_times_out_def local_failure_def answer_ok_def)
next
  case (reads c item)
  then show ?case using conn_calls_reader by blast
next
  case (shuts_down c e)
  then show ?case using calls_inv_fail_all
    by (fastforce simp: conn_calls_def live_calls_def conn_ops pending_fail_all_def)
qed (simp_all add: conn_calls_def live_calls_def conn_ops)

lemma conn_reachable_calls: "conn_reachable lib v c \<Longrightarrow> conn_calls lib v c"
proof (induction rule: conn_reachable.induct)
  case started
  then show ?case
    by (simp add: conn_calls_def live_calls_def conn_start_def calls_inv_def pending_new_ok)
next
  case (stepped c c')
  then show ?case using conn_step_calls by blast
qed

section \<open>Inbound calls\<close>

text \<open>The ids the peer is owed an answer for, and the ids of the answers on their way.\<close>

fun owed :: "'n serde \<Rightarrow> ws_item \<Rightarrow> unique_id list" where
  "owed lib (WsText t) = (case recover_call_id lib t of Some i \<Rightarrow> [i] | None \<Rightarrow> [])"
| "owed lib _ = []"

fun reply_ids :: "'n ocppj_message \<Rightarrow> unique_id list" where
  "reply_ids (Call i a p) = []"
| "reply_ids (CallResult i p) = [i]"
| "reply_ids (CallError i c d ds) = [i]"

fun handler_ids :: "'n handler_state \<Rightarrow> unique_id list" where
  "handler_ids (Handling i a p) = [i]"
| "handler_ids (HandlerReplying m) = reply_ids m"
| "handler_ids HandlerFinished = []"

fun reader_ids :: "'n reader_state \<Rightarrow> unique_id list" where
  "reader_ids (ReaderReplying m) = reply_ids m"
| "reader_ids _ = []"

fun loop_ids :: "('n, 'a) loop_state \<Rightarrow> unique_id list" where
  "loop_ids (Firing m) = reply_ids m"
| "loop_ids (Calling t m) = reply_ids m"
| "loop_ids _ = []"

definition all_ids :: "('x \<Rightarrow> unique_id list) \<Rightarrow> 'x list \<Rightarrow> unique_id multiset" where
  "all_ids f xs = mset (concat (map f xs))"

lemma all_ids_simps [simp]:
  "all_ids f [] = {#}" "all_ids f (x # xs) = mset (f x) + all_ids f xs"
  "all_ids f (xs @ ys) = all_ids f xs + all_ids f ys"
  by (simp_all add: all_ids_def)

lemma all_ids_update:
  "k < length xs \<Longrightarrow> all_ids f (xs[k := x]) + mset (f (xs ! k)) = all_ids f xs + mset (f x)"
  by (subst (2) id_take_nth_drop [of k xs]) (simp_all add: upd_conv_take_nth_drop ac_simps)

lemma all_ids_track: "all_ids handler_ids (handlers_track h hs) = all_ids handler_ids hs + mset (handler_ids h)"
proof -
  have "all_ids handler_ids (filter (\<lambda>h. h \<noteq> HandlerFinished) hs) = all_ids handler_ids hs" by (induction hs) auto
  then show ?thesis by (simp add: handlers_track_def)
qed

text \<open>Every inbound Call is answered under its own id.\<close>

lemma reply_ids_dispatch [simp]: "reply_ids (dispatch_call v handle i a p) = [i]"
  by (simp add: dispatch_call_def into_error_def split: sum.split)

text \<open>
  The answers written, queued and still being worked out. Nothing is lost before the websocket
  fails or the connection is being stopped.
\<close>

definition undisturbed :: "('n, 'a, 'r) conn \<Rightarrow> bool" where
  "undisturbed c \<longleftrightarrow> cn_writer c = Writing \<and> \<not> cn_aborting c \<and>
     (case cn_loop c of LoopIdle \<Rightarrow> True | Firing _ \<Rightarrow> True | Calling _ _ \<Rightarrow> True | _ \<Rightarrow> False)"

definition under_way :: "('n, 'a, 'r) conn \<Rightarrow> unique_id multiset" where
  "under_way c = all_ids reply_ids (cn_queue c) + all_ids handler_ids (cn_handlers c) + mset (reader_ids (cn_reader c))"

definition flow :: "bool \<Rightarrow> unique_id multiset \<Rightarrow> unique_id multiset \<Rightarrow> bool" where
  "flow strict a b \<longleftrightarrow> a \<subseteq># b \<and> (strict \<longrightarrow> a = b)"

definition conn_inbound :: "'n serde \<Rightarrow> 'n ocppj_message list \<Rightarrow> ('n, 'a, 'r) conn \<Rightarrow> bool" where
  "conn_inbound lib ws c \<longleftrightarrow>
     cn_wire c = map (ocppj_encode lib) ws \<and> loop_ids (cn_loop c) = [] \<and>
     flow (undisturbed c) (all_ids reply_ids ws + under_way c) (all_ids (owed lib) (cn_read c))"

lemma flow_add [simp]: "flow s (add_mset x a) (add_mset x b) = flow s a b"
  by (auto simp: flow_def)

lemma flow_less: "flow s a b \<Longrightarrow> a' \<subseteq># a \<Longrightarrow> \<not> s' \<Longrightarrow> flow s' a' b"
  by (auto simp: flow_def intro: subset_mset.order_trans)

lemma flow_weaken: "flow s a b \<Longrightarrow> (s' \<Longrightarrow> s) \<Longrightarrow> flow s' a b"
  by (auto simp: flow_def)

lemma inbound_reader:
  assumes inb: "conn_inbound lib ws c" and reading: "cn_reader c = Reading"
  shows "conn_inbound lib ws (reader_item lib item c)"
proof (cases item)
  case (WsText tx)
  have owed_msg: "ocppj_decode lib tx = Ok m \<Longrightarrow> recover_call_id lib tx = (case m of Call j a p \<Rightarrow> Some j | _ \<Rightarrow> None)" for m
    by (rule decode_recover)
  have base: "cn_wire c = map (ocppj_encode lib) ws" "loop_ids (cn_loop c) = []"
      "flow (undisturbed c) (all_ids reply_ids ws + under_way c) (all_ids (owed lib) (cn_read c))"
    using inb by (simp_all add: conn_inbound_def)
  show ?thesis
  proof (cases "ocppj_decode lib tx")
    case (Inl e)
    show ?thesis
      using base reading
      by (cases "recover_call_id lib tx")
        (simp_all add: reader_item_def WsText Inl Let_def conn_ops conn_inbound_def undisturbed_def under_way_def ac_simps)
  next
    case (Inr m)
    show ?thesis
      using base reading owed_msg [OF Inr]
      by (cases m)
        (simp_all add: reader_item_def WsText Inr reader_message_def conn_inbound_def undisturbed_def under_way_def
          all_ids_track ac_simps)
  qed
qed (use assms in \<open>simp_all add: reader_item_def Let_def conn_ops conn_inbound_def undisturbed_def under_way_def\<close>)

lemma inbound_step:
  assumes "conn_step lib v c c'" "conn_inbound lib ws c"
  shows "\<exists>ws'. conn_inbound lib ws' c'"
  using assms
proof (induction rule: conn_step.induct)
  case (commanded c i cmd)
  then have "conn_inbound lib ws (cs_loop_command v i cmd c)"
    by (auto simp: cs_loop_command_def outbound_call_def conn_ops conn_inbound_def undisturbed_def under_way_def Let_def
        elim: flow_weaken split: option.split cs_command.split sum.split prod.split)
  then show ?case ..
next
  case (reads c item)
  then show ?case using inbound_reader by blast
next
  case (handles k c i action payload handle)
  then show ?case
    using all_ids_update [OF handles(1), of handler_ids "HandlerReplying (dispatch_call v handle i action payload)"]
    by (intro exI [of _ ws]) (simp add: conn_inbound_def undisturbed_def under_way_def)
next
  case (handler_sends k c msg)
  have sent: "all_ids handler_ids (cn_handlers c) =
      all_ids handler_ids ((cn_handlers c)[k := HandlerFinished]) + mset (reply_ids msg)"
    using all_ids_update [OF handler_sends(1), of handler_ids HandlerFinished] handler_sends(2) by simp
  show ?case using handler_sends
    by (intro exI [of _ ws]) (simp add: conn_inbound_def undisturbed_def under_way_def out_send_def sent ac_simps)
next
  case (handler_gives_up k c msg)
  have "all_ids handler_ids ((cn_handlers c)[k := HandlerFinished]) \<subseteq># all_ids handler_ids (cn_handlers c)"
    using all_ids_update [OF handler_gives_up(1), of handler_ids HandlerFinished]
    by (metis empty_neutral(2) handler_ids.simps(3) mset.simps(1) mset_subset_eq_add_left)
  then show ?case using handler_gives_up
    by (intro exI [of _ ws]) (auto simp: conn_inbound_def undisturbed_def under_way_def out_open_def elim!: flow_less)
next
  case (handler_aborted k c)
  have "all_ids handler_ids ((cn_handlers c)[k := HandlerFinished]) \<subseteq># all_ids handler_ids (cn_handlers c)"
    using all_ids_update [OF handler_aborted(1), of handler_ids HandlerFinished]
    by (metis empty_neutral(2) handler_ids.simps(3) mset.simps(1) mset_subset_eq_add_left)
  then show ?case using handler_aborted
    by (intro exI [of _ ws]) (auto simp: conn_inbound_def undisturbed_def under_way_def elim!: flow_less)
next
  case (writes c msg rest)
  then show ?case
    by (intro exI [of _ "ws @ [msg]"])
      (simp add: conn_inbound_def undisturbed_def under_way_def writer_wrote_def ac_simps)
qed (intro exI [of _ ws]; auto simp: conn_inbound_def undisturbed_def under_way_def conn_ops out_open_def ac_simps
    elim!: flow_less elim: flow_weaken)+

lemma inbound_reachable: "conn_reachable lib v c \<Longrightarrow> \<exists>ws. conn_inbound lib ws c"
proof (induction rule: conn_reachable.induct)
  case started
  show ?case
    by (intro exI [of _ "[]"]) (simp add: conn_start_def conn_inbound_def undisturbed_def under_way_def flow_def)
next
  case (stepped c c')
  then show ?case using inbound_step by blast
qed

section \<open>The end of a connection\<close>
















section \<open>The contract of a connection\<close>

text \<open>
  C22. However the tasks interleave, and even if two calls draw the same id, every awaited call is
  under way or answered, never both and never twice; what it is answered is the peer's reply under
  the call's own id, decoded by the call's own action, or one of the documented local failures; and
  once the connection is torn down no call waits for the peer any more.
\<close>

theorem calls_answered_once:
  assumes "conn_reachable lib v c"
  shows "distinct (map ct_reply (live_calls c) @ map fst (cn_answers c)) \<and>
    set (map ct_reply (live_calls c) @ map fst (cn_answers c)) = {..<length (cn_calls c)} \<and>
    (\<forall>(k, res) \<in> set (cn_answers c). answer_ok lib v (cn_read c) (cn_calls c ! k) res) \<and>
    (torn_down (cn_loop c) \<longrightarrow>
      (\<forall>t \<in> set (live_calls c). pn_slots (cn_pending c) ! ct_slot t \<noteq> SlotEmpty))"
proof -
  have ok: "conn_calls lib v c" by (rule conn_reachable_calls [OF assms])
  have "pn_slots (cn_pending c) ! ct_slot t \<noteq> SlotEmpty" if "torn_down (cn_loop c)" "t \<in> set (live_calls c)" for t
    using ok that by (auto simp: conn_calls_def calls_inv_def slot_ok_def)
  with ok show ?thesis by (simp add: conn_calls_def calls_inv_def)
qed

text \<open>A peer that answers the call and makes one of its own.\<close>

definition peer_serde :: "int serde" where
  "peer_serde =
     \<lparr>sj_from_str = (\<lambda>t. if t = ''R'' then Ok (JArray [JNumber 3, JString ''1'', JBool True])
                       else if t = ''Q'' then Ok (JArray [JNumber 2, JString ''9'', JString ''Reset'', JNull])
                       else Err ''eof''),
      sj_to_string = (\<lambda>v. case v of JArray (JNumber n # _) \<Rightarrow> decimal_int n | _ \<Rightarrow> []),
      sj_as_i64 = Some, sj_i64 = (\<lambda>i. i)\<rparr>"

definition echo_version :: "(int, int json, int json) version" where
  "echo_version =
     \<lparr>v_action_name = (\<lambda>_. ''Echo''), v_action_names = [''Echo''], v_cs_actions = [''Echo''], v_csms_actions = [],
      v_default_action = (\<lambda>_. None), v_default_response = (\<lambda>_. None), v_subprotocol = ''echo'',
      v_decode_call = (\<lambda>_. Ok), v_validate = (\<lambda>_. Ok ()), v_encode_response = Ok, v_encode_action = Ok,
      v_decode_result = (\<lambda>_. Ok)\<rparr>"

definition echo_task :: "int json call_task" where
  "echo_task = \<lparr>ct_reply = 0, ct_action = JNull, ct_id = ''1'', ct_slot = 0\<rparr>"

definition echo_called :: "(int, int json, int json) conn" where
  "echo_called = call_sent echo_task (Call ''1'' ''Echo'' JNull)
     (cs_loop_command echo_version ''1'' (Some (SendActionAwait JNull)) conn_start)"

definition echo_answered :: "(int, int json, int json) conn" where
  "echo_answered = task_ends echo_task (Ok (JBool True)) (reader_item peer_serde (WsText ''R'') echo_called)"

lemma echo_called_reachable: "conn_reachable peer_serde echo_version echo_called"
  unfolding echo_called_def
proof (rule conn_reachable.stepped [OF conn_reachable.stepped [OF conn_reachable.started conn_step.commanded] conn_step.called])
  show "cn_loop (cs_loop_command echo_version ''1'' (Some (SendActionAwait JNull)) conn_start) =
      Calling echo_task (Call ''1'' ''Echo'' JNull)"
    by (simp add: cs_loop_command_def outbound_call_def conn_start_def echo_version_def echo_task_def pending_new_def
        pending_register_def pending_remove_def)
qed (simp_all add: conn_start_def out_room_def out_open_def OUTBOUND_CHANNEL_CAP_def cs_loop_command_def
    outbound_call_def echo_version_def pending_new_def pending_register_def pending_remove_def)

lemma echo_read: "ocppj_decode peer_serde ''R'' = Ok (CallResult ''1'' (JBool True))"
    "ocppj_decode peer_serde ''Q'' = Ok (Call ''9'' ''Reset'' JNull)"
    "recover_call_id peer_serde ''Q'' = Some ''9''"
  by (simp_all add: ocppj_decode_def recover_call_id_def peer_serde_def str_at_def arr_get_def)

lemmas echo_defs = echo_called_def echo_task_def cs_loop_command_def outbound_call_def conn_start_def echo_version_def
  pending_new_def pending_register_def pending_remove_def pending_complete_def conn_ops reader_item_def reader_message_def
  echo_read

lemma echo_answered_reachable: "conn_reachable peer_serde echo_version echo_answered"
  unfolding echo_answered_def
  by (rule conn_reachable.stepped [OF conn_reachable.stepped [OF echo_called_reachable conn_step.reads] conn_step.replied])
    (simp_all add: echo_defs task_outcome_def)

theorem calls_answered_once_witness:
  "cn_answers echo_answered = [(0, Ok (JBool True))] \<and>
     distinct (map ct_reply (live_calls echo_answered) @ map fst (cn_answers echo_answered)) \<and>
     answer_ok peer_serde echo_version (cn_read echo_answered) (cn_calls echo_answered ! 0) (Ok (JBool True))"
proof -
  have "cn_answers echo_answered = [(0, Ok (JBool True))]" by (simp add: echo_answered_def echo_defs)
  then show ?thesis using calls_answered_once [OF echo_answered_reachable] by auto
qed

text \<open>
  C23. The peer's Calls are answered at most once each, and only they: the ids of the answers
  written to the websocket, queued for it or still being worked out are among the ids of the Calls
  and of the malformed but recoverable Calls read, with multiplicity. As long as the websocket takes
  writes and the connection is not being stopped none is missing.
\<close>

theorem inbound_answered_once:
  assumes "conn_reachable lib v c"
  shows "\<exists>ws. cn_wire c = map (ocppj_encode lib) ws \<and>
    all_ids reply_ids ws + under_way c \<subseteq># all_ids (owed lib) (cn_read c) \<and>
    (undisturbed c \<longrightarrow> all_ids reply_ids ws + under_way c = all_ids (owed lib) (cn_read c))"
  using inbound_reachable [OF assms] by (auto simp: conn_inbound_def flow_def)

text \<open>The peer's Call read, with its answer still to be worked out.\<close>

definition echo_asked :: "(int, int json, int json) conn" where
  "echo_asked = reader_item peer_serde (WsText ''Q'') echo_called"

lemma echo_asked_reachable: "conn_reachable peer_serde echo_version echo_asked"
  unfolding echo_asked_def by (rule conn_reachable.stepped [OF echo_called_reachable conn_step.reads]) (simp add: echo_defs)

theorem inbound_answered_once_witness:
  "undisturbed echo_asked \<and> (\<exists>ws. cn_wire echo_asked = map (ocppj_encode peer_serde) ws \<and>
     all_ids reply_ids ws + under_way echo_asked = {#''9''#})"
proof -
  have u: "undisturbed echo_asked" by (simp add: undisturbed_def echo_asked_def echo_defs)
  have "all_ids (owed peer_serde) (cn_read echo_asked) = {#''9''#}" by (simp add: echo_asked_def echo_defs)
  then show ?thesis using u inbound_answered_once [OF echo_asked_reachable] by auto
qed



end
