(* ===== verification/Ocpp_Actions.thy ===== *)
theory Ocpp_Actions
  imports Ocpp_Connection_Properties
begin

text \<open>
  The action sets of the OCPP versions (\<^verbatim>\<open>ferrowl-ocpp/src/action/\<close>): the version a table of actions
  stands for (\<^verbatim>\<open>macros.rs\<close>) and the three tables (\<^verbatim>\<open>v1_6.rs\<close>, \<^verbatim>\<open>v2_0_1.rs\<close>, \<^verbatim>\<open>v2_1.rs\<close>). An
  action is the name of its variant with the request the variant wraps. Request and response types,
  their JSON form and their validation are the message library's.
\<close>

section \<open>The version of a table (macros.rs)\<close>










section \<open>The tables\<close>




section \<open>What the tables promise\<close>









section \<open>A call across the wire\<close>







end
