(* ===== verification/Vim.thy ===== *)
theory Vim
  imports Str_Util
begin

text \<open>
  The vim primitives of the code editor (\<^verbatim>\<open>ferrowl-ui/src/state/vim.rs\<close>): the modes, the word
  motions over a buffer of lines, and the clipboard escape sequence with its base64 encoder. A
  motion is given a line and a column and panics when it indexes past the buffer; the loops carry
  their termination proofs.
\<close>

datatype vim_mode = Normal | Insert | Visual (vm_linewise: bool)

section \<open>Word motions\<close>

datatype char_class = WordChar | PunctChar | SpaceChar

definition char_class_of :: "char \<Rightarrow> char_class" where
  "char_class_of c =
     (if is_alphanumeric c \<or> c = CHR ''_'' then WordChar else if is_space c then SpaceChar else PunctChar)"

definition line_chars :: "string list \<Rightarrow> nat \<Rightarrow> string option" where
  "line_chars ls line = (if line < length ls then Some (ls ! line) else None)"

text \<open>The column after the run of characters of one class.\<close>

function skip_class :: "string \<Rightarrow> char_class \<Rightarrow> nat \<Rightarrow> nat" where
  "skip_class chars cls col =
     (if col < length chars \<and> char_class_of (chars ! col) = cls then skip_class chars cls (col + 1) else col)"
  by auto
termination by (relation "measure (\<lambda>(chars, cls, col). length chars - col)") auto

function forward_loop :: "string list \<Rightarrow> nat \<Rightarrow> nat \<Rightarrow> (nat \<times> nat) option" where
  "forward_loop ls line col =
     (case line_chars ls line of
        None \<Rightarrow> None
      | Some chars \<Rightarrow>
          if length chars \<le> col then
            if length ls \<le> line + 1 then Some (line, length chars - 1)
            else if ls ! (line + 1) = [] then Some (line + 1, 0)
            else forward_loop ls (line + 1) 0
          else if char_class_of (chars ! col) \<noteq> SpaceChar then Some (line, col)
          else forward_loop ls line (col + 1))"
  by auto
termination
  by (relation "measures [\<lambda>(ls, line, col). length ls - line, \<lambda>(ls, line, col). length (ls ! line) - col]")
    (auto simp: line_chars_def split: if_splits)

definition word_forward :: "string list \<Rightarrow> nat \<Rightarrow> nat \<Rightarrow> (nat \<times> nat) option" where
  "word_forward ls line col =
     (case line_chars ls line of
        None \<Rightarrow> None
      | Some chars \<Rightarrow>
          let col1 =
            (if col < length chars \<and> char_class_of (chars ! col) \<noteq> SpaceChar
             then skip_class chars (char_class_of (chars ! col)) col else col)
          in forward_loop ls line col1)"

text \<open>The next character that is not a space, crossing lines; then the end of its run.\<close>

datatype end_search = NoMoreWords nat nat | WordAt nat nat

function next_word_loop :: "string list \<Rightarrow> nat \<Rightarrow> nat \<Rightarrow> end_search option" where
  "next_word_loop ls line col =
     (case line_chars ls line of
        None \<Rightarrow> None
      | Some chars \<Rightarrow>
          if length chars \<le> col then
            if length ls \<le> line + 1 then Some (NoMoreWords line (length chars - 1))
            else next_word_loop ls (line + 1) 0
          else if char_class_of (chars ! col) \<noteq> SpaceChar then Some (WordAt line col)
          else next_word_loop ls line (col + 1))"
  by auto
termination
  by (relation "measures [\<lambda>(ls, line, col). length ls - line, \<lambda>(ls, line, col). length (ls ! line) - col]")
    (auto simp: line_chars_def split: if_splits)

function run_end_loop :: "string \<Rightarrow> nat \<Rightarrow> nat option" where
  "run_end_loop chars col =
     (if col < length chars then
        (if col + 1 < length chars \<and> char_class_of (chars ! (col + 1)) = char_class_of (chars ! col)
         then run_end_loop chars (col + 1) else Some col)
      else None)"
  by auto
termination by (relation "measure (\<lambda>(chars, col). length chars - col)") auto

definition word_end_forward :: "string list \<Rightarrow> nat \<Rightarrow> nat \<Rightarrow> (nat \<times> nat) option" where
  "word_end_forward ls line col =
     (case next_word_loop ls line (col + 1) of
        None \<Rightarrow> None
      | Some (NoMoreWords l c) \<Rightarrow> Some (l, c)
      | Some (WordAt l c) \<Rightarrow> map_option (\<lambda>c'. (l, c')) (run_end_loop (ls ! l) c))"

text \<open>The previous character that is not a space, crossing lines; then the start of its run.\<close>

datatype start_search = StartAt nat nat | PrevWord nat nat

function prev_word_loop :: "string list \<Rightarrow> nat \<Rightarrow> nat \<Rightarrow> start_search option" where
  "prev_word_loop ls line col =
     (if col = 0 then
        if line = 0 then Some (StartAt 0 0)
        else case line_chars ls (line - 1) of
          None \<Rightarrow> None
        | Some chars \<Rightarrow>
            if length chars = 0 then Some (StartAt (line - 1) 0) else prev_word_loop ls (line - 1) (length chars)
      else case line_chars ls line of
          None \<Rightarrow> None
        | Some chars \<Rightarrow>
            if length chars \<le> col - 1 then None
            else if char_class_of (chars ! (col - 1)) \<noteq> SpaceChar then Some (PrevWord line (col - 1))
            else prev_word_loop ls line (col - 1))"
  by auto
termination
  by (relation "measures [\<lambda>(ls, line, col). line, \<lambda>(ls, line, col). col]") auto

fun run_start_loop :: "string \<Rightarrow> char_class \<Rightarrow> nat \<Rightarrow> nat" where
  "run_start_loop chars cls 0 = 0"
| "run_start_loop chars cls (Suc col) =
     (if char_class_of (chars ! col) \<noteq> cls then Suc col else run_start_loop chars cls col)"

definition word_backward :: "string list \<Rightarrow> nat \<Rightarrow> nat \<Rightarrow> (nat \<times> nat) option" where
  "word_backward ls line col =
     (case prev_word_loop ls line col of
        None \<Rightarrow> None
      | Some (StartAt l c) \<Rightarrow> Some (l, c)
      | Some (PrevWord l c) \<Rightarrow>
          Some (l, run_start_loop (ls ! l) (char_class_of (ls ! l ! c)) c))"

declare skip_class.simps [simp del] forward_loop.simps [simp del] next_word_loop.simps [simp del]
  run_end_loop.simps [simp del] prev_word_loop.simps [simp del]

section \<open>The clipboard escape sequence\<close>

definition B64_ALPHABET :: string where
  "B64_ALPHABET = ''ABCDEFGHIJKLMNOPQRSTUVWXYZabcdefghijklmnopqrstuvwxyz0123456789+/''"

definition b64_char :: "u32 \<Rightarrow> nat \<Rightarrow> char" where
  "b64_char n k = B64_ALPHABET ! unat (and (drop_bit k n) 63)"

definition chunk_word :: "u8 \<Rightarrow> u8 \<Rightarrow> u8 \<Rightarrow> u32" where
  "chunk_word b0 b1 b2 = or (or (push_bit 16 (ucast b0)) (push_bit 8 (ucast b1))) (ucast b2)"

fun base64_encode :: "u8 list \<Rightarrow> string" where
  "base64_encode [] = []"
| "base64_encode [b0] =
     (let n = chunk_word b0 0 0 in [b64_char n 18, b64_char n 12, CHR ''='', CHR ''=''])"
| "base64_encode [b0, b1] =
     (let n = chunk_word b0 b1 0 in [b64_char n 18, b64_char n 12, b64_char n 6, CHR ''=''])"
| "base64_encode (b0 # b1 # b2 # bs) =
     (let n = chunk_word b0 b1 b2 in
      [b64_char n 18, b64_char n 12, b64_char n 6, b64_char n 0] @ base64_encode bs)"

text \<open>The UTF-8 bytes of a string over the first 256 code points.\<close>

definition utf8_char :: "char \<Rightarrow> u8 list" where
  "utf8_char c =
     (let n = code_point c in
      if n < 128 then [of_nat n] else [of_nat (192 + n div 64), of_nat (128 + n mod 64)])"

definition as_bytes :: "string \<Rightarrow> u8 list" where
  "as_bytes s = concat (map utf8_char s)"

definition emit_osc52 :: "string \<Rightarrow> string" where
  "emit_osc52 s = CHR 0x1B # '']52;c;'' @ base64_encode (as_bytes s) @ [CHR 0x07]"

end
