(* ===== verification/Code_Editor.thy ===== *)
theory Code_Editor
  imports Vim Backoff
begin

text \<open>
  The multi-line code editor (\<^verbatim>\<open>ferrowl-ui/src/state/code_input_field.rs\<close>): a buffer of lines with a
  cursor, edited plainly or with vim modes. Keys and focus changes are its inputs; the clock is read
  when a key is handled. The language's indentation hint and formatter
  (\<^verbatim>\<open>ferrowl-syntax\<close>) are arguments. Columns count characters, so that the byte offsets the source
  computes from them are positions in the list; lengths stay below the range of \<open>usize\<close>.
\<close>

section \<open>Keys\<close>

datatype key_modifiers = ModNone | ModShift | ModControl | ModOther

datatype key_code =
    KUp | KDown | KLeft | KRight | KEnter | KBackspace | KDelete | KTab | KBackTab | KEsc
  | KPageUp | KPageDown | KChar char | KOther nat

datatype event_result = Consumed | Unhandled key_modifiers key_code

section \<open>State\<close>

datatype register_kind = Linewise | Charwise

datatype language = Lua | Json | Markdown | Diff

record syntax_lib =
  indent_delta :: "language \<Rightarrow> string \<Rightarrow> int"
  syntax_format :: "language \<Rightarrow> string \<Rightarrow> string option"

record editor =
  ed_lines :: "string list"
  ed_active_line :: nat
  ed_cursor_col :: nat
  ed_scroll_offset :: nat
  ed_h_scroll :: nat
  ed_visible_height :: nat
  ed_content_width :: nat
  ed_readonly_nav :: bool
  ed_focused :: bool
  ed_disabled :: bool
  ed_placeholder :: "string option"
  ed_gutter_labels :: "string list option"
  ed_space_indent :: "duration option"
  ed_last_space :: "(nat \<times> nat \<times> nat) option"
  ed_language :: "language option"
  ed_vim :: bool
  ed_mode :: vim_mode
  ed_visual_anchor :: "(nat \<times> nat) option"
  ed_register :: "(string \<times> register_kind) option"
  ed_undo :: "(string list \<times> nat \<times> nat) option"
  ed_pending :: "char option"
  ed_clipboard :: "string list"

text \<open>The builder's defaults; \<open>ed_clipboard\<close> records the escape sequences written.\<close>

definition editor_new :: "language option \<Rightarrow> bool \<Rightarrow> bool \<Rightarrow> editor" where
  "editor_new lang vim disabled =
     \<lparr>ed_lines = [[]], ed_active_line = 0, ed_cursor_col = 0, ed_scroll_offset = 0, ed_h_scroll = 0,
      ed_visible_height = 1, ed_content_width = 1, ed_readonly_nav = True, ed_focused = True,
      ed_disabled = disabled, ed_placeholder = None, ed_gutter_labels = None,
      ed_space_indent = Some 300000000, ed_last_space = None, ed_language = lang, ed_vim = vim,
      ed_mode = Normal, ed_visual_anchor = None, ed_register = None, ed_undo = None, ed_pending = None,
      ed_clipboard = []\<rparr>"

abbreviation newline :: char where
  "newline \<equiv> CHR 0x0A"

abbreviation blank :: char where
  "blank \<equiv> CHR '' ''"

section \<open>Vectors\<close>

text \<open>Removal, insertion and replacement of a range, each a panic out of bounds.\<close>

definition vec_remove :: "'a list \<Rightarrow> nat \<Rightarrow> ('a \<times> 'a list) option" where
  "vec_remove xs i = (if i < length xs then Some (xs ! i, take i xs @ drop (Suc i) xs) else None)"

definition vec_insert :: "'a list \<Rightarrow> nat \<Rightarrow> 'a \<Rightarrow> 'a list option" where
  "vec_insert xs i x = (if i \<le> length xs then Some (take i xs @ x # drop i xs) else None)"

definition vec_splice :: "'a list \<Rightarrow> nat \<Rightarrow> nat \<Rightarrow> 'a list \<Rightarrow> 'a list option" where
  "vec_splice xs i j ys = (if i \<le> j + 1 \<and> j < length xs then Some (take i xs @ ys @ drop (j + 1) xs) else None)"

fun vec_insert_all :: "'a list \<Rightarrow> nat \<Rightarrow> 'a list \<Rightarrow> 'a list option" where
  "vec_insert_all xs i [] = Some xs"
| "vec_insert_all xs i (y # ys) = Option.bind (vec_insert xs i y) (\<lambda>zs. vec_insert_all zs (i + 1) ys)"

section \<open>The cursor and the text\<close>

definition auto_indent :: "syntax_lib \<Rightarrow> language option \<Rightarrow> string \<Rightarrow> nat" where
  "auto_indent sx lang line =
     (case lang of
        Some l \<Rightarrow> nat (max (int (length (takeWhile (\<lambda>c. c = blank) line)) + 4 * indent_delta sx l line) 0)
      | None \<Rightarrow> 0)"

definition content :: "editor \<Rightarrow> string" where
  "content ed = join_strings [newline] (ed_lines ed)"

definition active_chars :: "editor \<Rightarrow> string option" where
  "active_chars ed = line_chars (ed_lines ed) (ed_active_line ed)"

definition clamp_cursor :: "editor \<Rightarrow> editor option" where
  "clamp_cursor ed = do {
     chars \<leftarrow> active_chars ed;
     Some (if ed_cursor_col ed > length chars then ed\<lparr>ed_cursor_col := length chars\<rparr> else ed)
   }"

definition clamp_normal :: "editor \<Rightarrow> editor option" where
  "clamp_normal ed = do {
     chars \<leftarrow> active_chars ed;
     Some (if ed_cursor_col ed > length chars - 1 then ed\<lparr>ed_cursor_col := length chars - 1\<rparr> else ed)
   }"

definition set_content :: "string \<Rightarrow> editor \<Rightarrow> editor option" where
  "set_content s ed =
     (let parts = str_split newline s; ls = (if parts = [] then [[]] else parts) in do {
        last \<leftarrow> usize_sub (length ls) 1;
        chars \<leftarrow> line_chars ls last;
        let ed1 = ed\<lparr>ed_lines := ls, ed_active_line := last, ed_cursor_col := length chars,
                     ed_scroll_offset := 0, ed_h_scroll := 0\<rparr>;
        if ed_vim ed1
        then clamp_normal (ed1\<lparr>ed_mode := Normal, ed_visual_anchor := None, ed_undo := None, ed_pending := None\<rparr>)
        else Some ed1
      })"

definition mode_label :: "editor \<Rightarrow> string option" where
  "mode_label ed =
     (if \<not> ed_vim ed \<or> \<not> ed_focused ed then None
      else Some (case ed_mode ed of
          Normal \<Rightarrow> ''NORMAL''
        | Insert \<Rightarrow> ''INSERT''
        | Visual linewise \<Rightarrow> if linewise then ''V-LINE'' else ''VISUAL''))"

definition insert_at :: "nat \<Rightarrow> nat \<Rightarrow> string \<Rightarrow> editor \<Rightarrow> editor option" where
  "insert_at line idx s ed = do {
     target \<leftarrow> line_chars (ed_lines ed) line;
     Some (ed\<lparr>ed_lines := (ed_lines ed)[line := take idx target @ s @ drop idx target]\<rparr>)
   }"

definition remove_range :: "nat \<Rightarrow> nat \<Rightarrow> nat \<Rightarrow> editor \<Rightarrow> (string \<times> editor) option" where
  "remove_range line start0 stop0 ed = do {
     target \<leftarrow> line_chars (ed_lines ed) line;
     let stop = min stop0 (length target);
     let start = min start0 stop;
     Some (take (stop - start) (drop start target),
           ed\<lparr>ed_lines := (ed_lines ed)[line := take start target @ drop stop target]\<rparr>)
   }"

definition snapshot_undo :: "editor \<Rightarrow> editor" where
  "snapshot_undo ed = ed\<lparr>ed_undo := Some (ed_lines ed, ed_active_line ed, ed_cursor_col ed)\<rparr>"

definition set_register :: "string \<Rightarrow> register_kind \<Rightarrow> editor \<Rightarrow> editor" where
  "set_register s kind ed =
     ed\<lparr>ed_clipboard := ed_clipboard ed @ [emit_osc52 s], ed_register := Some (s, kind)\<rparr>"

section \<open>Selections\<close>

definition pos_le :: "nat \<times> nat \<Rightarrow> nat \<times> nat \<Rightarrow> bool" where
  "pos_le p q \<longleftrightarrow> fst p < fst q \<or> fst p = fst q \<and> snd p \<le> snd q"

text \<open>The outer option is a panic, the inner one the absence of a selection.\<close>

definition selection_range :: "editor \<Rightarrow> ((nat \<times> nat) \<times> (nat \<times> nat)) option option" where
  "selection_range ed =
     (case (ed_visual_anchor ed, ed_mode ed) of
        (Some anchor, Visual linewise) \<Rightarrow>
          let cursor = (ed_active_line ed, ed_cursor_col ed);
              (start, stop) = (if pos_le anchor cursor then (anchor, cursor) else (cursor, anchor)) in
          if linewise then do {
            chars \<leftarrow> line_chars (ed_lines ed) (fst stop);
            Some (Some ((fst start, 0), (fst stop, length chars - 1)))
          }
          else Some (Some (start, stop))
      | _ \<Rightarrow> Some None)"

definition extract_charwise :: "nat \<times> nat \<Rightarrow> nat \<times> nat \<Rightarrow> editor \<Rightarrow> string option" where
  "extract_charwise start stop ed =
     (if fst start = fst stop then do {
        chars \<leftarrow> line_chars (ed_lines ed) (fst start);
        let to = min (snd stop + 1) (length chars);
        let from = min (snd start) to;
        slice_index chars from to
      }
      else do {
        first \<leftarrow> line_chars (ed_lines ed) (fst start);
        let from = min (snd start) (length first);
        part1 \<leftarrow> slice_index first from (length first);
        mid \<leftarrow> all_some (map (line_chars (ed_lines ed)) [fst start + 1 ..< fst stop]);
        last \<leftarrow> line_chars (ed_lines ed) (fst stop);
        let to = min (snd stop + 1) (length last);
        part2 \<leftarrow> slice_index last 0 to;
        Some (join_strings [newline] (part1 # mid @ [part2]))
      })"

definition is_visual_linewise :: "editor \<Rightarrow> bool" where
  "is_visual_linewise ed \<longleftrightarrow> ed_mode ed = Visual True"

definition selection_text ::
  "(nat \<times> nat) \<times> (nat \<times> nat) \<Rightarrow> editor \<Rightarrow> string option"
where
  "selection_text sel ed =
     (let (start, stop) = sel in
      if is_visual_linewise ed
      then map_option (join_strings [newline]) (slice_index (ed_lines ed) (fst start) (fst stop + 1))
      else extract_charwise start stop ed)"

definition selection_kind :: "editor \<Rightarrow> register_kind" where
  "selection_kind ed = (if is_visual_linewise ed then Linewise else Charwise)"

section \<open>Yanking and deleting\<close>

definition yank_lines :: "nat \<Rightarrow> editor \<Rightarrow> editor option" where
  "yank_lines count0 ed = do {
     let count = max count0 1;
     last \<leftarrow> usize_sub (length (ed_lines ed)) 1;
     let stop = min (ed_active_line ed + count - 1) last;
     ls \<leftarrow> slice_index (ed_lines ed) (ed_active_line ed) (stop + 1);
     Some (set_register (join_strings [newline] ls) Linewise ed)
   }"

definition cancel_pending_chord :: "editor \<Rightarrow> editor" where
  "cancel_pending_chord ed = ed\<lparr>ed_pending := None\<rparr>"

definition delete_lines :: "nat \<Rightarrow> editor \<Rightarrow> editor option" where
  "delete_lines count0 ed =
     (if ed_disabled ed then Some ed
      else do {
        let count = max count0 1;
        last \<leftarrow> usize_sub (length (ed_lines ed)) 1;
        let stop = min (ed_active_line ed + count - 1) last;
        let ed1 = snapshot_undo ed;
        ls \<leftarrow> slice_index (ed_lines ed1) (ed_active_line ed1) (stop + 1);
        let ed2 = set_register (join_strings [newline] ls) Linewise ed1;
        ed3 \<leftarrow>
          (if ed_active_line ed2 = 0 \<and> stop = last
           then Some (ed2\<lparr>ed_lines := [[]], ed_active_line := 0\<rparr>)
           else do {
             kept \<leftarrow> vec_splice (ed_lines ed2) (ed_active_line ed2) stop [];
             if ed_active_line ed2 \<ge> length kept
             then do { l \<leftarrow> usize_sub (length kept) 1; Some (ed2\<lparr>ed_lines := kept, ed_active_line := l\<rparr>) }
             else Some (ed2\<lparr>ed_lines := kept\<rparr>)
           });
        clamp_normal (ed3\<lparr>ed_cursor_col := 0\<rparr>)
      })"

definition yank_current_line :: "editor \<Rightarrow> editor option" where
  "yank_current_line ed = do {
     chars \<leftarrow> active_chars ed;
     Some (set_register chars Linewise ed)
   }"

definition yank_selection :: "editor \<Rightarrow> editor option" where
  "yank_selection ed = do {
     sel \<leftarrow> selection_range ed;
     (case sel of
        None \<Rightarrow> Some ed
      | Some span \<Rightarrow> do {
          s \<leftarrow> selection_text span ed;
          Some (set_register s (selection_kind ed) ed)
        })
   }"

definition delete_current_line :: "editor \<Rightarrow> editor option" where
  "delete_current_line ed =
     (if ed_disabled ed then Some ed
      else do {
        let ed1 = snapshot_undo ed;
        chars \<leftarrow> active_chars ed1;
        let ed2 = set_register chars Linewise ed1;
        ed3 \<leftarrow>
          (if length (ed_lines ed2) = 1 then Some (ed2\<lparr>ed_lines := (ed_lines ed2)[0 := []]\<rparr>)
           else do {
             (_, kept) \<leftarrow> vec_remove (ed_lines ed2) (ed_active_line ed2);
             if ed_active_line ed2 \<ge> length kept
             then do { l \<leftarrow> usize_sub (length kept) 1; Some (ed2\<lparr>ed_lines := kept, ed_active_line := l\<rparr>) }
             else Some (ed2\<lparr>ed_lines := kept\<rparr>)
           });
        clamp_normal (ed3\<lparr>ed_cursor_col := 0\<rparr>)
      })"

text \<open>The lines left when a selection is cut out, and where the cursor goes.\<close>

definition cut_linewise :: "nat \<Rightarrow> nat \<Rightarrow> editor \<Rightarrow> editor option" where
  "cut_linewise first final ed = do {
     last \<leftarrow> usize_sub (length (ed_lines ed)) 1;
     (if first = 0 \<and> final = last
      then Some (ed\<lparr>ed_lines := [[]], ed_active_line := 0, ed_cursor_col := 0\<rparr>)
      else do {
        kept \<leftarrow> vec_splice (ed_lines ed) first final [];
        l \<leftarrow> usize_sub (length kept) 1;
        Some (ed\<lparr>ed_lines := kept, ed_active_line := min first l, ed_cursor_col := 0\<rparr>)
      })
   }"

definition cut_charwise :: "nat \<times> nat \<Rightarrow> nat \<times> nat \<Rightarrow> editor \<Rightarrow> editor option" where
  "cut_charwise start stop ed = do {
     first \<leftarrow> line_chars (ed_lines ed) (fst start);
     last \<leftarrow> line_chars (ed_lines ed) (fst stop);
     let to = min (snd stop + 1) (length last);
     let joined = take (min (snd start) (length first)) first @ drop to last;
     ls \<leftarrow> vec_splice (ed_lines ed) (fst start) (fst stop) [joined];
     Some (ed\<lparr>ed_lines := ls, ed_active_line := fst start, ed_cursor_col := snd start\<rparr>)
   }"

definition delete_selection :: "editor \<Rightarrow> editor option" where
  "delete_selection ed =
     (if ed_disabled ed then Some ed
      else do {
        sel \<leftarrow> selection_range ed;
        (case sel of
           None \<Rightarrow> Some ed
         | Some (start, stop) \<Rightarrow> do {
             let ed1 = snapshot_undo ed;
             s \<leftarrow> selection_text (start, stop) ed1;
             let ed2 = set_register s (selection_kind ed1) ed1;
             ed3 \<leftarrow>
               (if is_visual_linewise ed2 then cut_linewise (fst start) (fst stop) ed2
                else cut_charwise start stop ed2);
             clamp_normal (ed3\<lparr>ed_mode := Normal, ed_visual_anchor := None\<rparr>)
           })
      })"

definition enter_normal_at_selection_start :: "editor \<Rightarrow> editor option" where
  "enter_normal_at_selection_start ed = do {
     sel \<leftarrow> selection_range ed;
     let ed1 = (case sel of
         Some (start, _) \<Rightarrow> ed\<lparr>ed_active_line := fst start, ed_cursor_col := snd start\<rparr>
       | None \<Rightarrow> ed);
     clamp_normal (ed1\<lparr>ed_mode := Normal, ed_visual_anchor := None\<rparr>)
   }"

section \<open>Pasting and opening lines\<close>

definition paste_linewise :: "bool \<Rightarrow> string \<Rightarrow> editor \<Rightarrow> editor option" where
  "paste_linewise after s ed = do {
     let at = (if after then ed_active_line ed + 1 else ed_active_line ed);
     ls \<leftarrow> vec_insert_all (ed_lines ed) at (str_split newline s);
     Some (ed\<lparr>ed_lines := ls, ed_active_line := at, ed_cursor_col := 0\<rparr>)
   }"

definition paste_charwise :: "bool \<Rightarrow> string \<Rightarrow> editor \<Rightarrow> editor option" where
  "paste_charwise after s ed = do {
     let parts = str_split newline s;
     chars \<leftarrow> active_chars ed;
     let insert_col = (if after then min (ed_cursor_col ed + 1) (length chars) else ed_cursor_col ed);
     (case parts of
        [part] \<Rightarrow> do {
          ed1 \<leftarrow> insert_at (ed_active_line ed) insert_col part ed;
          Some (ed1\<lparr>ed_cursor_col := insert_col + (length part - 1)\<rparr>)
        }
      | _ \<Rightarrow> do {
          before \<leftarrow> slice_index chars 0 insert_col;
          tail \<leftarrow> slice_index chars insert_col (length chars);
          let new_lines = (before @ hd parts) # butlast (tl parts) @ [last parts @ tail];
          let last_idx = ed_active_line ed + length new_lines - 1;
          ls \<leftarrow> vec_splice (ed_lines ed) (ed_active_line ed) (ed_active_line ed) new_lines;
          Some (ed\<lparr>ed_lines := ls, ed_active_line := last_idx, ed_cursor_col := length (last parts) - 1\<rparr>)
        })
   }"

definition paste :: "bool \<Rightarrow> editor \<Rightarrow> editor option" where
  "paste after ed =
     (case ed_register ed of
        None \<Rightarrow> Some ed
      | Some (s, kind) \<Rightarrow> do {
          let ed1 = snapshot_undo ed;
          ed2 \<leftarrow> (if kind = Linewise then paste_linewise after s ed1 else paste_charwise after s ed1);
          clamp_normal ed2
        })"

definition open_line_below :: "syntax_lib \<Rightarrow> editor \<Rightarrow> editor option" where
  "open_line_below sx ed = do {
     line \<leftarrow> active_chars ed;
     let indent = auto_indent sx (ed_language ed) line;
     ls \<leftarrow> vec_insert (ed_lines ed) (ed_active_line ed + 1) (replicate indent blank);
     Some (ed\<lparr>ed_active_line := ed_active_line ed + 1, ed_lines := ls, ed_cursor_col := indent\<rparr>)
   }"

definition open_line_above :: "editor \<Rightarrow> editor option" where
  "open_line_above ed = do {
     line \<leftarrow> active_chars ed;
     let indent = length (takeWhile (\<lambda>c. c = blank) line);
     ls \<leftarrow> vec_insert (ed_lines ed) (ed_active_line ed) (replicate indent blank);
     Some (ed\<lparr>ed_lines := ls, ed_cursor_col := indent\<rparr>)
   }"

section \<open>Paging and read-only navigation\<close>

definition set_readonly_nav :: "bool \<Rightarrow> editor \<Rightarrow> editor" where
  "set_readonly_nav on ed = ed\<lparr>ed_readonly_nav := on\<rparr>"

definition set_content_width :: "nat \<Rightarrow> editor \<Rightarrow> editor" where
  "set_content_width w ed = ed\<lparr>ed_content_width := w\<rparr>"

definition page_move :: "bool \<Rightarrow> nat \<Rightarrow> editor \<Rightarrow> editor option" where
  "page_move down rows0 ed = do {
     let rows = max rows0 1;
     last \<leftarrow> usize_sub (length (ed_lines ed)) 1;
     let ed1 = ed\<lparr>ed_active_line :=
                    if down then min (ed_active_line ed + rows) last else ed_active_line ed - rows\<rparr>;
     if \<not> ed_disabled ed1 then clamp_normal ed1 else Some ed1
   }"

definition max_h_scroll :: "editor \<Rightarrow> nat" where
  "max_h_scroll ed = fold max (map length (ed_lines ed)) 0 - 1"

definition scroll_to :: "nat \<Rightarrow> editor \<Rightarrow> editor" where
  "scroll_to h ed = ed\<lparr>ed_h_scroll := h, ed_cursor_col := h\<rparr>"

definition plain_mod :: "key_modifiers \<Rightarrow> bool" where
  "plain_mod m \<longleftrightarrow> m = ModNone \<or> m = ModShift"

text \<open>The outer option is a panic, the inner one a key that is not intercepted.\<close>

definition handle_readonly_nav :: "key_modifiers \<Rightarrow> key_code \<Rightarrow> editor \<Rightarrow> editor option option" where
  "handle_readonly_nav m k ed =
     (if \<not> ed_readonly_nav ed then Some None
      else if m = ModNone \<and> k = KPageDown then map_option Some (page_move True (ed_visible_height ed) ed)
      else if m = ModNone \<and> k = KPageUp then map_option Some (page_move False (ed_visible_height ed) ed)
      else if m = ModControl \<and> k = KChar CHR ''d''
        then map_option Some (page_move True (max (ed_visible_height ed div 2) 1) ed)
      else if m = ModControl \<and> k = KChar CHR ''u''
        then map_option Some (page_move False (max (ed_visible_height ed div 2) 1) ed)
      else if ed_disabled ed \<and> (plain_mod m \<and> k = KChar CHR ''h'' \<or> m = ModNone \<and> k = KLeft)
        then Some (Some (scroll_to (ed_h_scroll ed - 1) ed))
      else if ed_disabled ed \<and> (plain_mod m \<and> k = KChar CHR ''l'' \<or> m = ModNone \<and> k = KRight)
        then Some (Some (scroll_to (min (ed_h_scroll ed + 1) (max_h_scroll ed)) ed))
      else if ed_disabled ed \<and> plain_mod m \<and> k = KChar CHR ''0'' then Some (Some (scroll_to 0 ed))
      else if ed_disabled ed \<and> plain_mod m \<and> k = KChar CHR ''$'' then do {
        chars \<leftarrow> active_chars ed;
        let last = length chars - 1;
        Some (Some (ed\<lparr>ed_h_scroll := last + 1 - ed_content_width ed, ed_cursor_col := last\<rparr>))
      }
      else Some None)"

section \<open>Motions\<close>

definition move_up :: "editor \<Rightarrow> editor option" where
  "move_up ed =
     (let ed1 = ed\<lparr>ed_active_line := ed_active_line ed - 1\<rparr> in
      if \<not> ed_disabled ed1 then clamp_normal ed1 else Some ed1)"

definition move_down :: "editor \<Rightarrow> editor option" where
  "move_down ed =
     (let ed1 = (if ed_active_line ed + 1 < length (ed_lines ed)
                 then ed\<lparr>ed_active_line := ed_active_line ed + 1\<rparr> else ed) in
      if \<not> ed_disabled ed1 then clamp_normal ed1 else Some ed1)"

definition step_left :: "editor \<Rightarrow> editor option" where
  "step_left ed =
     (if ed_cursor_col ed > 0 then Some (ed\<lparr>ed_cursor_col := ed_cursor_col ed - 1\<rparr>)
      else if ed_active_line ed > 0 then do {
        chars \<leftarrow> line_chars (ed_lines ed) (ed_active_line ed - 1);
        Some (ed\<lparr>ed_active_line := ed_active_line ed - 1, ed_cursor_col := length chars\<rparr>)
      }
      else Some ed)"

definition step_right :: "editor \<Rightarrow> editor option" where
  "step_right ed = do {
     chars \<leftarrow> active_chars ed;
     Some (if ed_cursor_col ed < length chars then ed\<lparr>ed_cursor_col := ed_cursor_col ed + 1\<rparr>
           else if ed_active_line ed + 1 < length (ed_lines ed)
           then ed\<lparr>ed_active_line := ed_active_line ed + 1, ed_cursor_col := 0\<rparr>
           else ed)
   }"

definition move_word ::
  "(string list \<Rightarrow> nat \<Rightarrow> nat \<Rightarrow> (nat \<times> nat) option) \<Rightarrow> editor \<Rightarrow> editor option"
where
  "move_word motion ed = do {
     (l, c) \<leftarrow> motion (ed_lines ed) (ed_active_line ed) (ed_cursor_col ed);
     Some (ed\<lparr>ed_active_line := l, ed_cursor_col := c\<rparr>)
   }"

text \<open>The outer option is a panic, the inner one a key that is no motion.\<close>

definition motion_char :: "char \<Rightarrow> editor \<Rightarrow> editor option option" where
  "motion_char c ed =
     (if c = CHR ''h'' then Some (Some (ed\<lparr>ed_cursor_col := ed_cursor_col ed - 1\<rparr>))
      else if c = CHR ''l'' then map_option Some (clamp_normal (ed\<lparr>ed_cursor_col := ed_cursor_col ed + 1\<rparr>))
      else if c = CHR ''j'' then map_option Some (move_down ed)
      else if c = CHR ''k'' then map_option Some (move_up ed)
      else if c = CHR ''0'' then Some (Some (ed\<lparr>ed_cursor_col := 0\<rparr>))
      else if c = CHR ''$'' then
        map_option (\<lambda>chars. Some (ed\<lparr>ed_cursor_col := length chars - 1\<rparr>)) (active_chars ed)
      else if c = CHR ''w'' then map_option Some (Option.bind (move_word word_forward ed) clamp_normal)
      else if c = CHR ''e'' then map_option Some (move_word word_end_forward ed)
      else if c = CHR ''b'' then map_option Some (move_word word_backward ed)
      else if c = CHR ''G'' then
        map_option (\<lambda>last. Some (ed\<lparr>ed_active_line := last, ed_cursor_col := 0\<rparr>)) (usize_sub (length (ed_lines ed)) 1)
      else Some None)"

definition apply_motion :: "key_modifiers \<Rightarrow> key_code \<Rightarrow> editor \<Rightarrow> editor option option" where
  "apply_motion m k ed =
     (case k of
        KUp \<Rightarrow> if m = ModNone then map_option Some (move_up ed) else Some None
      | KDown \<Rightarrow> if m = ModNone then map_option Some (move_down ed) else Some None
      | KLeft \<Rightarrow> if m = ModNone then map_option Some (Option.bind (step_left ed) clamp_normal) else Some None
      | KRight \<Rightarrow> if m = ModNone then map_option Some (Option.bind (step_right ed) clamp_normal) else Some None
      | KChar c \<Rightarrow> if plain_mod m then motion_char c ed else Some None
      | _ \<Rightarrow> Some None)"

section \<open>Normal mode\<close>

definition goto_top :: "editor \<Rightarrow> editor option" where
  "goto_top ed = clamp_normal (ed\<lparr>ed_active_line := 0, ed_cursor_col := 0\<rparr>)"

definition delete_char :: "editor \<Rightarrow> editor option" where
  "delete_char ed = do {
     chars \<leftarrow> active_chars ed;
     (if length chars > 0 then do {
        (removed, ed1) \<leftarrow> remove_range (ed_active_line ed) (ed_cursor_col ed) (ed_cursor_col ed + 1) (snapshot_undo ed);
        clamp_normal (set_register removed Charwise ed1)
      } else Some ed)
   }"

definition undo_key :: "editor \<Rightarrow> editor option" where
  "undo_key ed =
     (case ed_undo ed of
        None \<Rightarrow> Some ed
      | Some (ls, l, c) \<Rightarrow>
          clamp_normal (ed\<lparr>ed_lines := ls, ed_active_line := l, ed_cursor_col := c,
                           ed_undo := Some (ed_lines ed, ed_active_line ed, ed_cursor_col ed)\<rparr>))"

definition enter_insert :: "editor \<Rightarrow> editor" where
  "enter_insert ed = ed\<lparr>ed_mode := Insert\<rparr>"

definition enter_visual :: "bool \<Rightarrow> editor \<Rightarrow> editor" where
  "enter_visual linewise ed =
     ed\<lparr>ed_visual_anchor := Some (ed_active_line ed, ed_cursor_col ed), ed_mode := Visual linewise\<rparr>"

text \<open>The operators of Normal mode; the keys it does not know are left to the caller.\<close>

definition normal_edit :: "syntax_lib \<Rightarrow> char \<Rightarrow> editor \<Rightarrow> editor option" where
  "normal_edit sx c ed =
     (if c = CHR ''x'' then delete_char ed
      else if c = CHR ''p'' then paste True ed
      else if c = CHR ''P'' then paste False ed
      else if c = CHR ''u'' then undo_key ed
      else if c = CHR ''i'' then Some (enter_insert (snapshot_undo ed))
      else if c = CHR ''a'' then do {
        chars \<leftarrow> active_chars ed;
        Some (enter_insert ((snapshot_undo ed)\<lparr>ed_cursor_col := min (ed_cursor_col ed + 1) (length chars)\<rparr>))
      }
      else if c = CHR ''I'' then do {
        chars \<leftarrow> active_chars ed;
        Some (enter_insert ((snapshot_undo ed)\<lparr>ed_cursor_col := length (takeWhile is_space chars)\<rparr>))
      }
      else if c = CHR ''A'' then do {
        chars \<leftarrow> active_chars ed;
        Some (enter_insert ((snapshot_undo ed)\<lparr>ed_cursor_col := length chars\<rparr>))
      }
      else if c = CHR ''o'' then map_option enter_insert (open_line_below sx (snapshot_undo ed))
      else if c = CHR ''O'' then map_option enter_insert (open_line_above (snapshot_undo ed))
      else Some ed)"

definition normal_chord :: "char \<Rightarrow> editor \<Rightarrow> editor option" where
  "normal_chord c ed =
     (if ed_pending ed = Some c then
        let ed1 = ed\<lparr>ed_pending := None\<rparr> in
        if c = CHR ''g'' then goto_top ed1
        else if c = CHR ''d'' then delete_current_line ed1
        else yank_current_line ed1
      else Some (ed\<lparr>ed_pending := Some c\<rparr>))"

definition shifted_edit :: "char \<Rightarrow> bool" where
  "shifted_edit c \<longleftrightarrow> c \<in> set ''PIAO''"

definition unshifted_edit :: "char \<Rightarrow> bool" where
  "unshifted_edit c \<longleftrightarrow> c \<in> set ''xpuiao''"

definition handle_normal_key ::
  "syntax_lib \<Rightarrow> key_modifiers \<Rightarrow> key_code \<Rightarrow> editor \<Rightarrow> (event_result \<times> editor) option"
where
  "handle_normal_key sx m k ed0 =
     (if m = ModNone \<and> (k = KChar CHR ''g'' \<or> k = KChar CHR ''d'' \<or> k = KChar CHR ''y'')
      then map_option (Pair Consumed) (normal_chord (case k of KChar c \<Rightarrow> c | _ \<Rightarrow> CHR ''g'') ed0)
      else let ed = ed0\<lparr>ed_pending := None\<rparr> in do {
        moved \<leftarrow> apply_motion m k ed;
        (case moved of
           Some ed1 \<Rightarrow> Some (Consumed, ed1)
         | None \<Rightarrow>
             (case k of
                KChar c \<Rightarrow>
                  if m = ModNone \<and> unshifted_edit c \<or> plain_mod m \<and> shifted_edit c
                  then map_option (Pair Consumed) (if ed_disabled ed then Some ed else normal_edit sx c ed)
                  else if m = ModNone \<and> c = CHR ''v'' then Some (Consumed, enter_visual False ed)
                  else if plain_mod m \<and> c = CHR ''V'' then Some (Consumed, enter_visual True ed)
                  else if plain_mod m then Some (Consumed, ed)
                  else Some (Unhandled m k, ed)
              | _ \<Rightarrow> Some (Unhandled m k, ed)))
      })"

section \<open>Visual mode\<close>

definition leave_visual :: "editor \<Rightarrow> editor option" where
  "leave_visual ed = clamp_normal (ed\<lparr>ed_mode := Normal, ed_visual_anchor := None\<rparr>)"

definition handle_visual_key :: "key_modifiers \<Rightarrow> key_code \<Rightarrow> editor \<Rightarrow> (event_result \<times> editor) option" where
  "handle_visual_key m k ed0 =
     (if m = ModNone \<and> k = KChar CHR ''g'' then
        map_option (Pair Consumed)
          (if ed_pending ed0 = Some CHR ''g'' then goto_top (ed0\<lparr>ed_pending := None\<rparr>)
           else Some (ed0\<lparr>ed_pending := Some CHR ''g''\<rparr>))
      else let ed = ed0\<lparr>ed_pending := None\<rparr> in
        if m = ModNone \<and> (k = KEsc \<or> k = KChar CHR ''v'') then map_option (Pair Consumed) (leave_visual ed)
        else if plain_mod m \<and> k = KChar CHR ''V'' then Some (Consumed, ed\<lparr>ed_mode := Visual True\<rparr>)
        else if m = ModNone \<and> k = KChar CHR ''y'' then
          map_option (Pair Consumed) (Option.bind (yank_selection ed) enter_normal_at_selection_start)
        else if m = ModNone \<and> (k = KChar CHR ''d'' \<or> k = KChar CHR ''x'') then
          map_option (Pair Consumed) (delete_selection ed)
        else do {
          moved \<leftarrow> apply_motion m k ed;
          Some (case moved of
              Some ed1 \<Rightarrow> (Consumed, ed1)
            | None \<Rightarrow>
                (case k of
                   KChar _ \<Rightarrow> if plain_mod m then (Consumed, ed) else (Unhandled m k, ed)
                 | _ \<Rightarrow> (Unhandled m k, ed)))
        })"

section \<open>Plain editing and Insert mode\<close>

definition edit_up :: "editor \<Rightarrow> editor option" where
  "edit_up ed =
     (if ed_active_line ed > 0 then
        let ed1 = ed\<lparr>ed_active_line := ed_active_line ed - 1\<rparr> in
        if \<not> ed_disabled ed1 then clamp_cursor ed1 else Some ed1
      else Some ed)"

definition edit_down :: "editor \<Rightarrow> editor option" where
  "edit_down ed =
     (if ed_active_line ed + 1 < length (ed_lines ed) then
        let ed1 = ed\<lparr>ed_active_line := ed_active_line ed + 1\<rparr> in
        if \<not> ed_disabled ed1 then clamp_cursor ed1 else Some ed1
      else Some ed)"

definition edit_enter :: "syntax_lib \<Rightarrow> editor \<Rightarrow> editor option" where
  "edit_enter sx ed = do {
     chars \<leftarrow> active_chars ed;
     before \<leftarrow> slice_index chars 0 (ed_cursor_col ed);
     after \<leftarrow> slice_index chars (ed_cursor_col ed) (length chars);
     let indent = auto_indent sx (ed_language ed) before;
     ls \<leftarrow> vec_insert ((ed_lines ed)[ed_active_line ed := before]) (ed_active_line ed + 1)
             (replicate indent blank @ after);
     Some (ed\<lparr>ed_lines := ls, ed_active_line := ed_active_line ed + 1, ed_cursor_col := indent\<rparr>)
   }"

definition edit_backspace :: "editor \<Rightarrow> editor option" where
  "edit_backspace ed =
     (if ed_cursor_col ed > 0 then do {
        (_, ed1) \<leftarrow> remove_range (ed_active_line ed) (ed_cursor_col ed - 1) (ed_cursor_col ed) ed;
        Some (ed1\<lparr>ed_cursor_col := ed_cursor_col ed - 1\<rparr>)
      }
      else if ed_active_line ed > 0 then do {
        (current, ls) \<leftarrow> vec_remove (ed_lines ed) (ed_active_line ed);
        prev \<leftarrow> line_chars ls (ed_active_line ed - 1);
        Some (ed\<lparr>ed_lines := ls[ed_active_line ed - 1 := prev @ current],
                 ed_active_line := ed_active_line ed - 1, ed_cursor_col := length prev\<rparr>)
      }
      else Some ed)"

definition edit_delete :: "editor \<Rightarrow> editor option" where
  "edit_delete ed = do {
     chars \<leftarrow> active_chars ed;
     (if ed_cursor_col ed < length chars
      then map_option snd (remove_range (ed_active_line ed) (ed_cursor_col ed) (ed_cursor_col ed + 1) ed)
      else if ed_active_line ed + 1 < length (ed_lines ed) then do {
        (next, ls) \<leftarrow> vec_remove (ed_lines ed) (ed_active_line ed + 1);
        Some (ed\<lparr>ed_lines := ls[ed_active_line ed := chars @ next]\<rparr>)
      }
      else Some ed)
   }"

definition type_text :: "string \<Rightarrow> editor \<Rightarrow> editor option" where
  "type_text s ed = do {
     ed1 \<leftarrow> insert_at (ed_active_line ed) (ed_cursor_col ed) s ed;
     Some (ed1\<lparr>ed_cursor_col := ed_cursor_col ed + length s\<rparr>)
   }"

definition edit_space :: "nat \<Rightarrow> editor \<Rightarrow> editor option" where
  "edit_space now ed =
     (let expand = (case (ed_space_indent ed, ed_last_space ed) of
          (Some threshold, Some (at, line, col)) \<Rightarrow>
            line = ed_active_line ed \<and> col = ed_cursor_col ed \<and> now - at \<le> threshold
        | _ \<Rightarrow> False) in
      if expand then map_option (\<lambda>ed1. ed1\<lparr>ed_last_space := None\<rparr>) (type_text ''   '' ed)
      else do {
        ed1 \<leftarrow> type_text '' '' ed;
        Some (if ed_space_indent ed1 \<noteq> None
              then ed1\<lparr>ed_last_space := Some (now, ed_active_line ed1, ed_cursor_col ed1)\<rparr> else ed1)
      })"

definition handle_edit_key ::
  "syntax_lib \<Rightarrow> nat \<Rightarrow> key_modifiers \<Rightarrow> key_code \<Rightarrow> editor \<Rightarrow> (event_result \<times> editor) option"
where
  "handle_edit_key sx now m k ed0 =
     (let ed = (if plain_mod m \<and> k = KChar blank then ed0 else ed0\<lparr>ed_last_space := None\<rparr>) in
      if m = ModNone \<and> k = KUp then map_option (Pair Consumed) (edit_up ed)
      else if m = ModNone \<and> k = KDown then map_option (Pair Consumed) (edit_down ed)
      else if m = ModNone \<and> k = KLeft then map_option (Pair Consumed) (step_left ed)
      else if m = ModNone \<and> k = KRight then map_option (Pair Consumed) (step_right ed)
      else if ed_disabled ed then Some (Unhandled m k, ed)
      else if m = ModNone \<and> k = KEnter then map_option (Pair Consumed) (edit_enter sx ed)
      else if m = ModNone \<and> k = KBackspace then map_option (Pair Consumed) (edit_backspace ed)
      else if m = ModNone \<and> k = KDelete then map_option (Pair Consumed) (edit_delete ed)
      else (case k of
          KChar c \<Rightarrow>
            if plain_mod m then map_option (Pair Consumed) (if c = blank then edit_space now ed else type_text [c] ed)
            else Some (Unhandled m k, ed)
        | _ \<Rightarrow> Some (Unhandled m k, ed)))"

definition insert_esc :: "editor \<Rightarrow> editor option" where
  "insert_esc ed =
     (let ed1 = ed\<lparr>ed_last_space := None, ed_mode := Normal\<rparr> in do {
        chars \<leftarrow> active_chars ed1;
        Some (ed1\<lparr>ed_cursor_col := min (ed_cursor_col ed1 - 1) (length chars - 1)\<rparr>)
      })"

definition insert_backtab :: "editor \<Rightarrow> editor option" where
  "insert_backtab ed =
     (let ed1 = ed\<lparr>ed_last_space := None\<rparr> in do {
        chars \<leftarrow> active_chars ed1;
        let leading = min (length (takeWhile (\<lambda>c. c = blank) chars)) 4;
        if leading > 0 then do {
          (_, ed2) \<leftarrow> remove_range (ed_active_line ed1) 0 leading ed1;
          Some (ed2\<lparr>ed_cursor_col := ed_cursor_col ed1 - leading\<rparr>)
        }
        else Some ed1
      })"

definition handle_insert_key ::
  "syntax_lib \<Rightarrow> nat \<Rightarrow> key_modifiers \<Rightarrow> key_code \<Rightarrow> editor \<Rightarrow> (event_result \<times> editor) option"
where
  "handle_insert_key sx now m k ed =
     (if m = ModNone \<and> k = KEsc then map_option (Pair Consumed) (insert_esc ed)
      else if m = ModNone \<and> k = KTab then map_option (Pair Consumed) (type_text ''    '' (ed\<lparr>ed_last_space := None\<rparr>))
      else if plain_mod m \<and> k = KBackTab then map_option (Pair Consumed) (insert_backtab ed)
      else handle_edit_key sx now m k ed)"

section \<open>Focus and events\<close>

definition set_focused :: "syntax_lib \<Rightarrow> bool \<Rightarrow> editor \<Rightarrow> editor option" where
  "set_focused sx focus ed = do {
     ed1 \<leftarrow>
       (if ed_focused ed \<and> \<not> focus \<and> \<not> ed_disabled ed then
          (case ed_language ed of
             None \<Rightarrow> Some ed
           | Some lang \<Rightarrow>
               (case syntax_format sx lang (content ed) of
                  None \<Rightarrow> Some ed
                | Some new \<Rightarrow> if new \<noteq> content ed then set_content new ed else Some ed))
        else Some ed);
     let ed2 = (if \<not> focus then ed1\<lparr>ed_mode := Normal, ed_visual_anchor := None, ed_pending := None\<rparr> else ed1);
     Some (ed2\<lparr>ed_focused := focus\<rparr>)
   }"

definition handle_events ::
  "syntax_lib \<Rightarrow> nat \<Rightarrow> key_modifiers \<Rightarrow> key_code \<Rightarrow> editor \<Rightarrow> (event_result \<times> editor) option"
where
  "handle_events sx now m k ed = do {
     nav \<leftarrow> (if ed_mode ed \<noteq> Insert then handle_readonly_nav m k ed else Some None);
     (case nav of
        Some ed1 \<Rightarrow> Some (Consumed, ed1)
      | None \<Rightarrow>
          if \<not> ed_vim ed then handle_edit_key sx now m k ed
          else (case ed_mode ed of
              Insert \<Rightarrow> handle_insert_key sx now m k ed
            | Normal \<Rightarrow> handle_normal_key sx m k ed
            | Visual _ \<Rightarrow> handle_visual_key m k ed))
   }"

text \<open>What reaches an editor from its owner, and a run of such events.\<close>

datatype editor_event =
    Key nat key_modifiers key_code
  | Focus bool
  | Content string

fun editor_apply :: "syntax_lib \<Rightarrow> editor_event \<Rightarrow> editor \<Rightarrow> editor option" where
  "editor_apply sx (Key now m k) ed = map_option snd (handle_events sx now m k ed)"
| "editor_apply sx (Focus f) ed = set_focused sx f ed"
| "editor_apply sx (Content s) ed = set_content s ed"

fun editor_run :: "syntax_lib \<Rightarrow> editor_event list \<Rightarrow> editor \<Rightarrow> editor option" where
  "editor_run sx [] ed = Some ed"
| "editor_run sx (e # es) ed = Option.bind (editor_apply sx e ed) (editor_run sx es)"

end
