(* ===== verification/Vim_Properties.thy ===== *)
theory Vim_Properties
  imports Vim
begin

text \<open>
  The word motions stay inside the buffer and move the way their names say, and the clipboard
  encoder can be read back.
\<close>

section \<open>Word motions\<close>

definition in_buffer :: "string list \<Rightarrow> nat \<times> nat \<Rightarrow> bool" where
  "in_buffer ls p \<longleftrightarrow> fst p < length ls \<and> snd p \<le> length (ls ! fst p) - 1"

lemma line_chars_Some [simp]: "line_chars ls i = Some s \<longleftrightarrow> i < length ls \<and> s = ls ! i"
  by (auto simp: line_chars_def)

lemma line_chars_in [panic_free]: "i < length ls \<Longrightarrow> line_chars ls i = Some (ls ! i)"
  by simp

lemma skip_class_bounds: "col \<le> skip_class chars cls col \<and> (col \<le> length chars \<longrightarrow> skip_class chars cls col \<le> length chars)"
proof (induction chars cls col rule: skip_class.induct)
  case (1 chars cls col)
  then show ?case by (subst (1 2) skip_class.simps) (auto simp: skip_class.simps [of chars cls col])
qed

lemma skip_class_moves: "col < length chars \<Longrightarrow> char_class_of (chars ! col) = cls \<Longrightarrow> col < skip_class chars cls col"
  using skip_class_bounds [of "col + 1" chars cls] by (subst skip_class.simps) simp

lemma forward_loop_returns:
  "line < length ls \<Longrightarrow>
     \<exists>l c. forward_loop ls line col = Some (l, c) \<and> in_buffer ls (l, c) \<and>
       (line < l \<or> l = line \<and> (col \<le> c \<or> l + 1 = length ls \<and> c = length (ls ! l) - 1))"
proof (induction ls line col rule: forward_loop.induct)
  case (1 ls line col)
  let ?chars = "ls ! line"
  consider "length ?chars \<le> col" "length ls \<le> line + 1"
    | "length ?chars \<le> col" "line + 1 < length ls" "ls ! (line + 1) = []"
    | "length ?chars \<le> col" "line + 1 < length ls" "ls ! (line + 1) \<noteq> []"
    | "col < length ?chars" "char_class_of (?chars ! col) \<noteq> SpaceChar"
    | "col < length ?chars" "char_class_of (?chars ! col) = SpaceChar" by linarith
  then show ?case
  proof cases
    case 3
    with 1(1) [of ?chars] 1(3) obtain l c where "forward_loop ls (line + 1) 0 = Some (l, c)"
      "in_buffer ls (l, c)" "line + 1 \<le> l" by (auto simp: line_chars_in)
    with 3 1(3) show ?thesis by (subst forward_loop.simps) (auto simp: line_chars_in)
  next
    case 5
    with 1(2) [of ?chars] 1(3) obtain l c where "forward_loop ls line (col + 1) = Some (l, c)"
      "in_buffer ls (l, c)" "line < l \<or> l = line \<and> (col + 1 \<le> c \<or> l + 1 = length ls \<and> c = length (ls ! l) - 1)"
      by (auto simp: line_chars_in)
    with 5 1(3) show ?thesis by (subst forward_loop.simps) (auto simp: line_chars_in)
  qed (use 1(3) in \<open>subst forward_loop.simps, auto simp: line_chars_in in_buffer_def\<close>)+
qed

fun end_ok :: "string list \<Rightarrow> nat \<Rightarrow> nat \<Rightarrow> end_search \<Rightarrow> bool" where
  "end_ok ls line col (NoMoreWords l c) \<longleftrightarrow> l + 1 = length ls \<and> c = length (ls ! l) - 1"
| "end_ok ls line col (WordAt l c) \<longleftrightarrow> l < length ls \<and> c < length (ls ! l) \<and> (line < l \<or> l = line \<and> col \<le> c)"

lemma end_ok_next: "end_ok ls (line + 1) 0 r \<Longrightarrow> end_ok ls line col r" "end_ok ls line (col + 1) r \<Longrightarrow> end_ok ls line col r"
  by (cases r; auto)+

lemma next_word_loop_returns: "line < length ls \<Longrightarrow> \<exists>r. next_word_loop ls line col = Some r \<and> end_ok ls line col r"
proof (induction ls line col rule: next_word_loop.induct)
  case (1 ls line col)
  let ?chars = "ls ! line"
  consider "length ?chars \<le> col" "length ls \<le> line + 1"
    | "length ?chars \<le> col" "line + 1 < length ls"
    | "col < length ?chars" "char_class_of (?chars ! col) \<noteq> SpaceChar"
    | "col < length ?chars" "char_class_of (?chars ! col) = SpaceChar" by linarith
  then show ?case
  proof cases
    case 2
    with 1(1) [of ?chars] 1(3) obtain r where "next_word_loop ls (line + 1) 0 = Some r" "end_ok ls (line + 1) 0 r"
      by (auto simp: line_chars_in)
    with 2 1(3) end_ok_next(1) show ?thesis by (subst next_word_loop.simps) (auto simp: line_chars_in)
  next
    case 4
    with 1(2) [of ?chars] 1(3) obtain r where "next_word_loop ls line (col + 1) = Some r" "end_ok ls line (col + 1) r"
      by (auto simp: line_chars_in)
    with 4 1(3) end_ok_next(2) show ?thesis by (subst next_word_loop.simps) (auto simp: line_chars_in)
  qed (use 1(3) in \<open>subst next_word_loop.simps, auto simp: line_chars_in\<close>)+
qed

lemma run_end_loop_returns:
  "col < length chars \<Longrightarrow> \<exists>c. run_end_loop chars col = Some c \<and> col \<le> c \<and> c < length chars"
proof (induction chars col rule: run_end_loop.induct)
  case (1 chars col)
  show ?case
  proof (cases "col + 1 < length chars \<and> char_class_of (chars ! (col + 1)) = char_class_of (chars ! col)")
    case True
    with 1 obtain c where "run_end_loop chars (col + 1) = Some c" "col + 1 \<le> c" "c < length chars" by auto
    with True show ?thesis by (subst run_end_loop.simps) auto
  qed (use 1(2) in \<open>subst run_end_loop.simps, auto\<close>)
qed

fun start_ok :: "string list \<Rightarrow> nat \<Rightarrow> nat \<Rightarrow> start_search \<Rightarrow> bool" where
  "start_ok ls line col (StartAt l c) \<longleftrightarrow> c = 0 \<and> l \<le> line"
| "start_ok ls line col (PrevWord l c) \<longleftrightarrow> l < length ls \<and> c < length (ls ! l) \<and> (l < line \<or> l = line \<and> c < col)"

lemma start_ok_next: "start_ok ls (line - 1) n r \<Longrightarrow> line > 0 \<Longrightarrow> start_ok ls line col r"
  "start_ok ls line (col - 1) r \<Longrightarrow> start_ok ls line col r"
  by (cases r; auto)+

lemma prev_word_loop_returns:
  "line < length ls \<Longrightarrow> col \<le> length (ls ! line) \<Longrightarrow> \<exists>r. prev_word_loop ls line col = Some r \<and> start_ok ls line col r"
proof (induction ls line col rule: prev_word_loop.induct)
  case (1 ls line col)
  consider "col = 0" "line = 0" | "col = 0" "line > 0" "ls ! (line - 1) = []" | "col = 0" "line > 0" "ls ! (line - 1) \<noteq> []"
    | "col > 0" "char_class_of (ls ! line ! (col - 1)) \<noteq> SpaceChar"
    | "col > 0" "char_class_of (ls ! line ! (col - 1)) = SpaceChar" by blast
  then show ?case
  proof cases
    case 3
    with 1(1) [of "ls ! (line - 1)"] 1(3) less_imp_diff_less [OF 1(3), of 1] obtain r where
      "prev_word_loop ls (line - 1) (length (ls ! (line - 1))) = Some r"
      "start_ok ls (line - 1) (length (ls ! (line - 1))) r" by (auto simp: line_chars_in)
    with 3 1(3) start_ok_next(1) show ?thesis by (subst prev_word_loop.simps) (auto simp: line_chars_in)
  next
    case 5
    then have "\<not> length (ls ! line) \<le> col - 1" using 1(4) by linarith
    with 5 1(2) [of "ls ! line"] 1(3,4) obtain r where "prev_word_loop ls line (col - 1) = Some r"
      "start_ok ls line (col - 1) r" by (auto simp: line_chars_in)
    with 5 1(3,4) start_ok_next(2) show ?thesis by (subst prev_word_loop.simps) (auto simp: line_chars_in)
  qed (use 1(3,4) in \<open>subst prev_word_loop.simps, auto simp: line_chars_in\<close>)+
qed

lemma run_start_loop_le: "run_start_loop chars cls col \<le> col"
  by (induction chars cls col rule: run_start_loop.induct) auto

lemma word_forward_returns:
  assumes "line < length ls"
  shows "\<exists>l c. word_forward ls line col = Some (l, c) \<and> in_buffer ls (l, c) \<and>
    (line < l \<or> l = line \<and> (col \<le> c \<or> l + 1 = length ls \<and> c = length (ls ! l) - 1))"
proof -
  define col1 where "col1 = (if col < length (ls ! line) \<and> char_class_of (ls ! line ! col) \<noteq> SpaceChar
    then skip_class (ls ! line) (char_class_of (ls ! line ! col)) col else col)"
  have "col \<le> col1" using skip_class_bounds by (simp add: col1_def)
  then show ?thesis
    using forward_loop_returns [OF assms, of col1] assms
    unfolding word_forward_def line_chars_in [OF assms] option.case Let_def col1_def [symmetric]
    by (elim exE conjE) (intro exI conjI, assumption, assumption, auto)
qed

lemma word_end_forward_returns:
  assumes "line < length ls"
  shows "\<exists>l c. word_end_forward ls line col = Some (l, c) \<and> in_buffer ls (l, c) \<and>
    (line < l \<or> l = line \<and> (col < c \<or> l + 1 = length ls \<and> c = length (ls ! l) - 1))"
proof -
  obtain r where r: "next_word_loop ls line (col + 1) = Some r"
    "end_ok ls line (col + 1) r"
    using next_word_loop_returns [OF assms] by blast
  show ?thesis
  proof (cases r)
    case (NoMoreWords l c)
    with r assms show ?thesis by (auto simp: word_end_forward_def in_buffer_def)
  next
    case (WordAt l c)
    with r obtain c' where "run_end_loop (ls ! l) c = Some c'" "c \<le> c'" "c' < length (ls ! l)"
      using run_end_loop_returns [of c "ls ! l"] by auto
    with WordAt r show ?thesis by (auto simp: word_end_forward_def in_buffer_def)
  qed
qed

lemma word_backward_returns:
  assumes "line < length ls" "col \<le> length (ls ! line)"
  shows "\<exists>l c. word_backward ls line col = Some (l, c) \<and> in_buffer ls (l, c) \<and>
    (l < line \<or> l = line \<and> (c < col \<or> c = 0))"
proof -
  obtain r where r: "prev_word_loop ls line col = Some r"
    "start_ok ls line col r"
    using prev_word_loop_returns [OF assms] by blast
  show ?thesis
  proof (cases r)
    case (StartAt l c)
    with r assms show ?thesis by (auto simp: word_backward_def in_buffer_def)
  next
    case (PrevWord l c)
    with r show ?thesis
      using run_start_loop_le [of "ls ! l" "char_class_of (ls ! l ! c)" c]
      by (auto simp: word_backward_def in_buffer_def)
  qed
qed

text \<open>
  C34. The word motions return. From every position of a buffer the loops of \<open>w\<close>, \<open>e\<close> and \<open>b\<close> end
  without a panic at a position on a character of the buffer (or at the start of an empty line);
  \<open>w\<close> and \<open>e\<close> never move backwards unless they stop at the end of the buffer, \<open>e\<close> moves strictly, and
  \<open>b\<close> moves strictly backwards until it reaches the start of a line.
\<close>

theorem word_motions_return:
  assumes "line < length ls" "col \<le> length (ls ! line)"
  shows "(\<exists>l c. word_forward ls line col = Some (l, c) \<and> in_buffer ls (l, c) \<and>
           (line < l \<or> l = line \<and> (col \<le> c \<or> l + 1 = length ls \<and> c = length (ls ! l) - 1))) \<and>
    (\<exists>l c. word_end_forward ls line col = Some (l, c) \<and> in_buffer ls (l, c) \<and>
           (line < l \<or> l = line \<and> (col < c \<or> l + 1 = length ls \<and> c = length (ls ! l) - 1))) \<and>
    (\<exists>l c. word_backward ls line col = Some (l, c) \<and> in_buffer ls (l, c) \<and>
           (l < line \<or> l = line \<and> (c < col \<or> c = 0)))"
  using word_forward_returns [OF assms(1)] word_end_forward_returns [OF assms(1)]
    word_backward_returns [OF assms] by blast

theorem word_motions_return_witness:
  "(\<exists>l c. word_backward [''set x'', ''''] 1 0 = Some (l, c) \<and> in_buffer [''set x'', ''''] (l, c) \<and>
           (l < 1 \<or> l = 1 \<and> (c < 0 \<or> c = 0)))"
  using word_motions_return [of 1 "[''set x'', '''']" 0] by simp

section \<open>Reading the clipboard sequence back\<close>

definition b64_index :: "char \<Rightarrow> nat" where
  "b64_index c = length (takeWhile (\<lambda>d. d \<noteq> c) B64_ALPHABET)"

definition chunk_byte :: "u32 \<Rightarrow> nat \<Rightarrow> u8" where
  "chunk_byte n k = ucast (drop_bit k n)"

definition sextets_word :: "char \<Rightarrow> char \<Rightarrow> char \<Rightarrow> char \<Rightarrow> u32" where
  "sextets_word c0 c1 c2 c3 =
     or (or (push_bit 18 (of_nat (b64_index c0))) (push_bit 12 (of_nat (b64_index c1))))
        (or (push_bit 6 (of_nat (b64_index c2))) (of_nat (b64_index c3)))"

fun base64_decode :: "string \<Rightarrow> u8 list" where
  "base64_decode (c0 # c1 # c2 # c3 # cs) =
     (if c2 = CHR ''='' then [chunk_byte (sextets_word c0 c1 CHR ''A'' CHR ''A'') 16]
      else if c3 = CHR ''='' then map (chunk_byte (sextets_word c0 c1 c2 CHR ''A'')) [16, 8]
      else map (chunk_byte (sextets_word c0 c1 c2 c3)) [16, 8, 0] @ base64_decode cs)"
| "base64_decode _ = []"

lemma b64_index_nth: "i < 64 \<Longrightarrow> b64_index (B64_ALPHABET ! i) = i"
proof -
  have "list_all (\<lambda>i. b64_index (B64_ALPHABET ! i) = i) [0 ..< 64]" by code_simp
  then show "i < 64 \<Longrightarrow> b64_index (B64_ALPHABET ! i) = i" by (simp add: list_all_iff)
qed

lemma b64_pad: "i < 64 \<Longrightarrow> B64_ALPHABET ! i \<noteq> CHR ''=''"
proof -
  have "list_all (\<lambda>i. B64_ALPHABET ! i \<noteq> CHR ''='') [0 ..< 64]" by code_simp
  then show "i < 64 \<Longrightarrow> B64_ALPHABET ! i \<noteq> CHR ''=''" by (simp add: list_all_iff)
qed

lemma sextet_less: "unat (and n (63 :: u32)) < 64"
proof -
  have "and n (63 :: u32) = take_bit 6 n" by (simp add: take_bit_eq_mask mask_numeral)
  then show ?thesis using take_bit_nat_less_exp [of 6 "unat n"] by (simp add: unsigned_take_bit_eq)
qed

lemma b64_char_props:
  "of_nat (b64_index (b64_char n k)) = and (drop_bit k n) (63 :: u32)" "b64_char n k \<noteq> CHR ''=''"
  using sextet_less [of "drop_bit k n"] by (simp_all add: b64_char_def b64_index_nth b64_pad)

lemma bit_63: "bit (63 :: u32) j \<longleftrightarrow> j < 6"
proof -
  have "(63 :: u32) = mask 6" by (simp add: mask_numeral)
  then show ?thesis by (simp only: bit_mask_iff) auto
qed

lemma sextets_recombine:
  assumes "n = take_bit 24 (n :: u32)"
  shows "or (or (push_bit 18 (and (drop_bit 18 n) 63)) (push_bit 12 (and (drop_bit 12 n) 63)))
    (or (push_bit 6 (and (drop_bit 6 n) 63)) (and n 63)) = n"
proof (rule bit_word_eqI)
  fix i assume "i < LENGTH(32)"
  have hi: "bit n i \<Longrightarrow> i < 24" using assms by (metis bit_take_bit_iff)
  consider "i < 6" | "6 \<le> i" "i < 12" | "12 \<le> i" "i < 18" | "18 \<le> i" "i < 24" | "24 \<le> i" by linarith
  then show "bit (or (or (push_bit 18 (and (drop_bit 18 n) 63)) (push_bit 12 (and (drop_bit 12 n) 63)))
      (or (push_bit 6 (and (drop_bit 6 n) 63)) (and n 63))) i = bit n i"
    by cases (use \<open>i < LENGTH(32)\<close> hi in \<open>simp_all only: bit_simps bit_63, auto\<close>)
qed

lemma chunk_word_small: "chunk_word b0 b1 b2 = take_bit 24 (chunk_word b0 b1 b2)"
  by (rule bit_word_eqI) (auto simp: chunk_word_def bit_simps dest: bit_imp_le_length)

lemma chunk_word_bytes:
  "chunk_byte (chunk_word b0 b1 b2) 16 = b0" "chunk_byte (chunk_word b0 b1 b2) 8 = b1"
  "chunk_byte (chunk_word b0 b1 b2) 0 = b2"
  by (rule bit_word_eqI, auto simp: chunk_byte_def chunk_word_def bit_simps dest: bit_imp_le_length)+

lemma sextets_word_chars:
  "sextets_word (b64_char (chunk_word b0 b1 b2) 18) (b64_char (chunk_word b0 b1 b2) 12)
     (b64_char (chunk_word b0 b1 b2) 6) (b64_char (chunk_word b0 b1 b2) 0) = chunk_word b0 b1 b2"
  using sextets_recombine [OF chunk_word_small, of b0 b1 b2] by (simp add: sextets_word_def b64_char_props)

lemma pad_chars: "b64_char (chunk_word b0 b1 0) 0 = CHR ''A''" "b64_char (chunk_word b0 0 0) 6 = CHR ''A''"
proof -
  have "and (drop_bit 0 (chunk_word b0 b1 0)) 63 = 0" "and (drop_bit 6 (chunk_word b0 0 0)) 63 = 0"
    by (rule bit_word_eqI, simp only: chunk_word_def bit_simps bit_63, auto simp: bit_simps)+
  then show "b64_char (chunk_word b0 b1 0) 0 = CHR ''A''" "b64_char (chunk_word b0 0 0) 6 = CHR ''A''"
    by (simp_all add: b64_char_def B64_ALPHABET_def)
qed

lemma base64_decode_encode: "base64_decode (base64_encode bs) = bs"
proof (induction bs rule: base64_encode.induct)
  case (2 b0)
  show ?case using sextets_word_chars [of b0 0 0] by (simp add: Let_def pad_chars chunk_word_bytes)
next
  case (3 b0 b1)
  show ?case
    using sextets_word_chars [of b0 b1 0] by (simp add: Let_def pad_chars chunk_word_bytes b64_char_props)
next
  case (4 b0 b1 b2 bs)
  then show ?case by (simp add: Let_def sextets_word_chars chunk_word_bytes b64_char_props)
qed simp

lemma base64_encode_inject: "base64_encode bs = base64_encode cs \<longleftrightarrow> bs = cs"
  by (metis base64_decode_encode)

end
