(* ===== verification/Code_Editor_Properties.thy ===== *)
theory Code_Editor_Properties
  imports Code_Editor Vim_Properties
begin

text \<open>
  The code editor under every sequence of keys, focus changes and new contents: its buffer and
  cursor stay consistent, so that an editable editor never panics; and the one key that makes a
  read-only editor panic.
\<close>

section \<open>Running a computation\<close>

text \<open>\<open>runs r P\<close>: the computation does not panic and its result has the property.\<close>

definition runs :: "'a option \<Rightarrow> ('a \<Rightarrow> bool) \<Rightarrow> bool" where
  "runs r P \<longleftrightarrow> (case r of Some x \<Rightarrow> P x | None \<Rightarrow> False)"

named_theorems runs_rules

lemma runs_Some [runs_rules]: "runs (Some x) P \<longleftrightarrow> P x"
  by (simp add: runs_def)

lemma runs_None [runs_rules]: "\<not> runs None P"
  by (simp add: runs_def)

lemma runs_bind [runs_rules]: "runs (Option.bind r f) P \<longleftrightarrow> runs r (\<lambda>x. runs (f x) P)"
  by (cases r) (auto simp: runs_def)

lemma runs_map [runs_rules]: "runs (map_option f r) P \<longleftrightarrow> runs r (\<lambda>x. P (f x))"
  by (cases r) (auto simp: runs_def)

lemma runs_if [runs_rules]: "runs (if b then r else r') P \<longleftrightarrow> (b \<longrightarrow> runs r P) \<and> (\<not> b \<longrightarrow> runs r' P)"
  by simp

lemma runs_case_prod [runs_rules]: "runs (case p of (x, y) \<Rightarrow> f x y) P \<longleftrightarrow> (\<forall>x y. p = (x, y) \<longrightarrow> runs (f x y) P)"
  by (cases p) simp

lemma runs_line_chars [runs_rules]: "runs (line_chars ls i) P \<longleftrightarrow> i < length ls \<and> P (ls ! i)"
  by (simp add: runs_def line_chars_def)

lemma runs_usize_sub [runs_rules]: "runs (usize_sub a b) P \<longleftrightarrow> b \<le> a \<and> P (a - b)"
  by (simp add: runs_def usize_sub_def)

lemma runs_slice_index [runs_rules]:
  "runs (slice_index xs i j) P \<longleftrightarrow> i \<le> j \<and> j \<le> length xs \<and> P (take (j - i) (drop i xs))"
  by (auto simp: runs_def slice_index_def)

lemma runs_vec_remove [runs_rules]:
  "runs (vec_remove xs i) P \<longleftrightarrow> i < length xs \<and> P (xs ! i, take i xs @ drop (Suc i) xs)"
  by (simp add: runs_def vec_remove_def)

lemma runs_vec_insert [runs_rules]:
  "runs (vec_insert xs i x) P \<longleftrightarrow> i \<le> length xs \<and> P (take i xs @ x # drop i xs)"
  by (simp add: runs_def vec_insert_def)

lemma runs_vec_splice [runs_rules]:
  "runs (vec_splice xs i j ys) P \<longleftrightarrow> i \<le> j + 1 \<and> j < length xs \<and> P (take i xs @ ys @ drop (j + 1) xs)"
  by (auto simp: runs_def vec_splice_def)

lemma vec_insert_all_eq:
  "i \<le> length xs \<Longrightarrow> vec_insert_all xs i ys = Some (take i xs @ ys @ drop i xs)"
  by (induction ys arbitrary: xs i) (simp_all add: vec_insert_def)

lemma runs_vec_insert_all [runs_rules]:
  "i \<le> length xs \<Longrightarrow> runs (vec_insert_all xs i ys) P \<longleftrightarrow> P (take i xs @ ys @ drop i xs)"
  by (simp add: vec_insert_all_eq runs_def)

lemma runs_active_chars [runs_rules]:
  "runs (active_chars ed) P \<longleftrightarrow> ed_active_line ed < length (ed_lines ed) \<and> P (ed_lines ed ! ed_active_line ed)"
  by (simp add: active_chars_def runs_rules)

lemma runs_clamp_normal [runs_rules]:
  "runs (clamp_normal ed) P \<longleftrightarrow> ed_active_line ed < length (ed_lines ed) \<and>
     P (ed\<lparr>ed_cursor_col := min (ed_cursor_col ed) (length (ed_lines ed ! ed_active_line ed) - 1)\<rparr>)"
  by (auto simp: clamp_normal_def runs_rules min_def)

lemma runs_clamp_cursor [runs_rules]:
  "runs (clamp_cursor ed) P \<longleftrightarrow> ed_active_line ed < length (ed_lines ed) \<and>
     P (ed\<lparr>ed_cursor_col := min (ed_cursor_col ed) (length (ed_lines ed ! ed_active_line ed))\<rparr>)"
  by (auto simp: clamp_cursor_def runs_rules min_def)

lemma runs_mono: "runs r P \<Longrightarrow> (\<And>x. P x \<Longrightarrow> Q x) \<Longrightarrow> runs r Q"
  by (auto simp: runs_def split: option.splits)

lemma runs_iff: "runs r P \<longleftrightarrow> (\<exists>x. r = Some x \<and> P x)"
  by (auto simp: runs_def split: option.splits)

lemma min_pred_le [simp]: "min a (b - Suc 0) \<le> b"
  by linarith

section \<open>The invariant\<close>

text \<open>
  The active line exists; an editable editor's cursor and the anchor of its selection are at most one
  past the end of their lines; the undo snapshot is a buffer with its active line; without vim there
  are no modes, and a read-only editor is never in Insert mode.
\<close>

definition ed_inv :: "editor \<Rightarrow> bool" where
  "ed_inv ed \<longleftrightarrow>
     ed_active_line ed < length (ed_lines ed) \<and>
     (\<not> ed_disabled ed \<longrightarrow> ed_cursor_col ed \<le> length (ed_lines ed ! ed_active_line ed)) \<and>
     (\<forall>ls l c. ed_undo ed = Some (ls, l, c) \<longrightarrow> l < length ls) \<and>
     (\<forall>linewise. ed_mode ed = Visual linewise \<longrightarrow>
        (\<exists>l c. ed_visual_anchor ed = Some (l, c) \<and> l < length (ed_lines ed) \<and>
           (\<not> ed_disabled ed \<longrightarrow> c \<le> length (ed_lines ed ! l)))) \<and>
     (\<not> ed_vim ed \<longrightarrow> ed_mode ed = Normal) \<and>
     (ed_disabled ed \<longrightarrow> ed_mode ed \<noteq> Insert)"

text \<open>What every key keeps, besides the invariant.\<close>

definition kept :: "editor \<Rightarrow> editor \<Rightarrow> bool" where
  "kept ed ed' \<longleftrightarrow> ed_inv ed' \<and> ed_disabled ed' = ed_disabled ed \<and> ed_vim ed' = ed_vim ed"

lemma ed_inv_new: "ed_inv (editor_new lang vim disabled)"
  by (simp add: ed_inv_def editor_new_def)

lemma kept_trans: "kept a b \<Longrightarrow> kept b c \<Longrightarrow> kept a c"
  by (simp add: kept_def)

lemmas inv_simps = kept_def ed_inv_def snapshot_undo_def set_register_def enter_insert_def enter_visual_def Let_def

section \<open>Every operation keeps the invariant\<close>

lemma set_content_kept: "ed_inv ed \<Longrightarrow> runs (set_content s ed) (kept ed)"
  by (auto simp: set_content_def runs_rules inv_simps Suc_le_eq)

lemma insert_at_runs [runs_rules]:
  "runs (insert_at line idx s ed) P \<longleftrightarrow> line < length (ed_lines ed) \<and>
     P (ed\<lparr>ed_lines := (ed_lines ed)[line := take idx (ed_lines ed ! line) @ s @ drop idx (ed_lines ed ! line)]\<rparr>)"
  by (simp add: insert_at_def runs_rules)

lemma remove_range_runs [runs_rules]:
  "runs (remove_range line start0 stop0 ed) P \<longleftrightarrow> line < length (ed_lines ed) \<and>
     (let target = ed_lines ed ! line; stop = min stop0 (length target); start = min start0 stop in
      P (take (stop - start) (drop start target),
         ed\<lparr>ed_lines := (ed_lines ed)[line := take start target @ drop stop target]\<rparr>))"
  by (simp add: remove_range_def runs_rules Let_def)

subsection \<open>Plain editing\<close>

text \<open>Plain editing touches neither the mode nor the undo snapshot.\<close>

definition edited :: "editor \<Rightarrow> editor \<Rightarrow> bool" where
  "edited ed ed' \<longleftrightarrow> kept ed ed' \<and> ed_mode ed' = ed_mode ed \<and> ed_undo ed' = ed_undo ed"

lemma edited_kept: "runs r (edited ed) \<Longrightarrow> runs r (kept ed)"
  by (elim runs_mono) (simp add: edited_def)

lemma edited_pair_kept: "runs r (\<lambda>(x, ed'). edited ed ed') \<Longrightarrow> runs r (\<lambda>(x, ed'). kept ed ed')"
  by (elim runs_mono) (auto simp: edited_def)

lemmas edit_simps = edited_def inv_simps

definition not_visual :: "editor \<Rightarrow> bool" where
  "not_visual ed \<longleftrightarrow> (\<forall>linewise. ed_mode ed \<noteq> Visual linewise)"

lemma type_text_edited: "ed_inv ed \<Longrightarrow> not_visual ed \<Longrightarrow> \<not> ed_disabled ed \<Longrightarrow> runs (type_text s ed) (edited ed)"
  by (auto simp: type_text_def runs_rules edit_simps not_visual_def)

lemma edit_space_edited: "ed_inv ed \<Longrightarrow> not_visual ed \<Longrightarrow> \<not> ed_disabled ed \<Longrightarrow> runs (edit_space now ed) (edited ed)"
  by (auto simp: edit_space_def type_text_def runs_rules edit_simps not_visual_def split: option.splits)

lemma edit_enter_edited: "ed_inv ed \<Longrightarrow> not_visual ed \<Longrightarrow> \<not> ed_disabled ed \<Longrightarrow> runs (edit_enter sx ed) (edited ed)"
  by (auto simp: edit_enter_def runs_rules edit_simps not_visual_def nth_append)

lemma edit_backspace_edited: "ed_inv ed \<Longrightarrow> not_visual ed \<Longrightarrow> \<not> ed_disabled ed \<Longrightarrow> runs (edit_backspace ed) (edited ed)"
  by (auto simp: edit_backspace_def runs_rules edit_simps not_visual_def nth_append)

lemma edit_delete_edited: "ed_inv ed \<Longrightarrow> not_visual ed \<Longrightarrow> \<not> ed_disabled ed \<Longrightarrow> runs (edit_delete ed) (edited ed)"
  by (auto simp: edit_delete_def runs_rules edit_simps not_visual_def nth_append)

lemma edit_moves_edited:
  assumes "ed_inv ed"
  shows "runs (edit_up ed) (edited ed)" "runs (edit_down ed) (edited ed)"
    "runs (step_left ed) (edited ed)" "runs (step_right ed) (edited ed)"
  using assms
  by (auto simp: edit_up_def edit_down_def step_left_def step_right_def runs_rules edit_simps)

lemma handle_edit_key_edited:
  assumes "ed_inv ed" "not_visual ed"
  shows "runs (handle_edit_key sx now m k ed) (\<lambda>(_, ed'). edited ed ed')"
proof -
  have pair: "runs (map_option (Pair Consumed) r) (\<lambda>(_, ed'). edited ed ed') \<longleftrightarrow> runs r (edited ed)" for r
    by (simp add: runs_rules)
  define ed1 where "ed1 = (if plain_mod m \<and> k = KChar blank then ed else ed\<lparr>ed_last_space := None\<rparr>)"
  have inv: "ed_inv ed1" "not_visual ed1" "edited ed1 = edited ed" "ed_disabled ed1 = ed_disabled ed"
    using assms by (auto simp: ed1_def edited_def kept_def ed_inv_def not_visual_def fun_eq_iff)
  note keeps = edit_moves_edited [OF inv(1), unfolded inv(3)]
    edit_enter_edited [OF inv(1,2), unfolded inv(3,4)] edit_backspace_edited [OF inv(1,2), unfolded inv(3,4)]
    edit_delete_edited [OF inv(1,2), unfolded inv(3,4)] edit_space_edited [OF inv(1,2), unfolded inv(3,4)]
    type_text_edited [OF inv(1,2), unfolded inv(3,4)]
  have self: "edited ed ed1" using inv(1) by (auto simp: edited_def kept_def ed1_def)
  show ?thesis
    unfolding handle_edit_key_def Let_def ed1_def [symmetric]
    using keeps self inv(4) by (auto simp: pair runs_Some split: key_code.split)
qed

lemma handle_insert_key_edited:
  assumes "ed_inv ed" "ed_mode ed = Insert"
  shows "runs (handle_insert_key sx now m k ed)
    (\<lambda>(_, ed'). if m = ModNone \<and> k = KEsc then kept ed ed' \<and> ed_mode ed' = Normal \<and> ed_undo ed' = ed_undo ed
       else edited ed ed')"
proof -
  have nv: "not_visual ed" and dis: "\<not> ed_disabled ed" using assms by (auto simp: not_visual_def ed_inv_def)
  have "runs (insert_esc ed) (\<lambda>ed'. kept ed ed' \<and> ed_mode ed' = Normal \<and> ed_undo ed' = ed_undo ed)"
    "runs (insert_backtab ed) (edited ed)"
    using assms dis by (auto simp: insert_esc_def insert_backtab_def runs_rules edit_simps)
  moreover have "runs (type_text ''    '' (ed\<lparr>ed_last_space := None\<rparr>)) (edited ed)"
    using assms dis by (auto simp: type_text_def runs_rules edit_simps)
  ultimately show ?thesis
    using handle_edit_key_edited [OF assms(1) nv, of sx now m k]
    by (cases "m = ModNone \<and> k = KEsc") (auto simp: handle_insert_key_def runs_map split: if_split)
qed

lemma handle_insert_key_kept:
  assumes "ed_inv ed" "ed_mode ed = Insert"
  shows "runs (handle_insert_key sx now m k ed) (\<lambda>(_, ed'). kept ed ed')"
  by (rule runs_mono [OF handle_insert_key_edited [OF assms]]) (auto simp: edited_def split: if_splits)

subsection \<open>Motions\<close>

definition cursor_in :: "editor \<Rightarrow> bool" where
  "cursor_in ed \<longleftrightarrow> ed_cursor_col ed \<le> length (ed_lines ed ! ed_active_line ed)"

lemma runs_in_buffer:
  "\<exists>l c. r = Some (l, c) \<and> in_buffer ls (l, c) \<and> Q l c \<Longrightarrow>
     runs r (\<lambda>(l, c). l < length ls \<and> c \<le> length (ls ! l) - 1)"
  by (auto simp: runs_rules in_buffer_def)

lemma move_word_kept:
  assumes "ed_inv ed"
  shows "runs (move_word word_forward ed) (kept ed)" "runs (move_word word_end_forward ed) (kept ed)"
    "cursor_in ed \<Longrightarrow> runs (move_word word_backward ed) (kept ed)"
proof -
  have l: "ed_active_line ed < length (ed_lines ed)" using assms by (simp add: ed_inv_def)
  have ok: "runs (motion (ed_lines ed) (ed_active_line ed) (ed_cursor_col ed))
      (\<lambda>(l, c). l < length (ed_lines ed) \<and> c \<le> length (ed_lines ed ! l) - 1) \<Longrightarrow>
    runs (move_word motion ed) (kept ed)" for motion
    using assms unfolding move_word_def runs_bind
    by (elim runs_mono) (auto simp: runs_rules inv_simps)
  show "runs (move_word word_forward ed) (kept ed)"
    by (rule ok, rule runs_in_buffer, rule word_forward_returns [OF l])
  show "runs (move_word word_end_forward ed) (kept ed)"
    by (rule ok, rule runs_in_buffer, rule word_end_forward_returns [OF l])
  show "runs (move_word word_backward ed) (kept ed)" if "cursor_in ed"
    by (rule ok, rule runs_in_buffer, rule word_backward_returns [OF l that [unfolded cursor_in_def]])
qed

lemma clamp_kept: "kept ed ed1 \<Longrightarrow> runs (clamp_normal ed1) (kept ed)"
  by (auto simp: runs_rules inv_simps)

lemma bind_clamp_kept: "runs r (kept ed) \<Longrightarrow> runs (Option.bind r clamp_normal) (kept ed)"
  using clamp_kept by (auto simp: runs_bind elim: runs_mono)

text \<open>A key that is handled or passed on, keeping the invariant either way.\<close>

definition kept_opt :: "editor \<Rightarrow> editor option \<Rightarrow> bool" where
  "kept_opt ed r \<longleftrightarrow> (case r of Some ed' \<Rightarrow> kept ed ed' | None \<Rightarrow> True)"

lemma kept_opt_simps [simp]: "kept_opt ed (Some ed') = kept ed ed'" "kept_opt ed None"
  by (simp_all add: kept_opt_def)

lemma vertical_kept: "ed_inv ed \<Longrightarrow> runs (move_up ed) (kept ed)" "ed_inv ed \<Longrightarrow> runs (move_down ed) (kept ed)"
  by (auto simp: move_up_def move_down_def runs_rules inv_simps)

lemma motion_char_kept:
  assumes "ed_inv ed" "c = CHR ''b'' \<Longrightarrow> cursor_in ed"
  shows "runs (motion_char c ed) (kept_opt ed)"
proof -
  have "runs (Some (Some (ed\<lparr>ed_cursor_col := ed_cursor_col ed - 1\<rparr>))) (kept_opt ed)"
    "runs (clamp_normal (ed\<lparr>ed_cursor_col := ed_cursor_col ed + 1\<rparr>)) (kept ed)"
    "runs (Some (Some (ed\<lparr>ed_cursor_col := 0\<rparr>))) (kept_opt ed)"
    "runs (active_chars ed) (\<lambda>chars. kept ed (ed\<lparr>ed_cursor_col := length chars - 1\<rparr>))"
    "runs (usize_sub (length (ed_lines ed)) 1) (\<lambda>last. kept ed (ed\<lparr>ed_active_line := last, ed_cursor_col := 0\<rparr>))"
    using assms(1) by (auto simp: runs_rules inv_simps)
  moreover note vertical_kept [OF assms(1)] bind_clamp_kept [OF move_word_kept(1) [OF assms(1)]]
    move_word_kept(2,3) [OF assms(1)]
  ultimately show ?thesis using assms(2) by (simp add: motion_char_def runs_map runs_Some)
qed

lemma apply_motion_kept:
  assumes "ed_inv ed" "k = KChar CHR ''b'' \<Longrightarrow> plain_mod m \<Longrightarrow> cursor_in ed"
  shows "runs (apply_motion m k ed) (kept_opt ed)"
  using assms vertical_kept [OF assms(1)] edit_moves_edited(3,4) [OF assms(1), THEN edited_kept, THEN bind_clamp_kept] motion_char_kept [OF assms(1)]
  by (auto simp: apply_motion_def runs_map runs_Some split: key_code.split)

subsection \<open>Normal mode\<close>

lemma goto_top_kept: "ed_inv ed \<Longrightarrow> runs (goto_top ed) (kept ed)"
  by (auto simp: goto_top_def runs_rules inv_simps)

lemma yank_current_line_kept: "ed_inv ed \<Longrightarrow> runs (yank_current_line ed) (kept ed)"
  by (auto simp: yank_current_line_def runs_rules inv_simps)

lemma delete_current_line_kept: "ed_inv ed \<Longrightarrow> not_visual ed \<Longrightarrow> runs (delete_current_line ed) (kept ed)"
  by (auto simp: delete_current_line_def runs_rules inv_simps not_visual_def)

lemma delete_char_kept: "ed_inv ed \<Longrightarrow> not_visual ed \<Longrightarrow> runs (delete_char ed) (kept ed)"
  by (auto simp: delete_char_def runs_rules inv_simps not_visual_def)

lemma undo_key_kept: "ed_inv ed \<Longrightarrow> not_visual ed \<Longrightarrow> runs (undo_key ed) (kept ed)"
  by (auto simp: undo_key_def runs_rules inv_simps not_visual_def split: option.splits)

lemma paste_linewise_kept:
  assumes "ed_inv ed" "not_visual ed"
  shows "runs (paste_linewise after s ed) (kept ed)"
proof -
  obtain part parts where "str_split newline s = part # parts" by (cases "str_split newline s") auto
  with assms show ?thesis by (auto simp: paste_linewise_def runs_rules inv_simps not_visual_def nth_append)
qed

lemma paste_charwise_kept:
  assumes "ed_inv ed" "not_visual ed" "\<not> ed_disabled ed"
  shows "runs (Option.bind (paste_charwise after s ed) clamp_normal) (kept ed)"
  using assms
  by (auto simp: paste_charwise_def runs_rules inv_simps not_visual_def nth_append split: list.split)

lemma paste_kept:
  assumes "ed_inv ed" "not_visual ed" "\<not> ed_disabled ed"
  shows "runs (paste after ed) (kept ed)"
proof (cases "ed_register ed")
  case None
  with assms show ?thesis by (simp add: paste_def runs_rules kept_def)
next
  case (Some r)
  obtain s kind where r: "r = (s, kind)" by (cases r)
  have inv: "ed_inv (snapshot_undo ed)" "not_visual (snapshot_undo ed)" "\<not> ed_disabled (snapshot_undo ed)"
    "kept (snapshot_undo ed) = kept ed"
    using assms by (auto simp: inv_simps not_visual_def fun_eq_iff)
  show ?thesis
    using Some r bind_clamp_kept [OF paste_linewise_kept [OF inv(1,2), of after s]]
      paste_charwise_kept [OF inv(1-3), of after s]
    by (simp add: paste_def Let_def inv(4))
qed

lemma open_line_kept:
  assumes "ed_inv ed" "not_visual ed"
  shows "runs (open_line_below sx ed) (kept ed)" "runs (open_line_above ed) (kept ed)"
  using assms by (auto simp: open_line_below_def open_line_above_def runs_rules inv_simps not_visual_def nth_append)

lemma normal_edit_kept:
  assumes "ed_inv ed" "not_visual ed" "\<not> ed_disabled ed" "ed_vim ed"
  shows "runs (normal_edit sx c ed) (kept ed)"
proof -
  let ?ed = "snapshot_undo ed"
  have inv: "ed_inv ?ed" "not_visual ?ed" "kept ?ed = kept ed"
    using assms by (auto simp: inv_simps not_visual_def fun_eq_iff)
  have ins: "kept ed ed' \<Longrightarrow> kept ed (enter_insert ed')" for ed'
    using assms(3,4) by (auto simp: inv_simps)
  have "runs (map_option enter_insert (open_line_below sx ?ed)) (kept ed)"
    "runs (map_option enter_insert (open_line_above ?ed)) (kept ed)"
    unfolding runs_map by (rule runs_mono [OF _ ins], rule open_line_kept [OF inv(1,2), unfolded inv(3)], assumption)+
  moreover have "length (takeWhile is_space l) \<le> length l" for l by (rule length_takeWhile_le)
  moreover note delete_char_kept [OF assms(1,2)] paste_kept [OF assms(1-3)] undo_key_kept [OF assms(1,2)]
  moreover have "kept ed ed" using assms by (simp add: kept_def)
  ultimately show ?thesis
    using assms by (auto simp: normal_edit_def runs_rules enter_insert_def snapshot_undo_def kept_def ed_inv_def)
qed

lemma handle_normal_key_kept:
  assumes "ed_inv ed" "ed_mode ed = Normal" "ed_vim ed"
    and "k = KChar CHR ''b'' \<Longrightarrow> plain_mod m \<Longrightarrow> cursor_in ed"
  shows "runs (handle_normal_key sx m k ed) (\<lambda>(_, ed'). kept ed ed')"
proof -
  have nv: "not_visual ed" using assms by (simp add: not_visual_def)
  have chord: "runs (normal_chord c ed) (kept ed)" for c
  proof -
    let ?ed = "ed\<lparr>ed_pending := None\<rparr>"
    have "ed_inv ?ed" "not_visual ?ed" "kept ?ed = kept ed" "kept ed (ed\<lparr>ed_pending := p\<rparr>)" for p
      using assms(1) nv by (auto simp: inv_simps not_visual_def fun_eq_iff)
    then show ?thesis
      using goto_top_kept [of ?ed] delete_current_line_kept [of ?ed] yank_current_line_kept [of ?ed]
      by (simp add: normal_chord_def Let_def runs_Some)
  qed
  let ?ed = "ed\<lparr>ed_pending := None\<rparr>"
  have inv: "ed_inv ?ed" "not_visual ?ed" "kept ?ed = kept ed" "kept ed ?ed" "kept ed (enter_visual lw ?ed)" "ed_vim ?ed" for lw
    using assms nv by (auto simp: inv_simps not_visual_def fun_eq_iff)
  have motion: "runs (apply_motion m k ?ed) (kept_opt ed)"
    using apply_motion_kept [OF inv(1), of k m] assms(4) kept_opt_def [of ?ed, unfolded inv(3)]
    by (simp add: cursor_in_def kept_opt_def [abs_def] inv(3))
  show ?thesis
  proof (cases "m = ModNone \<and> (k = KChar CHR ''g'' \<or> k = KChar CHR ''d'' \<or> k = KChar CHR ''y'')")
    case True
    then show ?thesis using chord by (simp add: handle_normal_key_def runs_map)
  next
    case False
    from motion show ?thesis
      unfolding handle_normal_key_def if_not_P [OF False] Let_def runs_bind
    proof (rule runs_mono)
      fix r assume "kept_opt ed r"
      then show "runs (case r of Some ed1 \<Rightarrow> Some (Consumed, ed1)
         | None \<Rightarrow> (case k of
                KChar c \<Rightarrow>
                  if m = ModNone \<and> unshifted_edit c \<or> plain_mod m \<and> shifted_edit c
                  then map_option (Pair Consumed) (if ed_disabled ?ed then Some ?ed else normal_edit sx c ?ed)
                  else if m = ModNone \<and> c = CHR ''v'' then Some (Consumed, enter_visual False ?ed)
                  else if plain_mod m \<and> c = CHR ''V'' then Some (Consumed, enter_visual True ?ed)
                  else if plain_mod m then Some (Consumed, ?ed)
                  else Some (Unhandled m k, ?ed)
              | _ \<Rightarrow> Some (Unhandled m k, ?ed))) (\<lambda>(_, ed'). kept ed ed')"
        using inv(4,5) normal_edit_kept [OF inv(1,2) _ inv(6), unfolded inv(3)]
        by (auto simp: runs_map runs_Some split: option.split key_code.split)
    qed
  qed
qed

subsection \<open>Visual mode\<close>

definition selection_ok :: "editor \<Rightarrow> (nat \<times> nat) \<times> (nat \<times> nat) \<Rightarrow> bool" where
  "selection_ok ed sel \<longleftrightarrow> fst (fst sel) \<le> fst (snd sel) \<and> fst (snd sel) < length (ed_lines ed)"

lemma selection_range_ok:
  assumes "ed_inv ed"
  shows "runs (selection_range ed) (\<lambda>r. \<forall>sel. r = Some sel \<longrightarrow> selection_ok ed sel)"
  using assms
  by (auto simp: selection_range_def runs_rules ed_inv_def selection_ok_def pos_le_def Let_def
      split: option.split vim_mode.split)

lemma all_some_lines:
  "j \<le> length ls \<Longrightarrow> all_some (map (line_chars ls) [i ..< j]) = Some (map (\<lambda>l. ls ! l) [i ..< j])"
  by (rule all_some_cong_Some) (simp add: line_chars_in)

lemma extract_charwise_runs:
  assumes "selection_ok ed (start, stop)"
  shows "runs (extract_charwise start stop ed) (\<lambda>_. True)"
proof -
  have b: "fst start \<le> fst stop" "fst stop < length (ed_lines ed)" using assms by (simp_all add: selection_ok_def)
  then show ?thesis by (auto simp: extract_charwise_def runs_rules Let_def all_some_lines)
qed

lemma selection_text_runs: "selection_ok ed sel \<Longrightarrow> runs (selection_text sel ed) (\<lambda>_. True)"
  using extract_charwise_runs by (cases sel) (simp add: selection_text_def selection_ok_def runs_rules)

lemma yank_selection_kept:
  assumes "ed_inv ed"
  shows "runs (yank_selection ed) (\<lambda>ed'. kept ed ed' \<and> selection_range ed' = selection_range ed)"
  unfolding yank_selection_def runs_bind
proof (rule runs_mono [OF selection_range_ok [OF assms]])
  fix r assume r: "\<forall>sel. r = Some sel \<longrightarrow> selection_ok ed sel"
  have reg: "kept ed (set_register s kind ed) \<and> selection_range (set_register s kind ed) = selection_range ed" for s kind
    using assms by (auto simp: inv_simps selection_range_def split: option.split vim_mode.split)
  have "kept ed ed" using assms by (simp add: kept_def)
  with reg r show "runs (case r of None \<Rightarrow> Some ed
        | Some span \<Rightarrow> Option.bind (selection_text span ed) (\<lambda>s. Some (set_register s (selection_kind ed) ed)))
      (\<lambda>ed'. kept ed ed' \<and> selection_range ed' = selection_range ed)"
    by (cases r) (auto simp: runs_Some runs_bind intro: runs_mono [OF selection_text_runs])
qed

lemma enter_normal_kept:
  assumes "ed_inv ed"
  shows "runs (enter_normal_at_selection_start ed) (kept ed)"
  unfolding enter_normal_at_selection_start_def runs_bind
  by (rule runs_mono [OF selection_range_ok [OF assms]])
    (use assms in \<open>auto simp: runs_rules inv_simps selection_ok_def split: option.split\<close>)

lemma cut_lines_kept:
  assumes "first \<le> final" "final < length (ed_lines ed)"
  shows "runs (cut_linewise first final ed) (\<lambda>ed'. ed_active_line ed' < length (ed_lines ed') \<and>
    (\<exists>ls l c. ed' = ed\<lparr>ed_lines := ls, ed_active_line := l, ed_cursor_col := c\<rparr>))"
  using assms by (auto simp: cut_linewise_def runs_rules)

lemma cut_chars_kept:
  assumes "fst start \<le> fst stop" "fst stop < length (ed_lines ed)"
  shows "runs (cut_charwise start stop ed) (\<lambda>ed'. ed_active_line ed' < length (ed_lines ed') \<and>
    (\<exists>ls l c. ed' = ed\<lparr>ed_lines := ls, ed_active_line := l, ed_cursor_col := c\<rparr>))"
  using assms by (auto simp: cut_charwise_def runs_rules Let_def)

lemma delete_selection_kept:
  assumes "ed_inv ed"
  shows "runs (delete_selection ed) (kept ed)"
proof (cases "ed_disabled ed")
  case True
  with assms show ?thesis by (simp add: delete_selection_def runs_Some kept_def)
next
  case False
  have "runs (selection_range ed) (\<lambda>r. \<forall>sel. r = Some sel \<longrightarrow> selection_ok ed sel)"
    by (rule selection_range_ok [OF assms])
  then obtain r where r: "selection_range ed = Some r" "\<And>sel. r = Some sel \<Longrightarrow> selection_ok ed sel"
    by (auto simp: runs_iff)
  show ?thesis
  proof (cases r)
    case None
    with r False assms show ?thesis by (simp add: delete_selection_def runs_Some kept_def)
  next
    case (Some sel)
    obtain start stop where sel: "sel = (start, stop)" by (cases sel)
    let ?ed1 = "snapshot_undo ed"
    have ok: "selection_ok ?ed1 (start, stop)"
      using r(2) [OF Some] sel by (simp add: selection_ok_def snapshot_undo_def)
    then obtain s where s: "selection_text (start, stop) ?ed1 = Some s"
      using selection_text_runs [OF ok] by (auto simp: runs_iff)
    define ed2 where "ed2 = set_register s (selection_kind ?ed1) ?ed1"
    have "runs (if is_visual_linewise ed2 then cut_linewise (fst start) (fst stop) ed2 else cut_charwise start stop ed2)
        (\<lambda>ed'. ed_active_line ed' < length (ed_lines ed') \<and>
          (\<exists>ls l c. ed' = ed2\<lparr>ed_lines := ls, ed_active_line := l, ed_cursor_col := c\<rparr>))"
      using ok cut_lines_kept [of "fst start" "fst stop" ed2] cut_chars_kept [of start stop ed2]
      by (simp add: ed2_def selection_ok_def set_register_def)
    then obtain ed3 where ed3: "(if is_visual_linewise ed2 then cut_linewise (fst start) (fst stop) ed2
        else cut_charwise start stop ed2) = Some ed3"
      "ed_active_line ed3 < length (ed_lines ed3)"
      "\<exists>ls l c. ed3 = ed2\<lparr>ed_lines := ls, ed_active_line := l, ed_cursor_col := c\<rparr>" by (auto simp: runs_iff)
    have "runs (clamp_normal (ed3\<lparr>ed_mode := Normal, ed_visual_anchor := None\<rparr>)) (kept ed)"
      using ed3(2,3) assms by (auto simp: runs_rules inv_simps ed2_def)
    with r(1) Some sel False s ed3(1) show ?thesis
      by (cases "is_visual_linewise ed2") (simp_all add: delete_selection_def Let_def ed2_def [symmetric])
  qed
qed

lemma handle_visual_key_kept:
  assumes "ed_inv ed" "ed_mode ed = Visual linewise" "ed_vim ed"
    and "k = KChar CHR ''b'' \<Longrightarrow> plain_mod m \<Longrightarrow> cursor_in ed"
  shows "runs (handle_visual_key m k ed) (\<lambda>(_, ed'). kept ed ed')"
proof -
  let ?ed = "ed\<lparr>ed_pending := None\<rparr>"
  have inv: "ed_inv ?ed" "kept ?ed = kept ed" "kept ed ?ed" "kept ed (?ed\<lparr>ed_mode := Visual True\<rparr>)"
    "kept ed (ed\<lparr>ed_pending := p\<rparr>)" for p
    using assms by (auto simp: inv_simps fun_eq_iff)
  have "runs (leave_visual ?ed) (kept ed)"
    using assms by (auto simp: leave_visual_def runs_rules inv_simps)
  moreover have "runs (Option.bind (yank_selection ?ed) enter_normal_at_selection_start) (kept ed)"
    unfolding runs_bind inv(2) [symmetric]
    by (rule runs_mono [OF yank_selection_kept [OF inv(1)]])
      (auto intro!: runs_mono [OF enter_normal_kept] elim: kept_trans simp: kept_def)
  moreover have "runs (apply_motion m k ?ed) (kept_opt ed)"
    using apply_motion_kept [OF inv(1), of k m] assms(4) kept_opt_def [of ?ed, unfolded inv(2)]
    by (simp add: cursor_in_def kept_opt_def [abs_def] inv(2))
  then have "runs (apply_motion m k ?ed) (\<lambda>moved. case (case moved of
              Some ed1 \<Rightarrow> (Consumed, ed1)
            | None \<Rightarrow>
                (case k of
                   KChar _ \<Rightarrow> if plain_mod m then (Consumed, ?ed) else (Unhandled m k, ?ed)
                 | _ \<Rightarrow> (Unhandled m k, ?ed))) of (_, ed') \<Rightarrow> kept ed ed')"
    by (rule runs_mono) (use inv(3) in \<open>auto split: option.split key_code.split\<close>)
  ultimately show ?thesis
    using delete_selection_kept [OF inv(1), unfolded inv(2)] goto_top_kept [OF inv(1), unfolded inv(2)] inv(3-5)
    by (simp add: handle_visual_key_def Let_def runs_map runs_bind runs_Some)
qed

subsection \<open>Paging, focus and events\<close>

lemma page_move_kept: "ed_inv ed \<Longrightarrow> runs (page_move down rows ed) (kept ed)"
  by (auto simp: page_move_def runs_rules inv_simps)

lemma handle_readonly_nav_kept:
  assumes "ed_inv ed"
  shows "runs (handle_readonly_nav m k ed) (kept_opt ed)"
proof -
  have "runs (active_chars ed) (\<lambda>chars. kept ed
      (ed\<lparr>ed_h_scroll := length chars - 1 + 1 - ed_content_width ed, ed_cursor_col := length chars - 1\<rparr>))"
    using assms by (auto simp: runs_rules inv_simps)
  moreover have "ed_disabled ed \<Longrightarrow> kept ed (scroll_to h ed)" for h
    using assms by (auto simp: scroll_to_def inv_simps)
  ultimately show ?thesis
    using page_move_kept [OF assms] by (simp add: handle_readonly_nav_def runs_map runs_Some runs_bind Let_def)
qed

lemma set_focused_kept:
  assumes "ed_inv ed"
  shows "runs (set_focused sx focus ed) (kept ed)"
proof -
  have self: "kept ed ed" using assms by (simp add: kept_def)
  have fin: "kept ed ed1 \<Longrightarrow>
      kept ed ((if \<not> focus then ed1\<lparr>ed_mode := Normal, ed_visual_anchor := None, ed_pending := None\<rparr> else ed1)\<lparr>ed_focused := focus\<rparr>)"
    for ed1 by (auto simp: inv_simps)
  show ?thesis
    unfolding set_focused_def runs_bind Let_def runs_Some
    by (rule runs_mono [OF _ fin])
      (use self set_content_kept [OF assms] in \<open>auto simp: runs_Some split: option.split\<close>)
qed

text \<open>
  The one key that is not safe: a word motion backwards in a read-only editor whose cursor is past
  the end of its line.
\<close>

definition stray_backward :: "editor_event \<Rightarrow> editor \<Rightarrow> bool" where
  "stray_backward e ed \<longleftrightarrow>
     (\<exists>now m. e = Key now m (KChar CHR ''b'') \<and> plain_mod m) \<and> ed_disabled ed \<and> ed_vim ed \<and> \<not> cursor_in ed"

lemma handle_events_kept:
  assumes "ed_inv ed" "\<not> stray_backward (Key now m k) ed"
  shows "runs (handle_events sx now m k ed) (\<lambda>(_, ed'). kept ed ed')"
proof -
  have b: "ed_vim ed \<Longrightarrow> k = KChar CHR ''b'' \<Longrightarrow> plain_mod m \<Longrightarrow> cursor_in ed"
    using assms(1,2) by (auto simp: stray_backward_def cursor_in_def ed_inv_def)
  have rest: "runs (if \<not> ed_vim ed then handle_edit_key sx now m k ed
      else (case ed_mode ed of Insert \<Rightarrow> handle_insert_key sx now m k ed
        | Normal \<Rightarrow> handle_normal_key sx m k ed | Visual _ \<Rightarrow> handle_visual_key m k ed)) (\<lambda>(_, ed'). kept ed ed')"
  proof (cases "ed_vim ed")
    case False
    then have "not_visual ed" using assms(1) by (simp add: ed_inv_def not_visual_def)
    with False show ?thesis using handle_edit_key_edited [OF assms(1), THEN edited_pair_kept] by simp
  next
    case True
    then show ?thesis
      using handle_insert_key_kept [OF assms(1)] handle_normal_key_kept [OF assms(1) _ True]
        handle_visual_key_kept [OF assms(1) _ True] b
      by (auto split: vim_mode.split)
  qed
  have nav: "runs (if ed_mode ed \<noteq> Insert then handle_readonly_nav m k ed else Some None) (kept_opt ed)"
    using handle_readonly_nav_kept [OF assms(1)] by (simp add: runs_Some)
  show ?thesis
    unfolding handle_events_def runs_bind
    by (rule runs_mono [OF nav]) (use rest in \<open>auto simp: runs_Some split: option.split\<close>)
qed

section \<open>No panic\<close>

lemma editor_apply_kept:
  assumes "ed_inv ed" "\<not> stray_backward e ed"
  shows "runs (editor_apply sx e ed) (kept ed)"
proof (cases e)
  case (Key now m k)
  show ?thesis
    unfolding Key editor_apply.simps runs_map
    by (rule runs_mono [OF handle_events_kept]) (use assms Key in auto)
qed (use assms set_focused_kept set_content_kept in auto)

lemma editor_run_kept:
  "ed_inv ed \<Longrightarrow> \<not> ed_disabled ed \<Longrightarrow> runs (editor_run sx es ed) (kept ed)"
proof (induction es arbitrary: ed)
  case (Cons e es)
  have "\<not> stray_backward e ed" using Cons.prems by (simp add: stray_backward_def)
  then have "runs (editor_apply sx e ed) (kept ed)" by (rule editor_apply_kept [OF Cons.prems(1)])
  then show ?case
    unfolding editor_run.simps runs_bind
    by (rule runs_mono) (rule runs_mono [OF Cons.IH]; use Cons.prems in \<open>auto simp: kept_def\<close>)
qed (simp add: runs_Some kept_def)

text \<open>
  C29. An editable code editor never panics. Whatever keys it is sent (with vim modes or without, in
  any language and whatever the indentation hints and the formatter say), and however it is focused
  or given new content in between, every event is handled, the active line exists, the cursor is at
  most one past the end of its line, and the selection and the undo snapshot stay inside their
  buffers.
\<close>

theorem editor_never_panics:
  "\<exists>ed. editor_run sx es (editor_new lang vim False) = Some ed \<and> ed_inv ed"
  using editor_run_kept [OF ed_inv_new, of lang vim False sx es]
  by (auto simp: runs_iff kept_def editor_new_def)

lemma stray_backward_panics:
  assumes "ed_inv ed" "stray_backward e ed"
  shows "editor_apply sx e ed = None"
proof -
  obtain now m where e: "e = Key now m (KChar CHR ''b'')" "plain_mod m"
    and ed: "ed_disabled ed" "ed_vim ed" "\<not> cursor_in ed"
    using assms(2) by (auto simp: stray_backward_def)
  let ?k = "KChar CHR ''b''"
  have mode: "ed_mode ed \<noteq> Insert" and line: "ed_active_line ed < length (ed_lines ed)"
    using assms(1) ed by (auto simp: ed_inv_def)
  have "word_backward (ed_lines ed) (ed_active_line ed) (ed_cursor_col ed) = None"
    using ed(3) line
    by (subst word_backward_def, subst prev_word_loop.simps) (auto simp: cursor_in_def line_chars_in)
  then have motion: "apply_motion m ?k (ed\<lparr>ed_pending := None\<rparr>) = None"
    using e(2) by (simp add: apply_motion_def motion_char_def move_word_def)
  have "handle_readonly_nav m ?k ed = Some None"
    using e(2) by (auto simp: handle_readonly_nav_def plain_mod_def)
  with mode ed(2) motion show ?thesis
    unfolding e(1) editor_apply.simps handle_events_def
    by (cases "ed_mode ed") (auto simp: handle_normal_key_def handle_visual_key_def Let_def)
qed

text \<open>
  C39. A read-only code editor can be made to panic. An event panics exactly when it is the backward
  word motion in a read-only vim editor whose cursor is past the end of its line, and read-only
  navigation puts the cursor there: in a preview of two lines, going up, to the end of the long line
  and down again leaves the column beyond the short line, and \<open>b\<close> then indexes out of bounds.
\<close>

theorem readonly_panics_exactly:
  assumes "ed_inv ed"
  shows "(editor_apply sx e ed = None \<longleftrightarrow> stray_backward e ed) \<and>
    editor_run sx (Content (''local x'' @ newline # ''y'') #
        map (\<lambda>c. Key 0 ModNone (KChar c)) ''k$jb'') (editor_new lang True True) = None"
proof
  show "editor_apply sx e ed = None \<longleftrightarrow> stray_backward e ed"
    using stray_backward_panics [OF assms, of e sx] editor_apply_kept [OF assms, of e sx]
    by (cases "stray_backward e ed") (auto simp: runs_iff)
  let ?ed = "editor_new lang True True"
  let ?ed1 = "?ed\<lparr>ed_lines := [''local x'', ''y''], ed_active_line := 1\<rparr>"
  let ?ed2 = "?ed1\<lparr>ed_active_line := 0\<rparr>"
  let ?ed3 = "?ed2\<lparr>ed_cursor_col := 6, ed_h_scroll := 6\<rparr>"
  let ?ed4 = "?ed3\<lparr>ed_active_line := 1\<rparr>"
  let ?key = "\<lambda>c. Key 0 ModNone (KChar c)"
  have "editor_apply sx (Content (''local x'' @ newline # ''y'')) ?ed = Some ?ed1"
    by (simp add: set_content_def usize_sub_def line_chars_def clamp_normal_def active_chars_def editor_new_def)
  moreover have "editor_apply sx (?key CHR ''k'') ?ed1 = Some ?ed2"
    "editor_apply sx (?key CHR ''$'') ?ed2 = Some ?ed3"
    "editor_apply sx (?key CHR ''j'') ?ed3 = Some ?ed4"
    by (simp_all add: editor_new_def handle_events_def handle_readonly_nav_def handle_normal_key_def
        apply_motion_def motion_char_def plain_mod_def move_up_def move_down_def active_chars_def line_chars_def Let_def)
  moreover have "editor_apply sx (?key CHR ''b'') ?ed4 = None"
    by (rule stray_backward_panics)
      (simp_all add: ed_inv_def stray_backward_def cursor_in_def plain_mod_def editor_new_def)
  ultimately show "editor_run sx (Content (''local x'' @ newline # ''y'') # map ?key ''k$jb'') ?ed = None"
    by (simp del: editor_apply.simps)
qed

text \<open>A language with no indentation hints and no formatter.\<close>

definition plain_syntax :: syntax_lib where
  "plain_syntax = \<lparr>indent_delta = (\<lambda>_ _. 0), syntax_format = (\<lambda>_ _. None)\<rparr>"

theorem readonly_panics_exactly_witness:
  "editor_apply plain_syntax (Key 0 ModNone (KChar CHR ''b'')) (editor_new None True True) \<noteq> None"
proof -
  let ?ed = "editor_new None True True" and ?b = "Key 0 ModNone (KChar CHR ''b'')"
  have "\<not> stray_backward ?b ?ed" by (simp add: stray_backward_def cursor_in_def editor_new_def)
  then show ?thesis using readonly_panics_exactly [OF ed_inv_new [of None True True], of plain_syntax ?b] by blast
qed

end
