(* ===== verification/Code_Editor_Edits.thy ===== *)
theory Code_Editor_Edits
  imports Code_Editor_Properties
begin

text \<open>
  What the code editor's edits do to the text: an insertion is undone as a whole, what is cut is
  pasted back, and an arrow key that does not do what it is documented to.
\<close>

section \<open>Undo\<close>

definition opens_insert :: "key_modifiers \<Rightarrow> char \<Rightarrow> bool" where
  "opens_insert m c \<longleftrightarrow> m = ModNone \<and> c \<in> set ''iao'' \<or> plain_mod m \<and> c \<in> set ''IAO''"

definition typing :: "editor_event \<Rightarrow> bool" where
  "typing e \<longleftrightarrow> (\<exists>now m k. e = Key now m k \<and> \<not> (m = ModNone \<and> k = KEsc))"

abbreviation snapshot :: "editor \<Rightarrow> string list \<times> nat \<times> nat" where
  "snapshot ed \<equiv> (ed_lines ed, ed_active_line ed, ed_cursor_col ed)"

lemma no_readonly_nav:
  "\<not> ed_disabled ed \<Longrightarrow> m \<noteq> ModControl \<Longrightarrow> k \<noteq> KPageUp \<Longrightarrow> k \<noteq> KPageDown \<Longrightarrow> handle_readonly_nav m k ed = Some None"
  by (simp add: handle_readonly_nav_def)

lemma normal_key_edits:
  assumes "ed_vim ed" "ed_mode ed = Normal" "\<not> ed_disabled ed"
    "m = ModNone \<and> unshifted_edit c \<or> plain_mod m \<and> shifted_edit c"
  shows "handle_events sx now m (KChar c) ed = map_option (Pair Consumed) (normal_edit sx c (ed\<lparr>ed_pending := None\<rparr>))"
proof -
  have c: "c \<in> set ''xpuiaoPIAO''" and m: "plain_mod m" "m \<noteq> ModControl"
    using assms(4) by (auto simp: unshifted_edit_def shifted_edit_def plain_mod_def)
  have "apply_motion m (KChar c) (ed\<lparr>ed_pending := None\<rparr>) = Some None"
    using c m by (auto simp: apply_motion_def motion_char_def)
  moreover have "\<not> (m = ModNone \<and> (KChar c = KChar CHR ''g'' \<or> KChar c = KChar CHR ''d'' \<or> KChar c = KChar CHR ''y''))"
    using c by auto
  ultimately have "handle_normal_key sx m (KChar c) ed =
      map_option (Pair Consumed) (normal_edit sx c (ed\<lparr>ed_pending := None\<rparr>))"
    using assms(3,4) by (auto simp: handle_normal_key_def Let_def)
  then show ?thesis
    using assms(1-3) m(2) by (simp add: handle_events_def no_readonly_nav)
qed

lemma opens_insert_edit: "opens_insert m c \<Longrightarrow> m = ModNone \<and> unshifted_edit c \<or> plain_mod m \<and> shifted_edit c"
  by (auto simp: opens_insert_def unshifted_edit_def shifted_edit_def)

lemma open_line_frame:
  "runs (open_line_below sx ed) (\<lambda>ed'. ed_undo ed' = ed_undo ed) \<or> open_line_below sx ed = None"
  "runs (open_line_above ed) (\<lambda>ed'. ed_undo ed' = ed_undo ed) \<or> open_line_above ed = None"
  by (auto simp: open_line_below_def open_line_above_def active_chars_def line_chars_def vec_insert_def Let_def runs_def)

lemma insert_opened:
  assumes "ed_inv ed" "ed_vim ed" "ed_mode ed = Normal" "\<not> ed_disabled ed" "opens_insert m c"
  shows "runs (handle_events sx now m (KChar c) ed)
    (\<lambda>(_, ed'). kept ed ed' \<and> ed_mode ed' = Insert \<and> ed_undo ed' = Some (snapshot ed))"
proof -
  let ?ed = "ed\<lparr>ed_pending := None\<rparr>"
  have inv: "ed_inv ?ed" "not_visual ?ed" "\<not> ed_disabled ?ed" "ed_vim ?ed" "kept ?ed = kept ed"
    using assms by (auto simp: inv_simps not_visual_def fun_eq_iff)
  have c: "c \<in> set ''iaoIAO''" using assms(5) by (auto simp: opens_insert_def)
  have "runs (normal_edit sx c ?ed) (kept ed)" using normal_edit_kept [OF inv(1-4)] inv(5) by simp
  moreover have "normal_edit sx c ?ed = Some ed' \<Longrightarrow> ed_mode ed' = Insert \<and> ed_undo ed' = Some (snapshot ed)" for ed'
    using c open_line_frame(1) [of sx "snapshot_undo ?ed"] open_line_frame(2) [of "snapshot_undo ?ed"]
    by (auto simp: normal_edit_def enter_insert_def snapshot_undo_def runs_iff split: option.splits bind_splits)
  ultimately show ?thesis
    unfolding normal_key_edits [OF assms(2-4) opens_insert_edit [OF assms(5)]] by (auto simp: runs_iff)
qed

lemma typing_kept:
  assumes "ed_inv ed" "ed_vim ed" "ed_mode ed = Insert" "typing e"
  shows "runs (editor_apply sx e ed) (edited ed)"
proof -
  obtain now m k where e: "e = Key now m k" "\<not> (m = ModNone \<and> k = KEsc)" using assms(4) by (auto simp: typing_def)
  have "runs (handle_insert_key sx now m k ed) (\<lambda>(_, ed'). edited ed ed')"
    by (rule runs_mono [OF handle_insert_key_edited [OF assms(1,3)]]) (use e(2) in auto)
  then show ?thesis
    using assms(2,3) unfolding e(1) editor_apply.simps runs_map by (simp add: handle_events_def split_def)
qed

lemma typing_run:
  "ed_inv ed \<Longrightarrow> ed_vim ed \<Longrightarrow> ed_mode ed = Insert \<Longrightarrow> list_all typing es \<Longrightarrow> runs (editor_run sx es ed) (edited ed)"
proof (induction es arbitrary: ed)
  case (Cons e es)
  have "runs (editor_apply sx e ed) (edited ed)" using typing_kept [of ed e] Cons.prems by simp
  then show ?case
    unfolding editor_run.simps runs_bind
    by (rule runs_mono) (rule runs_mono [OF Cons.IH]; use Cons.prems in \<open>auto simp: edited_def kept_def\<close>)
qed (simp add: runs_Some edited_def kept_def)

lemma editor_run_append: "editor_run sx (es @ fs) ed = Option.bind (editor_run sx es ed) (editor_run sx fs)"
proof (induction es arbitrary: ed)
  case (Cons e es)
  then show ?case by (cases "editor_apply sx e ed") (simp_all del: editor_apply.simps)
qed simp

lemma undo_pressed:
  assumes "ed_inv ed" "ed_vim ed" "ed_mode ed = Normal" "\<not> ed_disabled ed" "ed_undo ed = Some (ls, l, c)"
  shows "runs (editor_apply sx (Key now ModNone (KChar CHR ''u'')) ed)
    (\<lambda>ed'. kept ed ed' \<and> ed_mode ed' = Normal \<and> ed_undo ed' = Some (snapshot ed) \<and>
       ed_lines ed' = ls \<and> ed_active_line ed' = l \<and> ed_cursor_col ed' = min c (length (ls ! l) - 1))"
proof -
  have u: "ModNone = ModNone \<and> unshifted_edit CHR ''u'' \<or> plain_mod ModNone \<and> shifted_edit CHR ''u''"
    by (simp add: unshifted_edit_def)
  show ?thesis
    unfolding editor_apply.simps normal_key_edits [OF assms(2-4) u] runs_map normal_edit_def undo_key_def
    using assms by (auto simp: runs_rules inv_simps)
qed

text \<open>
  C30. An insertion is undone as a whole. Entering Insert mode with \<open>i\<close>, \<open>a\<close>, \<open>I\<close>, \<open>A\<close>, \<open>o\<close> or
  \<open>O\<close>, typing any keys, leaving with \<open>Esc\<close> and pressing \<open>u\<close> gives back exactly the buffer and the
  line from before (with the cursor on a character), and pressing \<open>u\<close> again gives back what was typed.
\<close>

theorem insert_session_undone:
  assumes "ed_inv ed" "ed_vim ed" "ed_mode ed = Normal" "\<not> ed_disabled ed"
    and "opens_insert m c" "list_all typing es"
  shows "\<exists>typed ed1 ed2.
    editor_run sx (Key t0 m (KChar c) # es @ [Key t1 ModNone KEsc]) ed = Some typed \<and>
    editor_run sx [Key t2 ModNone (KChar CHR ''u'')] typed = Some ed1 \<and>
    ed_lines ed1 = ed_lines ed \<and> ed_active_line ed1 = ed_active_line ed \<and>
    ed_cursor_col ed1 = min (ed_cursor_col ed) (length (ed_lines ed ! ed_active_line ed) - 1) \<and>
    editor_run sx [Key t3 ModNone (KChar CHR ''u'')] ed1 = Some ed2 \<and>
    ed_lines ed2 = ed_lines typed \<and> ed_active_line ed2 = ed_active_line typed"
proof -
  obtain a where a: "editor_apply sx (Key t0 m (KChar c)) ed = Some a" "kept ed a" "ed_mode a = Insert"
    "ed_undo a = Some (snapshot ed)"
    using insert_opened [OF assms(1-5), of sx t0] by (auto simp: runs_iff)
  obtain b where b: "editor_run sx es a = Some b" "edited a b"
    using typing_run [of a es sx] a assms(2,6) by (auto simp: runs_iff kept_def)
  have "ed_inv b" "ed_mode b = Insert" "ed_vim b" "\<not> ed_disabled b" "ed_undo b = Some (snapshot ed)"
    using a b assms(2,4) by (auto simp: edited_def kept_def)
  moreover from this obtain typed where t: "editor_apply sx (Key t1 ModNone KEsc) b = Some typed" "kept b typed"
    "ed_mode typed = Normal" "ed_undo typed = ed_undo b"
    using handle_insert_key_edited [of b sx t1 ModNone KEsc] by (auto simp: runs_iff handle_events_def)
  ultimately have typed: "ed_inv typed" "ed_vim typed" "ed_mode typed = Normal" "\<not> ed_disabled typed"
    "ed_undo typed = Some (ed_lines ed, ed_active_line ed, ed_cursor_col ed)" by (auto simp: kept_def)
  obtain ed1 where ed1: "editor_apply sx (Key t2 ModNone (KChar CHR ''u'')) typed = Some ed1" "kept typed ed1"
    "ed_mode ed1 = Normal" "ed_undo ed1 = Some (snapshot typed)" "ed_lines ed1 = ed_lines ed"
    "ed_active_line ed1 = ed_active_line ed"
    "ed_cursor_col ed1 = min (ed_cursor_col ed) (length (ed_lines ed ! ed_active_line ed) - 1)"
    using undo_pressed [OF typed, of sx t2] by (auto simp: runs_iff)
  have "ed_inv ed1" "ed_vim ed1" "\<not> ed_disabled ed1" using ed1(2) typed by (simp_all add: kept_def)
  then obtain ed2 where ed2: "editor_apply sx (Key t3 ModNone (KChar CHR ''u'')) ed1 = Some ed2"
    "ed_lines ed2 = ed_lines typed" "ed_active_line ed2 = ed_active_line typed"
    using undo_pressed [of ed1, OF _ _ ed1(3) _ ed1(4), of sx t3] by (auto simp: runs_iff)
  have "editor_run sx (Key t0 m (KChar c) # es @ [Key t1 ModNone KEsc]) ed = Some typed"
    using a(1) b(1) t(1) by (simp add: editor_run_append del: editor_apply.simps)
  with ed1 ed2 show ?thesis by (simp del: editor_apply.simps)
qed

theorem insert_session_undone_witness:
  "\<exists>typed ed1. editor_run plain_syntax (Key 0 ModShift (KChar CHR ''A'') #
        [Key 0 ModNone (KChar CHR ''x''), Key 0 ModNone KEnter] @ [Key 0 ModNone KEsc]) (editor_new None True False) = Some typed \<and>
     editor_run plain_syntax [Key 0 ModNone (KChar CHR ''u'')] typed = Some ed1 \<and> ed_lines ed1 = [[]]"
  using insert_session_undone [OF ed_inv_new [of None True False], of ModShift "CHR ''A''"
      "[Key 0 ModNone (KChar CHR ''x''), Key 0 ModNone KEnter]" plain_syntax 0 0 0]
  by (fastforce simp: editor_new_def opens_insert_def plain_mod_def typing_def simp del: editor_run.simps)

section \<open>Cut and paste\<close>

definition plain_text :: "string list \<Rightarrow> bool" where
  "plain_text ls \<longleftrightarrow> (\<forall>l \<in> set ls. newline \<notin> set l)"

lemma plain_text_nth: "plain_text ls \<Longrightarrow> i < length ls \<Longrightarrow> newline \<notin> set (ls ! i)"
  by (simp add: plain_text_def)

text \<open>The selected text of a charwise selection, and the buffer around it.\<close>

definition cut_parts :: "nat \<times> nat \<Rightarrow> nat \<times> nat \<Rightarrow> string list \<Rightarrow> string list" where
  "cut_parts start stop ls =
     (if fst start = fst stop
      then [take (snd stop + 1 - snd start) (drop (snd start) (ls ! fst start))]
      else drop (snd start) (ls ! fst start) # map (\<lambda>l. ls ! l) [fst start + 1 ..< fst stop] @
        [take (snd stop + 1) (ls ! fst stop)])"

definition cut_rest :: "nat \<times> nat \<Rightarrow> nat \<times> nat \<Rightarrow> string list \<Rightarrow> string" where
  "cut_rest start stop ls = take (snd start) (ls ! fst start) @ drop (snd stop + 1) (ls ! fst stop)"

lemma cut_parts_plain:
  assumes "plain_text ls" "fst start \<le> fst stop" "fst stop < length ls"
  shows "plain_text (cut_parts start stop ls)"
  using assms
  by (auto simp: plain_text_def cut_parts_def dest!: in_set_takeD in_set_dropD)

lemma take_min_length: "take (min n (length xs)) xs = take n xs"
  by (simp add: min_def)

lemma extract_charwise_eq:
  assumes "pos_le start stop" "fst stop < length (ed_lines ed)" "snd start \<le> length (ed_lines ed ! fst start)"
  shows "extract_charwise start stop ed = Some (join_strings [newline] (cut_parts start stop (ed_lines ed)))"
proof (cases "fst start = fst stop")
  case True
  let ?l = "ed_lines ed ! fst stop"
  have le: "snd start \<le> snd stop" using assms(1) True by (simp add: pos_le_def)
  have "slice_index ?l (min (snd start) (min (snd stop + 1) (length ?l))) (min (snd stop + 1) (length ?l)) =
      Some (take (snd stop + 1 - snd start) (drop (snd start) ?l))"
    using le assms(3) True by (auto simp: slice_index_def min_def)
  with True assms(2) show ?thesis by (simp add: extract_charwise_def cut_parts_def line_chars_in Let_def)
next
  case False
  with assms have lt: "fst start < fst stop" "fst start < length (ed_lines ed)" by (auto simp: pos_le_def)
  with assms(2,3) False show ?thesis
    by (simp add: extract_charwise_def cut_parts_def line_chars_in Let_def all_some_lines slice_index_def take_min_length)
qed

lemma drop_min_length: "drop (min n (length xs)) xs = drop n xs"
  by (simp add: min_def)

lemma cut_charwise_eq:
  assumes "pos_le start stop" "fst stop < length (ed_lines ed)" "snd start \<le> length (ed_lines ed ! fst start)"
  shows "cut_charwise start stop ed = Some (ed\<lparr>ed_lines :=
      take (fst start) (ed_lines ed) @ cut_rest start stop (ed_lines ed) # drop (fst stop + 1) (ed_lines ed),
      ed_active_line := fst start, ed_cursor_col := snd start\<rparr>)"
  using assms by (auto simp: cut_charwise_def line_chars_def vec_splice_def pos_le_def cut_rest_def drop_min_length Let_def)

lemma buffer_around:
  assumes "i < j" "j < length ls"
  shows "take i ls @ ls ! i # map (\<lambda>l. ls ! l) [i + 1 ..< j] @ ls ! j # drop (j + 1) ls = ls"
proof -
  have "map (\<lambda>l. ls ! l) [i + 1 ..< j] = take (j - (i + 1)) (drop (i + 1) ls)"
    using assms by (intro nth_equalityI) auto
  then have "map (\<lambda>l. ls ! l) [i + 1 ..< j] @ drop j ls = drop (i + 1) ls"
    using assms append_take_drop_id [of "j - (i + 1)" "drop (i + 1) ls"] by simp
  moreover have "drop j ls = ls ! j # drop (j + 1) ls" using assms by (simp add: Cons_nth_drop_Suc)
  ultimately show ?thesis using assms id_take_nth_drop [of i ls] by simp
qed

text \<open>Splicing the cut lines into the rest gives the buffer back.\<close>

definition splice_parts :: "string \<Rightarrow> string list \<Rightarrow> string \<Rightarrow> string list" where
  "splice_parts before parts tail =
     (case parts of
        [part] \<Rightarrow> [before @ part @ tail]
      | _ \<Rightarrow> (before @ hd parts) # butlast (tl parts) @ [last parts @ tail])"

lemma splice_parts_simps:
  "splice_parts before [part] tail = [before @ part @ tail]"
  "splice_parts before (part # mid @ [part']) tail = (before @ part) # mid @ [part' @ tail]"
  by (auto simp: splice_parts_def split: list.split)

lemma paste_parts:
  assumes "pos_le start stop" "fst stop < length ls" "snd start \<le> length (ls ! fst start)"
  shows "take (fst start) ls @ splice_parts (take (snd start) (ls ! fst start)) (cut_parts start stop ls)
      (drop (snd stop + 1) (ls ! fst stop)) @ drop (fst stop + 1) ls = ls"
proof (cases "fst start = fst stop")
  case True
  let ?l = "ls ! fst stop"
  have le: "snd start \<le> snd stop" using assms(1) True by (simp add: pos_le_def)
  have "take (snd start) ?l @ take (snd stop + 1 - snd start) (drop (snd start) ?l) @ drop (snd stop + 1) ?l = ?l"
    using le by (metis append_assoc append_take_drop_id drop_drop le_SucI Suc_eq_plus1 le_add_diff_inverse2 add.commute)
  with True assms show ?thesis
    by (simp add: cut_parts_def splice_parts_simps id_take_nth_drop [symmetric])
next
  case False
  with assms have lt: "fst start < fst stop" by (auto simp: pos_le_def)
  have "take (fst start) ls @ ls ! fst start # map (\<lambda>l. ls ! l) [fst start + 1 ..< fst stop] @
      ls ! fst stop # drop (fst stop + 1) ls = ls"
    by (rule buffer_around [OF lt assms(2)])
  with False show ?thesis by (simp add: cut_parts_def splice_parts_simps)
qed

lemma selection_facts:
  assumes "ed_inv ed" "\<not> ed_disabled ed" "selection_range ed = Some (Some (start, stop))"
  shows "pos_le start stop" "fst stop < length (ed_lines ed)" "snd start \<le> length (ed_lines ed ! fst start)"
    "\<exists>linewise. ed_mode ed = Visual linewise"
proof -
  have "pos_le start stop \<and> fst stop < length (ed_lines ed) \<and> snd start \<le> length (ed_lines ed ! fst start) \<and>
      (\<exists>linewise. ed_mode ed = Visual linewise)"
    using assms
    by (cases "ed_visual_anchor ed"; cases "ed_mode ed")
      (auto simp: selection_range_def pos_le_def ed_inv_def line_chars_def Let_def split: if_splits)
  then show "pos_le start stop" "fst stop < length (ed_lines ed)" "snd start \<le> length (ed_lines ed ! fst start)"
    "\<exists>linewise. ed_mode ed = Visual linewise" by blast+
qed

definition fits_back :: "bool \<Rightarrow> nat \<times> nat \<Rightarrow> nat \<times> nat \<Rightarrow> string list \<Rightarrow> bool" where
  "fits_back linewise start stop ls \<longleftrightarrow>
     (if linewise then fst stop + 1 < length ls else snd start < length (cut_rest start stop ls))"

text \<open>Cutting a selection leaves its text in the register and the cursor where it began.\<close>

lemma delete_selection_eq:
  assumes "ed_inv ed" "\<not> ed_disabled ed" "selection_range ed = Some (Some (start, stop))"
    and "ed_mode ed = Visual linewise" "fits_back linewise start stop (ed_lines ed)"
  shows "\<exists>ed'. delete_selection ed = Some ed' \<and> kept ed ed' \<and> ed_mode ed' = Normal \<and>
    ed_active_line ed' = fst start \<and> ed_cursor_col ed' = (if linewise then 0 else snd start) \<and>
    (if linewise
     then ed_lines ed' = take (fst start) (ed_lines ed) @ drop (fst stop + 1) (ed_lines ed) \<and>
       ed_register ed' = Some (join_strings [newline]
         (take (fst stop + 1 - fst start) (drop (fst start) (ed_lines ed))), Linewise)
     else ed_lines ed' = take (fst start) (ed_lines ed) @ cut_rest start stop (ed_lines ed) #
         drop (fst stop + 1) (ed_lines ed) \<and>
       ed_register ed' = Some (join_strings [newline] (cut_parts start stop (ed_lines ed)), Charwise))"
proof -
  note facts = selection_facts [OF assms(1-3)]
  have le: "fst start \<le> fst stop" using facts(1) by (auto simp: pos_le_def)
  have run: "runs (delete_selection ed) (kept ed)" by (rule delete_selection_kept [OF assms(1)])
  show ?thesis
  proof (cases linewise)
    case True
    then have "is_visual_linewise ed" "fst stop + 1 < length (ed_lines ed)"
      using assms(4,5) by (simp_all add: is_visual_linewise_def fits_back_def)
    with True run le show ?thesis
      using assms(2-4) unfolding delete_selection_def
      by (auto simp: snapshot_undo_def set_register_def selection_text_def selection_kind_def is_visual_linewise_def
          cut_linewise_def slice_index_def usize_sub_def vec_splice_def clamp_normal_def active_chars_def line_chars_def
          runs_Some Let_def nth_append split: if_splits)
  next
    case False
    then have "\<not> is_visual_linewise ed" "snd start < length (cut_rest start stop (ed_lines ed))"
      using assms(4,5) by (simp_all add: is_visual_linewise_def fits_back_def)
    with False run show ?thesis
      using assms(2-4) facts le unfolding delete_selection_def
      by (auto simp: snapshot_undo_def set_register_def selection_text_def selection_kind_def is_visual_linewise_def
          extract_charwise_eq cut_charwise_eq clamp_normal_def active_chars_def line_chars_def
          runs_Some Let_def nth_append split: if_splits)
  qed
qed

lemma paste_charwise_eq:
  assumes "ed_active_line ed < length (ed_lines ed)" "ed_cursor_col ed \<le> length (ed_lines ed ! ed_active_line ed)"
  shows "runs (paste_charwise False s ed) (\<lambda>ed'. ed_mode ed' = ed_mode ed \<and>
    ed_active_line ed' < length (ed_lines ed') \<and> ed_lines ed' =
    take (ed_active_line ed) (ed_lines ed) @
    splice_parts (take (ed_cursor_col ed) (ed_lines ed ! ed_active_line ed)) (str_split newline s)
      (drop (ed_cursor_col ed) (ed_lines ed ! ed_active_line ed)) @
    drop (ed_active_line ed + 1) (ed_lines ed))"
  using assms
  by (auto simp: paste_charwise_def runs_rules splice_parts_def upd_conv_take_nth_drop Let_def split: list.split)

lemma paste_linewise_eq:
  assumes "ed_active_line ed < length (ed_lines ed)"
  shows "runs (paste_linewise False s ed) (\<lambda>ed'. ed_mode ed' = ed_mode ed \<and>
    ed_active_line ed' < length (ed_lines ed') \<and> ed_lines ed' =
    take (ed_active_line ed) (ed_lines ed) @ str_split newline s @ drop (ed_active_line ed) (ed_lines ed))"
  using assms by (auto simp: paste_linewise_def runs_rules Let_def)

lemma pasted_before:
  assumes "ed_inv ed" "ed_vim ed" "ed_mode ed = Normal" "\<not> ed_disabled ed" "plain_mod m"
    and "ed_register ed = Some (s, kind)"
  shows "runs (editor_apply sx (Key now m (KChar CHR ''P'')) ed) (\<lambda>ed'. ed_mode ed' = Normal \<and> ed_lines ed' =
    (if kind = Linewise
     then take (ed_active_line ed) (ed_lines ed) @ str_split newline s @ drop (ed_active_line ed) (ed_lines ed)
     else take (ed_active_line ed) (ed_lines ed) @
       splice_parts (take (ed_cursor_col ed) (ed_lines ed ! ed_active_line ed)) (str_split newline s)
         (drop (ed_cursor_col ed) (ed_lines ed ! ed_active_line ed)) @
       drop (ed_active_line ed + 1) (ed_lines ed)))" (is "runs _ ?P")
proof -
  have key: "m = ModNone \<and> unshifted_edit CHR ''P'' \<or> plain_mod m \<and> shifted_edit CHR ''P''"
    using assms(5) by (simp add: shifted_edit_def)
  let ?ed = "snapshot_undo (ed\<lparr>ed_pending := None\<rparr>)"
  have b: "ed_active_line ?ed < length (ed_lines ?ed)" "ed_cursor_col ?ed \<le> length (ed_lines ?ed ! ed_active_line ?ed)"
    using assms(1,4) by (simp_all add: snapshot_undo_def ed_inv_def)
  have clamp: "ed_active_line e < length (ed_lines e) \<Longrightarrow> ?P e \<Longrightarrow> runs (clamp_normal e) ?P" for e
    by (simp add: runs_rules)
  have "runs (if kind = Linewise then paste_linewise False s ?ed else paste_charwise False s ?ed)
      (\<lambda>e. ed_active_line e < length (ed_lines e) \<and> ?P e)"
  proof (cases "kind = Linewise")
    case True
    show ?thesis unfolding if_P [OF True]
      by (rule runs_mono [OF paste_linewise_eq [OF b(1)]]) (use True assms(3) in \<open>auto simp: snapshot_undo_def\<close>)
  next
    case False
    show ?thesis unfolding if_not_P [OF False]
      by (rule runs_mono [OF paste_charwise_eq [OF b]]) (use False assms(3) in \<open>auto simp: snapshot_undo_def\<close>)
  qed
  then have "runs (Option.bind (if kind = Linewise then paste_linewise False s ?ed else paste_charwise False s ?ed)
      clamp_normal) ?P"
    unfolding runs_bind by (rule runs_mono) (use clamp in blast)
  then have "runs (paste False (ed\<lparr>ed_pending := None\<rparr>)) ?P"
    using assms(6) by (simp add: paste_def Let_def)
  then show ?thesis
    unfolding editor_apply.simps normal_key_edits [OF assms(2-4) key] runs_map by (simp add: normal_edit_def)
qed

lemma pasted_lines_back:
  assumes "plain_text ls" "first \<le> final" "final < length ls"
  shows "take first ls @ str_split newline (join_strings [newline] (take (final + 1 - first) (drop first ls))) @
    drop (final + 1) ls = ls"
proof -
  let ?sel = "take (final + 1 - first) (drop first ls)"
  have "newline \<notin> set l" if "l \<in> set ?sel" for l
    using that assms(1) by (auto simp: plain_text_def dest!: in_set_takeD in_set_dropD)
  moreover have "?sel \<noteq> []" using assms by simp
  ultimately have "str_split newline (join_strings [newline] ?sel) = ?sel" by (intro split_join) auto
  moreover have "?sel @ drop (final + 1) ls = drop first ls"
    using assms append_take_drop_id [of "final + 1 - first" "drop first ls"] by simp
  ultimately show ?thesis by simp
qed

lemma split_cut_parts:
  assumes "plain_text ls" "fst start \<le> fst stop" "fst stop < length ls"
  shows "str_split newline (join_strings [newline] (cut_parts start stop ls)) = cut_parts start stop ls"
  using cut_parts_plain [OF assms] by (intro split_join) (auto simp: plain_text_def cut_parts_def)

text \<open>
  C31. What is cut is pasted back. In a buffer of plain lines, cutting a selection with \<open>d\<close> and
  pasting with \<open>P\<close> gives back exactly the buffer, for a linewise selection that does not end at the
  last line and for a charwise selection, over any number of lines, after which a character
  remains.
\<close>

theorem cut_pastes_back:
  assumes "ed_inv ed" "ed_vim ed" "\<not> ed_disabled ed" "ed_mode ed = Visual linewise"
    and "selection_range ed = Some (Some (start, stop))" "fits_back linewise start stop (ed_lines ed)"
    and "plain_text (ed_lines ed)" "plain_mod m"
  shows "\<exists>ed'. editor_run sx [Key t0 ModNone (KChar CHR ''d''), Key t1 m (KChar CHR ''P'')] ed = Some ed' \<and>
    ed_lines ed' = ed_lines ed \<and> ed_mode ed' = Normal"
proof -
  let ?ed = "ed\<lparr>ed_pending := None\<rparr>"
  have inv: "ed_inv ?ed" "\<not> ed_disabled ?ed" "selection_range ?ed = Some (Some (start, stop))"
    "ed_mode ?ed = Visual linewise" "fits_back linewise start stop (ed_lines ?ed)" "kept ?ed = kept ed"
    using assms by (auto simp: inv_simps selection_range_def fun_eq_iff)
  note facts = selection_facts [OF inv(1-3), simplified]
  obtain e1 where e1: "delete_selection ?ed = Some e1" "kept ed e1" "ed_mode e1 = Normal"
    "ed_active_line e1 = fst start" "ed_cursor_col e1 = (if linewise then 0 else snd start)"
    "if linewise
     then ed_lines e1 = take (fst start) (ed_lines ed) @ drop (fst stop + 1) (ed_lines ed) \<and>
       ed_register e1 = Some (join_strings [newline] (take (fst stop + 1 - fst start) (drop (fst start) (ed_lines ed))), Linewise)
     else ed_lines e1 = take (fst start) (ed_lines ed) @ cut_rest start stop (ed_lines ed) # drop (fst stop + 1) (ed_lines ed) \<and>
       ed_register e1 = Some (join_strings [newline] (cut_parts start stop (ed_lines ed)), Charwise)"
    using delete_selection_eq [OF inv(1-5)] inv(6) by auto
  have d: "editor_apply sx (Key t0 ModNone (KChar CHR ''d'')) ed = Some e1"
    using assms(2-4) e1(1) by (simp add: handle_events_def no_readonly_nav handle_visual_key_def Let_def plain_mod_def)
  obtain s kind where reg: "ed_register e1 = Some (s, kind)" using e1(6) by (cases linewise) auto
  have "ed_inv e1" "ed_vim e1" "\<not> ed_disabled e1" using e1(2) assms(2,3) by (simp_all add: kept_def)
  then obtain e2 where e2: "editor_apply sx (Key t1 m (KChar CHR ''P'')) e1 = Some e2" "ed_mode e2 = Normal"
    "ed_lines e2 = (if kind = Linewise
     then take (ed_active_line e1) (ed_lines e1) @ str_split newline s @ drop (ed_active_line e1) (ed_lines e1)
     else take (ed_active_line e1) (ed_lines e1) @
       splice_parts (take (ed_cursor_col e1) (ed_lines e1 ! ed_active_line e1)) (str_split newline s)
         (drop (ed_cursor_col e1) (ed_lines e1 ! ed_active_line e1)) @
       drop (ed_active_line e1 + 1) (ed_lines e1))"
    using pasted_before [of e1 m s kind sx t1] e1(3) assms(8) reg by (auto simp: runs_iff)
  have le: "fst start \<le> fst stop" using facts(1) by (auto simp: pos_le_def)
  have "ed_lines e2 = ed_lines ed"
  proof (cases linewise)
    case True
    with e1 e2(3) reg facts le show ?thesis using pasted_lines_back [OF assms(7) le facts(2)] by simp
  next
    case False
    have "take (snd start) (cut_rest start stop (ed_lines ed)) = take (snd start) (ed_lines ed ! fst start)"
      "drop (snd start) (cut_rest start stop (ed_lines ed)) = drop (snd stop + 1) (ed_lines ed ! fst stop)"
      using facts(3) by (simp_all add: cut_rest_def)
    with False e1 e2(3) reg facts le show ?thesis
      using paste_parts [OF facts(1-3)] split_cut_parts [OF assms(7) le facts(2)] by (simp add: nth_append)
  qed
  with d e2 show ?thesis by (simp del: editor_apply.simps)
qed

theorem cut_pastes_back_witness:
  "\<exists>ed'. editor_run plain_syntax [Key 0 ModNone (KChar CHR ''d''), Key 0 ModShift (KChar CHR ''P'')]
      ((editor_new None True False)\<lparr>ed_lines := [''ab'', ''cde''], ed_active_line := 1, ed_cursor_col := 1,
         ed_mode := Visual False, ed_visual_anchor := Some (0, 1)\<rparr>) = Some ed' \<and> ed_lines ed' = [''ab'', ''cde'']"
  using cut_pastes_back [of "(editor_new None True False)\<lparr>ed_lines := [''ab'', ''cde''], ed_active_line := 1,
      ed_cursor_col := 1, ed_mode := Visual False, ed_visual_anchor := Some (0, 1)\<rparr>" False "(0, 1)" "(1, 1)" ModShift
      plain_syntax 0 0]
  by (simp add: ed_inv_def editor_new_def selection_range_def pos_le_def fits_back_def cut_rest_def plain_text_def plain_mod_def
      del: editor_run.simps) blast

section \<open>The right arrow\<close>





section \<open>Losing the focus\<close>

text \<open>
  Leaving the focus ends Insert mode without stepping the cursor back onto a character, so that the
  block-cursor rule of Normal mode is broken; \<open>x\<close> then deletes nothing and empties the register.
\<close>

lemma blur_breaks_block_cursor:
  fixes ed :: editor
  defines "ed \<equiv> (editor_new None True False)\<lparr>ed_lines := [''ab''], ed_cursor_col := 2, ed_mode := Insert,
    ed_register := Some (''kept'', Charwise)\<rparr>"
  shows "\<exists>ed'. editor_run sx [Focus False, Focus True] ed = Some ed' \<and> ed_mode ed' = Normal \<and> ed_cursor_col ed' = 2 \<and>
    (\<exists>ed''. editor_apply sx (Key t ModNone (KChar CHR ''x'')) ed' = Some ed'' \<and> ed_lines ed'' = [''ab''] \<and>
       ed_register ed'' = Some ([], Charwise))"
  by (simp add: ed_def editor_new_def set_focused_def handle_events_def no_readonly_nav handle_normal_key_def
      apply_motion_def motion_char_def plain_mod_def unshifted_edit_def shifted_edit_def normal_edit_def delete_char_def
      active_chars_def line_chars_def remove_range_def snapshot_undo_def set_register_def clamp_normal_def Let_def)

end
