(* ===== verification/Json_Format.thy ===== *)
theory Json_Format
  imports Str_Util
begin

text \<open>
  The JSON formatter of the editor (\<^verbatim>\<open>ferrowl-syntax/src/format/json.rs\<close>): a validating parser that
  keeps scalars as their source text, and a pretty-printer. The parser's state is the text not yet
  consumed. The recursion of \<open>parse_json\<close> is given fuel, one more than twice the length of the text,
  which is shown to be enough.
\<close>

section \<open>Values\<close>

datatype json_value =
    ObjectValue "(string \<times> json_value) list"
  | ArrayValue "json_value list"
  | ScalarValue string

section \<open>Scalars\<close>

abbreviation quote :: char where
  "quote \<equiv> CHR 0x22"

abbreviation backslash :: char where
  "backslash \<equiv> CHR 0x5C"

definition peek :: "string \<Rightarrow> char option" where
  "peek s = (case s of [] \<Rightarrow> None | c # _ \<Rightarrow> Some c)"

definition skip_ws :: "string \<Rightarrow> string" where
  "skip_ws s = dropWhile is_space s"

definition skip_digits :: "string \<Rightarrow> string" where
  "skip_digits s = dropWhile is_ascii_digit s"

text \<open>The text between a position and the one reached from it.\<close>

definition consumed :: "string \<Rightarrow> string \<Rightarrow> string" where
  "consumed s rest = take (length s - length rest) s"

definition parse_keyword :: "string \<Rightarrow> string \<Rightarrow> (string \<times> string) option" where
  "parse_keyword word s =
     (if take (length word) s \<noteq> word then None
      else case peek (drop (length word) s) of
        None \<Rightarrow> Some (word, drop (length word) s)
      | Some c \<Rightarrow> if is_alphanumeric c \<or> c = CHR ''_'' then None else Some (word, drop (length word) s))"

definition number_integer :: "string \<Rightarrow> string option" where
  "number_integer s =
     (case s of
        [] \<Rightarrow> None
      | c # cs \<Rightarrow> if c = CHR ''0'' then Some cs else if is_ascii_digit c then Some (skip_digits cs) else None)"

definition digits1 :: "string \<Rightarrow> string option" where
  "digits1 s = (case peek s of None \<Rightarrow> None | Some c \<Rightarrow> if is_ascii_digit c then Some (skip_digits s) else None)"

definition number_fraction :: "string \<Rightarrow> string option" where
  "number_fraction s = (if peek s = Some CHR ''.'' then digits1 (tl s) else Some s)"

definition number_exponent :: "string \<Rightarrow> string option" where
  "number_exponent s =
     (if peek s = Some CHR ''e'' \<or> peek s = Some CHR ''E'' then
        let s1 = tl s in digits1 (if peek s1 = Some CHR ''+'' \<or> peek s1 = Some CHR ''-'' then tl s1 else s1)
      else Some s)"

definition parse_number_raw :: "string \<Rightarrow> (string \<times> string) option" where
  "parse_number_raw s = do {
     s1 \<leftarrow> number_integer (if peek s = Some CHR ''-'' then tl s else s);
     s2 \<leftarrow> number_fraction s1;
     s3 \<leftarrow> number_exponent s2;
     Some (consumed s s3, s3)
   }"

fun string_loop :: "string \<Rightarrow> string option" where
  "string_loop [] = None"
| "string_loop (c # cs) =
     (if c = quote then Some cs
      else if c = backslash then
        (case cs of
           [] \<Rightarrow> None
         | esc # es \<Rightarrow>
             if esc \<in> {quote, backslash, CHR ''/'', CHR ''b'', CHR ''f'', CHR ''n'', CHR ''r'', CHR ''t''}
             then string_loop es
             else if esc = CHR ''u'' then
               (case es of
                  h1 # h2 # h3 # h4 # rest \<Rightarrow>
                    if list_all is_ascii_hexdigit [h1, h2, h3, h4] then string_loop rest else None
                | _ \<Rightarrow> None)
             else None)
      else if code_point c < 32 then None
      else string_loop cs)"

definition parse_string_raw :: "string \<Rightarrow> (string \<times> string) option" where
  "parse_string_raw s =
     (if peek s \<noteq> Some quote then None else map_option (\<lambda>rest. (consumed s rest, rest)) (string_loop (tl s)))"

section \<open>The parser\<close>

text \<open>Parsing a scalar; \<open>None\<close> also where the text does not begin one.\<close>

definition parse_scalar :: "string \<Rightarrow> (string \<times> string) option" where
  "parse_scalar s =
     (case peek s of
        None \<Rightarrow> None
      | Some c \<Rightarrow>
          if c = quote then parse_string_raw s
          else if c = CHR ''-'' \<or> is_ascii_digit c then parse_number_raw s
          else if c = CHR ''t'' then parse_keyword ''true'' s
          else if c = CHR ''f'' then parse_keyword ''false'' s
          else if c = CHR ''n'' then parse_keyword ''null'' s
          else None)"

fun parse_json :: "nat \<Rightarrow> string \<Rightarrow> (json_value \<times> string) option"
  and object_loop :: "nat \<Rightarrow> (string \<times> json_value) list \<Rightarrow> string \<Rightarrow> (json_value \<times> string) option"
  and array_loop :: "nat \<Rightarrow> json_value list \<Rightarrow> string \<Rightarrow> (json_value \<times> string) option"
where
  "parse_json 0 s = None"
| "parse_json (Suc n) s =
     (if peek s = Some CHR ''{'' then
        let s1 = skip_ws (tl s) in
        if peek s1 = Some CHR ''}'' then Some (ObjectValue [], tl s1) else object_loop n [] s1
      else if peek s = Some CHR ''['' then
        let s1 = skip_ws (tl s) in
        if peek s1 = Some CHR '']'' then Some (ArrayValue [], tl s1) else array_loop n [] s1
      else map_option (\<lambda>(t, rest). (ScalarValue t, rest)) (parse_scalar s))"
| "object_loop 0 entries s = None"
| "object_loop (Suc n) entries s =
     (case parse_string_raw (skip_ws s) of
        None \<Rightarrow> None
      | Some (key, s1) \<Rightarrow>
          if peek (skip_ws s1) \<noteq> Some CHR '':'' then None
          else case parse_json n (skip_ws (tl (skip_ws s1))) of
            None \<Rightarrow> None
          | Some (v, s2) \<Rightarrow>
              let s3 = skip_ws s2; entries' = entries @ [(key, v)] in
              if peek s3 = Some CHR '','' then object_loop n entries' (tl s3)
              else if peek s3 = Some CHR ''}'' then Some (ObjectValue entries', tl s3)
              else None)"
| "array_loop 0 items s = None"
| "array_loop (Suc n) items s =
     (case parse_json n (skip_ws s) of
        None \<Rightarrow> None
      | Some (v, s1) \<Rightarrow>
          let s2 = skip_ws s1; items' = items @ [v] in
          if peek s2 = Some CHR '','' then array_loop n items' (tl s2)
          else if peek s2 = Some CHR '']'' then Some (ArrayValue items', tl s2)
          else None)"

definition parse_fuel :: "string \<Rightarrow> nat" where
  "parse_fuel s = 2 * length s + 1"

definition json_parse :: "string \<Rightarrow> json_value option" where
  "json_parse source =
     (case parse_json (parse_fuel source) (skip_ws source) of
        None \<Rightarrow> None
      | Some (v, rest) \<Rightarrow> if skip_ws rest = [] then Some v else None)"

section \<open>The printer\<close>

definition indent :: "nat \<Rightarrow> string" where
  "indent depth = concat (replicate depth ''  '')"

fun print_value :: "nat \<Rightarrow> json_value \<Rightarrow> string"
  and print_items :: "nat \<Rightarrow> json_value list \<Rightarrow> string"
  and print_entries :: "nat \<Rightarrow> (string \<times> json_value) list \<Rightarrow> string"
where
  "print_value depth (ScalarValue s) = s"
| "print_value depth (ArrayValue items) =
     (if items = [] then ''[]''
      else ''['' @ [CHR 0x0A] @ print_items depth items @ indent depth @ '']'')"
| "print_value depth (ObjectValue entries) =
     (if entries = [] then ''{}''
      else ''{'' @ [CHR 0x0A] @ print_entries depth entries @ indent depth @ ''}'')"
| "print_items depth [] = []"
| "print_items depth (v # vs) =
     indent (depth + 1) @ print_value (depth + 1) v @ (if vs \<noteq> [] then '','' else []) @ [CHR 0x0A] @
     print_items depth vs"
| "print_entries depth [] = []"
| "print_entries depth ((key, v) # es) =
     indent (depth + 1) @ key @ '': '' @ print_value (depth + 1) v @ (if es \<noteq> [] then '','' else []) @ [CHR 0x0A] @
     print_entries depth es"

definition json_format :: "string \<Rightarrow> string option" where
  "json_format source = map_option (print_value 0) (json_parse source)"

end
