(* ===== verification/Json_Format_Properties.thy ===== *)
theory Json_Format_Properties
  imports Json_Format
begin

text \<open>
  The formatter changes nothing but white space: what it prints parses back to the value it parsed,
  so that formatting is idempotent; and the parser's fuel never runs out.
\<close>

section \<open>Scalars are read locally\<close>

text \<open>
  A scanner is local when the text it accepts is accepted before any rest that begins like the one
  it stopped at, or that is empty or begins with a comma or a line break.
\<close>

definition follows :: "string \<Rightarrow> string \<Rightarrow> bool" where
  "follows r r' \<longleftrightarrow> r' = [] \<or> peek r' = Some CHR '','' \<or> peek r' = Some CHR 0x0A \<or> peek r' = peek r"

definition local_scan :: "(string \<Rightarrow> string option) \<Rightarrow> bool" where
  "local_scan f \<longleftrightarrow>
     (\<forall>s r. f s = Some r \<longrightarrow> (\<exists>t. s = t @ r \<and> (\<forall>r'. follows r r' \<longrightarrow> f (t @ r') = Some r')))"

lemma peek_simps [simp]: "peek [] = None" "peek (c # cs) = Some c"
  by (simp_all add: peek_def)

lemma peek_append: "t \<noteq> [] \<Longrightarrow> peek (t @ r) = peek t"
  by (cases t) simp_all

lemma follows_append: "follows r r' \<Longrightarrow> follows (t @ r) (t @ r')"
  by (cases t) (auto simp: follows_def)

lemma local_scan_bind:
  assumes "local_scan f" "local_scan g"
  shows "local_scan (\<lambda>s. Option.bind (f s) g)"
  unfolding local_scan_def
proof (intro allI impI)
  fix s r assume "Option.bind (f s) g = Some r"
  then obtain s1 where s1: "f s = Some s1" "g s1 = Some r" by (auto simp: Option.bind_eq_Some_conv)
  obtain t1 where t1: "s = t1 @ s1" "\<And>r'. follows s1 r' \<Longrightarrow> f (t1 @ r') = Some r'"
    using assms(1) s1(1) by (auto simp: local_scan_def)
  obtain t2 where t2: "s1 = t2 @ r" "\<And>r'. follows r r' \<Longrightarrow> g (t2 @ r') = Some r'"
    using assms(2) s1(2) by (auto simp: local_scan_def)
  have "Option.bind (f ((t1 @ t2) @ r')) g = Some r'" if "follows r r'" for r'
    using t1(2) [of "t2 @ r'"] t2 follows_append [OF that] that by simp
  with t1(1) t2(1) show "\<exists>t. s = t @ r \<and> (\<forall>r'. follows r r' \<longrightarrow> Option.bind (f (t @ r')) g = Some r')"
    by (intro exI [of _ "t1 @ t2"]) auto
qed

lemma not_digit_follows:
  assumes "follows r r'" "\<forall>c. peek r = Some c \<longrightarrow> \<not> is_ascii_digit c"
  shows "\<forall>c. peek r' = Some c \<longrightarrow> \<not> is_ascii_digit c"
  using assms by (auto simp: follows_def is_ascii_digit_def code_point_def)

lemma skip_digits_append:
  "list_all is_ascii_digit t \<Longrightarrow> (\<forall>c. peek r = Some c \<longrightarrow> \<not> is_ascii_digit c) \<Longrightarrow> skip_digits (t @ r) = r"
  by (induction t) (auto simp: skip_digits_def peek_def split: list.splits)

lemma skip_digits_split: "s = takeWhile is_ascii_digit s @ skip_digits s"
  "list_all is_ascii_digit (takeWhile is_ascii_digit s)"
  "peek (skip_digits s) = Some c \<Longrightarrow> \<not> is_ascii_digit c"
  by (auto simp: skip_digits_def list_all_iff dest: set_takeWhileD)
    (metis hd_dropWhile list.sel(1) list.distinct(1) option.inject option.distinct(1) peek_def list.simps(4) list.simps(5) list.exhaust)

lemma local_digits1: "local_scan digits1"
  unfolding local_scan_def
proof (intro allI impI)
  fix s r assume "digits1 s = Some r"
  then obtain c cs where s: "s = c # cs" "is_ascii_digit c" "r = skip_digits s"
    by (cases s) (auto simp: digits1_def split: if_splits)
  let ?t = "takeWhile is_ascii_digit s"
  have "digits1 (?t @ r') = Some r'" if "follows r r'" for r'
  proof -
    have "skip_digits (?t @ r') = r'"
      using skip_digits_append [OF skip_digits_split(2) not_digit_follows [OF that]] skip_digits_split(3) s(3) by blast
    then show ?thesis using s by (simp add: digits1_def)
  qed
  then show "\<exists>t. s = t @ r \<and> (\<forall>r'. follows r r' \<longrightarrow> digits1 (t @ r') = Some r')"
    using skip_digits_split(1) [of s] s(3) by blast
qed

lemma local_number_integer: "local_scan number_integer"
  unfolding local_scan_def
proof (intro allI impI)
  fix s r assume "number_integer s = Some r"
  then obtain c cs where s: "s = c # cs" "c = CHR ''0'' \<and> r = cs \<or> c \<noteq> CHR ''0'' \<and> is_ascii_digit c \<and> r = skip_digits cs"
    by (cases s) (auto simp: number_integer_def split: if_splits)
  show "\<exists>t. s = t @ r \<and> (\<forall>r'. follows r r' \<longrightarrow> number_integer (t @ r') = Some r')"
  proof (cases "c = CHR ''0''")
    case True
    with s show ?thesis by (intro exI [of _ "[c]"]) (simp add: number_integer_def)
  next
    case False
    let ?t = "c # takeWhile is_ascii_digit cs"
    have "number_integer (?t @ r') = Some r'" if "follows r r'" for r'
      using skip_digits_append [OF skip_digits_split(2) not_digit_follows [OF that], of cs] skip_digits_split(3) [of cs] s False
      by (auto simp: number_integer_def)
    moreover have "s = ?t @ r" using skip_digits_split(1) [of cs] s False by simp
    ultimately show ?thesis by blast
  qed
qed

text \<open>A scanner that may be preceded by one character of a class.\<close>

lemma local_optional:
  assumes "\<not> P CHR '',''" "\<not> P CHR 0x0A"
  shows "local_scan (\<lambda>s. Some (if \<exists>c. peek s = Some c \<and> P c then tl s else s))"
  unfolding local_scan_def
proof (intro allI impI)
  fix s r assume r: "Some (if \<exists>c. peek s = Some c \<and> P c then tl s else s) = Some r"
  show "\<exists>t. s = t @ r \<and> (\<forall>r'. follows r r' \<longrightarrow>
      Some (if \<exists>c. peek (t @ r') = Some c \<and> P c then tl (t @ r') else t @ r') = Some r')"
  proof (cases "\<exists>c. peek s = Some c \<and> P c")
    case True
    with r show ?thesis by (cases s) (auto intro!: exI [of _ "[hd s]"])
  next
    case False
    have "\<not> (\<exists>c. peek r' = Some c \<and> P c)" if "follows s r'" for r'
      using that False assms by (auto simp: follows_def)
    moreover have "r = s" using r unfolding if_not_P [OF False] by simp
    ultimately show ?thesis by (intro exI [of _ "[]"]) auto
  qed
qed

text \<open>A part that is present exactly when the text begins with a marker.\<close>

lemma local_marked:
  assumes "local_scan f" "\<not> P CHR '',''" "\<not> P CHR 0x0A"
  shows "local_scan (\<lambda>s. if \<exists>c. peek s = Some c \<and> P c then f (tl s) else Some s)"
  unfolding local_scan_def
proof (intro allI impI)
  fix s r assume r: "(if \<exists>c. peek s = Some c \<and> P c then f (tl s) else Some s) = Some r"
  show "\<exists>t. s = t @ r \<and> (\<forall>r'. follows r r' \<longrightarrow>
      (if \<exists>c. peek (t @ r') = Some c \<and> P c then f (tl (t @ r')) else Some (t @ r')) = Some r')"
  proof (cases "\<exists>c. peek s = Some c \<and> P c")
    case True
    then obtain c cs where s: "s = c # cs" "P c" by (cases s) auto
    with r obtain t where "cs = t @ r" "\<And>r'. follows r r' \<Longrightarrow> f (t @ r') = Some r'"
      using assms(1) by (auto simp: local_scan_def)
    with s show ?thesis by (intro exI [of _ "c # t"]) simp
  next
    case False
    have "\<not> (\<exists>c. peek r' = Some c \<and> P c)" if "follows s r'" for r'
      using that False assms(2,3) by (auto simp: follows_def)
    moreover have "r = s" using r unfolding if_not_P [OF False] by simp
    ultimately show ?thesis by (intro exI [of _ "[]"]) auto
  qed
qed

lemma local_number_fraction: "local_scan number_fraction"
  using local_marked [OF local_digits1, of "\<lambda>c. c = CHR ''.''"] by (simp add: number_fraction_def [abs_def])

lemma local_number_exponent: "local_scan number_exponent"
proof -
  have "local_scan (\<lambda>s. Option.bind (Some (if \<exists>c. peek s = Some c \<and> (c = CHR ''+'' \<or> c = CHR ''-'') then tl s else s)) digits1)"
    by (rule local_scan_bind [OF local_optional local_digits1]) simp_all
  then have "local_scan (\<lambda>s. digits1 (if peek s = Some CHR ''+'' \<or> peek s = Some CHR ''-'' then tl s else s))"
    by (simp add: ex_disj_distrib conj_disj_distribL)
  from local_marked [OF this, of "\<lambda>c. c = CHR ''e'' \<or> c = CHR ''E''"] show ?thesis
    unfolding number_exponent_def [abs_def] Let_def by (simp add: conj_disj_distribL ex_disj_distrib)
qed

definition number_rest :: "string \<Rightarrow> string option" where
  "number_rest s = Option.bind (Option.bind (Option.bind
     (Some (if \<exists>c. peek s = Some c \<and> c = CHR ''-'' then tl s else s)) number_integer) number_fraction) number_exponent"

lemma local_number_rest: "local_scan number_rest"
  unfolding number_rest_def [abs_def]
  by (intro local_scan_bind local_optional local_number_integer local_number_fraction local_number_exponent) simp_all

lemma parse_number_raw_rest: "parse_number_raw s = map_option (\<lambda>r. (consumed s r, r)) (number_rest s)"
  by (simp add: parse_number_raw_def number_rest_def map_option_bind [symmetric] bind_map_option [symmetric] map_conv_bind_option comp_def)

lemma consumed_append [simp]: "consumed (t @ r) r = t"
  by (simp add: consumed_def)

text \<open>A scanner of text with its rest.\<close>

definition reads_token :: "(string \<Rightarrow> (string \<times> string) option) \<Rightarrow> bool" where
  "reads_token p \<longleftrightarrow>
     (\<forall>s t r. p s = Some (t, r) \<longrightarrow> s = t @ r \<and> t \<noteq> [] \<and> (\<forall>r'. follows r r' \<longrightarrow> p (t @ r') = Some (t, r')))"

lemma reads_tokenI:
  assumes "local_scan f" "\<And>s. p s = map_option (\<lambda>r. (consumed s r, r)) (f s)" "\<And>s. f s \<noteq> Some s"
  shows "reads_token p"
  unfolding reads_token_def
proof (intro allI impI)
  fix s t r assume "p s = Some (t, r)"
  then have r: "f s = Some r" "t = consumed s r" by (auto simp: assms(2))
  then obtain t' where t': "s = t' @ r" "\<And>r'. follows r r' \<Longrightarrow> f (t' @ r') = Some r'"
    using assms(1) by (auto simp: local_scan_def)
  then have "t = t'" using r(2) by simp
  moreover have "t \<noteq> []" using assms(3) [of s] t'(1) r \<open>t = t'\<close> by auto
  ultimately show "s = t @ r \<and> t \<noteq> [] \<and> (\<forall>r'. follows r r' \<longrightarrow> p (t @ r') = Some (t, r'))"
    using t' by (simp add: assms(2))
qed

lemma number_shorter:
  "number_integer s = Some r \<Longrightarrow> length r < length s" "digits1 s = Some r \<Longrightarrow> length r < length s"
  "number_fraction s = Some r \<Longrightarrow> length r \<le> length s" "number_exponent s = Some r \<Longrightarrow> length r \<le> length s"
proof -
  have d: "digits1 s = Some r \<Longrightarrow> length r < length s" for s r
    by (cases s) (auto simp: digits1_def skip_digits_def le_imp_less_Suc length_dropWhile_le split: if_splits)
  show "number_integer s = Some r \<Longrightarrow> length r < length s"
    by (cases s) (auto simp: number_integer_def skip_digits_def le_imp_less_Suc length_dropWhile_le split: if_splits)
  show "digits1 s = Some r \<Longrightarrow> length r < length s" by (rule d)
  show "number_fraction s = Some r \<Longrightarrow> length r \<le> length s"
    using d [of "tl s" r] by (cases s) (auto simp: number_fraction_def split: if_splits)
  show "number_exponent s = Some r \<Longrightarrow> length r \<le> length s"
    using d [of "tl s" r] d [of "tl (tl s)" r]
    by (cases s; cases "tl s") (auto simp: number_exponent_def Let_def split: if_splits)
qed

lemma reads_number: "reads_token parse_number_raw"
proof (rule reads_tokenI [OF local_number_rest parse_number_raw_rest])
  fix s
  have "length r < length s" if "number_rest s = Some r" for r
    using that number_shorter unfolding number_rest_def
    by (auto simp: Option.bind_eq_Some_conv split: if_splits) (fastforce, metis length_tl less_imp_diff_less order.strict_trans1 order.trans)
  then show "number_rest s \<noteq> Some s" by blast
qed

lemma separators_not_alphanumeric: "\<not> is_alphanumeric CHR '',''" "\<not> is_alphanumeric CHR 0x0A"
  by (simp_all add: is_alphanumeric_def is_ascii_alphanumeric_def is_ascii_digit_def is_ascii_alphabetic_def code_point_def)

lemma reads_keyword:
  assumes "word \<noteq> []"
  shows "reads_token (parse_keyword word)"
  unfolding reads_token_def
proof (intro allI impI)
  fix s t r assume p: "parse_keyword word s = Some (t, r)"
  then have s: "s = word @ r" "t = word"
    by (auto simp: parse_keyword_def split: if_splits option.splits) (metis append_take_drop_id)+
  have ok: "\<not> (is_alphanumeric c \<or> c = CHR ''_'')" if "peek r = Some c" for c
    using p that s by (auto simp: parse_keyword_def split: if_splits)
  have "parse_keyword word (word @ r') = Some (word, r')" if "follows r r'" for r'
  proof -
    have "\<not> (is_alphanumeric c \<or> c = CHR ''_'')" if "peek r' = Some c" for c
      using that \<open>follows r r'\<close> ok [of c] separators_not_alphanumeric by (auto simp: follows_def)
    then show ?thesis by (auto simp: parse_keyword_def split: option.split)
  qed
  with s assms show "s = t @ r \<and> t \<noteq> [] \<and> (\<forall>r'. follows r r' \<longrightarrow> parse_keyword word (t @ r') = Some (t, r'))"
    by auto
qed

abbreviation escapes :: "char set" where
  "escapes \<equiv> {quote, backslash, CHR ''/'', CHR ''b'', CHR ''f'', CHR ''n'', CHR ''r'', CHR ''t''}"

lemma string_loop_eqs:
  "string_loop (quote # cs) = Some cs"
  "esc \<in> escapes \<Longrightarrow> string_loop (backslash # esc # es) = string_loop es"
  "list_all is_ascii_hexdigit [h1, h2, h3, h4] \<Longrightarrow>
     string_loop (backslash # CHR ''u'' # h1 # h2 # h3 # h4 # rest) = string_loop rest"
  "c \<noteq> quote \<Longrightarrow> c \<noteq> backslash \<Longrightarrow> \<not> code_point c < 32 \<Longrightarrow> string_loop (c # cs) = string_loop cs"
  by simp_all

lemma string_loop_cases:
  assumes "string_loop (c # cs) = Some r"
  obtains "c = quote" "cs = r"
  | esc es where "c = backslash" "cs = esc # es" "esc \<in> escapes" "string_loop es = Some r"
  | h1 h2 h3 h4 rest where "c = backslash" "cs = CHR ''u'' # h1 # h2 # h3 # h4 # rest"
      "list_all is_ascii_hexdigit [h1, h2, h3, h4]" "string_loop rest = Some r"
  | "c \<noteq> quote" "c \<noteq> backslash" "\<not> code_point c < 32" "string_loop cs = Some r"
proof (cases "c = backslash")
  case True
  then obtain esc es where cs: "cs = esc # es" using assms by (cases cs) simp_all
  show thesis
  proof (cases "esc \<in> escapes")
    case True
    with assms cs \<open>c = backslash\<close> that(2) show thesis by (simp only: string_loop_eqs)
  next
    case False
    then have u: "esc = CHR ''u''" and m: "(case es of h1 # h2 # h3 # h4 # rest \<Rightarrow>
        if list_all is_ascii_hexdigit [h1, h2, h3, h4] then string_loop rest else None | _ \<Rightarrow> None) = Some r"
      using assms cs \<open>c = backslash\<close> by (simp_all split: if_splits)
    from m obtain h1 h2 h3 h4 rest where "es = h1 # h2 # h3 # h4 # rest"
      "list_all is_ascii_hexdigit [h1, h2, h3, h4]" "string_loop rest = Some r"
      by (auto split: list.splits if_splits)
    with that(3) cs u \<open>c = backslash\<close> show thesis by blast
  qed
next
  case False
  show thesis
  proof (cases "c = quote")
    case True
    with assms that(1) show thesis by simp
  next
    case nq: False
    with assms False that(4) show thesis by (simp split: if_splits)
  qed
qed

declare string_loop.simps(2) [simp del]

lemma string_loop_local: "string_loop s = Some r \<Longrightarrow> \<exists>t. s = t @ r \<and> t \<noteq> [] \<and> (\<forall>r'. string_loop (t @ r') = Some r')"
proof (induction s rule: length_induct)
  case (1 s)
  obtain c cs where s: "s = c # cs" using "1.prems" by (cases s) auto
  have ih: "\<exists>t. ys = t @ r \<and> (\<forall>r'. string_loop (t @ r') = Some r')" if "string_loop ys = Some r" "length ys < length s" for ys
    using "1.IH" that by blast
  have "string_loop (c # cs) = Some r" using "1.prems" s by simp
  then show ?case
  proof (cases rule: string_loop_cases)
    case 1
    with s show ?thesis by (intro exI [of _ "[quote]"]) (simp add: string_loop_eqs)
  next
    case (2 esc es)
    obtain t where t: "es = t @ r" "\<And>r'. string_loop (t @ r') = Some r'" using ih [OF 2(4)] s 2(2) by auto
    with 2(1,2) s show ?thesis
      by (intro exI [of _ "backslash # esc # t"]) (simp add: string_loop_eqs(2) [OF 2(3)])
  next
    case (3 h1 h2 h3 h4 rest)
    obtain t where t: "rest = t @ r" "\<And>r'. string_loop (t @ r') = Some r'" using ih [OF 3(4)] s 3(2) by auto
    with 3(1,2) s show ?thesis
      by (intro exI [of _ "backslash # CHR ''u'' # h1 # h2 # h3 # h4 # t"]) (simp add: string_loop_eqs(3) [OF 3(3)])
  next
    case 4
    obtain t where t: "cs = t @ r" "\<And>r'. string_loop (t @ r') = Some r'" using ih [OF 4(4)] s by auto
    with 4(1-3) s show ?thesis by (intro exI [of _ "c # t"]) (simp add: string_loop_eqs(4))
  qed
qed

text \<open>A string is delimited, so that it is read before any rest.\<close>

lemma string_token:
  assumes "parse_string_raw s = Some (t, r)"
  shows "s = t @ r" "peek t = Some quote" "parse_string_raw (t @ r') = Some (t, r')"
proof -
  obtain cs where s: "s = quote # cs" "string_loop cs = Some r" "t = consumed s r"
    using assms by (cases s) (auto simp: parse_string_raw_def split: if_splits)
  obtain t' where t': "cs = t' @ r" "\<And>r'. string_loop (t' @ r') = Some r'" using string_loop_local [OF s(2)] by auto
  have t: "t = quote # t'" using s(1,3) t'(1) consumed_append [of "quote # t'" r] by simp
  show "s = t @ r" "peek t = Some quote" using s(1) t t'(1) by simp_all
  show "parse_string_raw (t @ r') = Some (t, r')"
    using t t'(2) consumed_append [of "quote # t'" r'] by (simp add: parse_string_raw_def)
qed

definition scalar_head :: "char \<Rightarrow> bool" where
  "scalar_head c \<longleftrightarrow> c = quote \<or> c = CHR ''-'' \<or> is_ascii_digit c \<or> c \<in> set ''tfn''"

lemma reads_scalar:
  assumes "parse_scalar s = Some (t, r)"
  shows "s = t @ r" "\<exists>c cs. t = c # cs \<and> scalar_head c" "follows r r' \<Longrightarrow> parse_scalar (t @ r') = Some (t, r')"
proof -
  obtain c cs where s: "s = c # cs" using assms by (cases s) (auto simp: parse_scalar_def)
  let ?p = "if c = quote then parse_string_raw else if c = CHR ''-'' \<or> is_ascii_digit c then parse_number_raw
    else if c = CHR ''t'' then parse_keyword ''true'' else if c = CHR ''f'' then parse_keyword ''false''
    else parse_keyword ''null''"
  have head: "scalar_head c" and p: "?p s = Some (t, r)"
    using assms s by (auto simp: parse_scalar_def scalar_head_def split: if_splits)
  have "reads_token parse_string_raw"
    unfolding reads_token_def using string_token by (fastforce simp: peek_def)
  then have "reads_token ?p" using reads_number reads_keyword by simp
  with p have *: "s = t @ r" "t \<noteq> []" "\<And>r'. follows r r' \<Longrightarrow> ?p (t @ r') = Some (t, r')"
    unfolding reads_token_def by blast+
  then obtain cs' where t: "t = c # cs'" using s by (cases t) auto
  show "s = t @ r" "\<exists>c cs. t = c # cs \<and> scalar_head c" using * t head by auto
  show "parse_scalar (t @ r') = Some (t, r')" if "follows r r'"
    using *(3) [OF that] t head by (auto simp: parse_scalar_def scalar_head_def split: if_splits)
qed

section \<open>Values the parser produces\<close>

fun wf_value :: "json_value \<Rightarrow> bool" where
  "wf_value (ScalarValue t) \<longleftrightarrow> parse_scalar t = Some (t, [])"
| "wf_value (ArrayValue vs) \<longleftrightarrow> (\<forall>v \<in> set vs. wf_value v)"
| "wf_value (ObjectValue es) \<longleftrightarrow> (\<forall>(k, v) \<in> set es. parse_string_raw k = Some (k, []) \<and> wf_value v)"

lemma skip_ws_length: "length (skip_ws s) \<le> length s"
  by (simp add: skip_ws_def length_dropWhile_le)

lemma peek_Some_tl: "peek s = Some c \<Longrightarrow> length (tl s) < length s"
  by (cases s) auto

lemma scalar_shorter: "parse_scalar s = Some (t, r) \<Longrightarrow> length r < length s"
  using reads_scalar(1,2) [of s t r] by auto

lemma string_shorter: "parse_string_raw s = Some (t, r) \<Longrightarrow> length r < length s"
  using string_token(1,2) [of s t r] by (cases t) auto

lemmas shorter = skip_ws_length peek_Some_tl scalar_shorter string_shorter

lemma parser_sound:
  "parse_json n s = Some (v, r) \<Longrightarrow> wf_value v \<and> length r < length s"
  "object_loop n es s = Some (v, r) \<Longrightarrow> wf_value (ObjectValue es) \<Longrightarrow> wf_value v \<and> length r < length s"
  "array_loop n vs s = Some (v, r) \<Longrightarrow> wf_value (ArrayValue vs) \<Longrightarrow> wf_value v \<and> length r < length s"
proof (induction n s and n es s and n vs s arbitrary: v r and v r and v r
    rule: parse_json_object_loop_array_loop.induct)
  case (2 n s)
  let ?s1 = "skip_ws (tl s)"
  consider "peek s = Some CHR ''{''" "peek ?s1 = Some CHR ''}''" "v = ObjectValue []" "r = tl ?s1"
    | "peek s = Some CHR ''{''" "peek ?s1 \<noteq> Some CHR ''}''" "object_loop n [] ?s1 = Some (v, r)"
    | "peek s = Some CHR ''[''" "peek ?s1 = Some CHR '']''" "v = ArrayValue []" "r = tl ?s1"
    | "peek s = Some CHR ''[''" "peek ?s1 \<noteq> Some CHR '']''" "array_loop n [] ?s1 = Some (v, r)"
    | t where "parse_scalar s = Some (t, r)" "v = ScalarValue t"
    using "2.prems" by (auto simp: Let_def split: if_splits)
  then show ?case
  proof cases
    case 1
    then show ?thesis using peek_Some_tl [of s] peek_Some_tl [of ?s1] skip_ws_length [of "tl s"] by simp
  next
    case 2
    then show ?thesis using "2.IH"(1) [OF 2(1) refl 2(2,3)] peek_Some_tl [of s] skip_ws_length [of "tl s"] by simp
  next
    case 3
    then show ?thesis using peek_Some_tl [of s] peek_Some_tl [of ?s1] skip_ws_length [of "tl s"] by simp
  next
    case 4
    have "peek s \<noteq> Some CHR ''{''" using 4(1) by simp
    from "2.IH"(2) [OF this 4(1) refl 4(2,3)] show ?thesis
      using 4(1) peek_Some_tl [of s] skip_ws_length [of "tl s"] by simp
  next
    case (5 t)
    have "parse_scalar t = Some (t, [])" using reads_scalar(3) [OF 5(1), of "[]"] by (simp add: follows_def)
    with 5 scalar_shorter show ?thesis by simp
  qed
next
  case (4 n es s)
  obtain key s1 where key: "parse_string_raw (skip_ws s) = Some (key, s1)" using "4.prems"(1) by (auto split: option.splits)
  have colon: "peek (skip_ws s1) = Some CHR '':''" using "4.prems"(1) key by (auto split: if_splits)
  obtain v' s2 where v': "parse_json n (skip_ws (tl (skip_ws s1))) = Some (v', s2)"
    using "4.prems"(1) key colon by (auto split: option.splits)
  have ih1: "wf_value v' \<and> length s2 < length (skip_ws (tl (skip_ws s1)))"
    using "4.IH"(1) [OF key refl _ v'] colon by simp
  have len: "length (skip_ws s2) < length s"
    using ih1 skip_ws_length [of s2] skip_ws_length [of "tl (skip_ws s1)"] peek_Some_tl [OF colon] skip_ws_length [of s1]
      string_shorter [OF key] skip_ws_length [of s] by linarith
  have wf: "wf_value (ObjectValue (es @ [(key, v')]))"
    using "4.prems"(2) ih1 string_token(3) [OF key, of "[]"] by auto
  show ?case
  proof (cases "peek (skip_ws s2) = Some CHR '',''")
    case True
    have "wf_value v \<and> length r < length (tl (skip_ws s2))"
      using "4.IH"(2) [OF key refl _ v' refl refl refl True] "4.prems"(1) key colon v' True wf by simp
    with len peek_Some_tl [OF True] show ?thesis by linarith
  next
    case False
    then have "peek (skip_ws s2) = Some CHR ''}''" "v = ObjectValue (es @ [(key, v')])" "r = tl (skip_ws s2)"
      using "4.prems"(1) key colon v' by (auto simp: Let_def split: if_splits)
    with wf len peek_Some_tl show ?thesis by (metis order.strict_trans)
  qed
next
  case (6 n vs s)
  obtain v' s1 where v': "parse_json n (skip_ws s) = Some (v', s1)" using "6.prems"(1) by (auto split: option.splits)
  have ih1: "wf_value v' \<and> length s1 < length (skip_ws s)" using "6.IH"(1) [OF v'] .
  have len: "length (skip_ws s1) < length s" using ih1 skip_ws_length [of s1] skip_ws_length [of s] by linarith
  have wf: "wf_value (ArrayValue (vs @ [v']))" using "6.prems"(2) ih1 by auto
  show ?case
  proof (cases "peek (skip_ws s1) = Some CHR '',''")
    case True
    have "wf_value v \<and> length r < length (tl (skip_ws s1))"
      using "6.IH"(2) [OF v' refl refl refl True] "6.prems"(1) v' True wf by simp
    with len peek_Some_tl [OF True] show ?thesis by linarith
  next
    case False
    then have "peek (skip_ws s1) = Some CHR '']''" "v = ArrayValue (vs @ [v'])" "r = tl (skip_ws s1)"
      using "6.prems"(1) v' by (auto simp: Let_def split: if_splits)
    with wf len peek_Some_tl show ?thesis by (metis order.strict_trans)
  qed
qed simp_all

section \<open>Fuel\<close>

declare parse_json.simps(2) [simp del] object_loop.simps(2) [simp del] array_loop.simps(2) [simp del]

lemma parser_mono_all:
  "(\<forall>s x. parse_json n s = Some x \<longrightarrow> parse_json (Suc n) s = Some x) \<and>
   (\<forall>es s x. object_loop n es s = Some x \<longrightarrow> object_loop (Suc n) es s = Some x) \<and>
   (\<forall>vs s x. array_loop n vs s = Some x \<longrightarrow> array_loop (Suc n) vs s = Some x)"
proof (induction n)
  case (Suc n)
  then have ih: "\<And>s x. parse_json n s = Some x \<Longrightarrow> parse_json (Suc n) s = Some x"
    "\<And>es s x. object_loop n es s = Some x \<Longrightarrow> object_loop (Suc n) es s = Some x"
    "\<And>vs s x. array_loop n vs s = Some x \<Longrightarrow> array_loop (Suc n) vs s = Some x" by blast+
  show ?case
  proof (intro conjI allI impI)
    fix s x assume "parse_json (Suc n) s = Some x"
    then show "parse_json (Suc (Suc n)) s = Some x"
      unfolding parse_json.simps(2) [of "Suc n"] parse_json.simps(2) [of n] by (auto simp: Let_def ih split: if_splits)
  next
    fix es s x assume a: "object_loop (Suc n) es s = Some x"
    then obtain key s1 v s2 where p: "parse_string_raw (skip_ws s) = Some (key, s1)" "peek (skip_ws s1) = Some CHR '':''"
      "parse_json n (skip_ws (tl (skip_ws s1))) = Some (v, s2)"
      by (auto simp: object_loop.simps(2) [of n] split: option.splits if_splits)
    let ?s3 = "skip_ws s2" and ?es = "es @ [(key, v)]"
    from a p have "(if peek ?s3 = Some CHR '','' then object_loop n ?es (tl ?s3)
        else if peek ?s3 = Some CHR ''}'' then Some (ObjectValue ?es, tl ?s3) else None) = Some x"
      by (simp add: object_loop.simps(2) [of n] Let_def)
    then show "object_loop (Suc (Suc n)) es s = Some x"
      using p ih(1) [OF p(3)] ih(2) by (subst object_loop.simps(2)) (auto simp: Let_def split: if_splits)
  next
    fix vs s x assume a: "array_loop (Suc n) vs s = Some x"
    then obtain v s1 where p: "parse_json n (skip_ws s) = Some (v, s1)"
      by (auto simp: array_loop.simps(2) [of n] split: option.splits)
    let ?s2 = "skip_ws s1" and ?vs = "vs @ [v]"
    from a p have "(if peek ?s2 = Some CHR '','' then array_loop n ?vs (tl ?s2)
        else if peek ?s2 = Some CHR '']'' then Some (ArrayValue ?vs, tl ?s2) else None) = Some x"
      by (simp add: array_loop.simps(2) [of n] Let_def)
    then show "array_loop (Suc (Suc n)) vs s = Some x"
      using p ih(1) [OF p] ih(3) by (subst array_loop.simps(2)) (auto simp: Let_def split: if_splits)
  qed
qed simp

lemmas parser_mono = parser_mono_all [THEN conjunct1, rule_format]
  parser_mono_all [THEN conjunct2, THEN conjunct1, rule_format]
  parser_mono_all [THEN conjunct2, THEN conjunct2, rule_format]

text \<open>With the fuel the length of the text asks for, more fuel changes nothing.\<close>

lemma parser_fuel:
  "2 * length s + 1 \<le> n \<Longrightarrow> parse_json (Suc n) s = parse_json n s"
  "2 * length s + 2 \<le> n \<Longrightarrow> object_loop (Suc n) es s = object_loop n es s"
  "2 * length s + 2 \<le> n \<Longrightarrow> array_loop (Suc n) vs s = array_loop n vs s"
proof (induction n s and n es s and n vs s rule: parse_json_object_loop_array_loop.induct)
  case (2 n s)
  have "2 * length (skip_ws (tl s)) + 2 \<le> n" if "peek s = Some c" for c
    using "2.prems" peek_Some_tl [OF that] skip_ws_length [of "tl s"] by linarith
  with 2 show ?case
    unfolding parse_json.simps(2) [of "Suc n"] by (auto simp: parse_json.simps(2) [of n] Let_def)
next
  case (4 n es s)
  show ?case
  proof (cases "parse_string_raw (skip_ws s)")
    case (Some p)
    obtain key s1 where p: "p = (key, s1)" by (cases p)
    show ?thesis
    proof (cases "peek (skip_ws s1) = Some CHR '':''")
      case colon: True
      let ?s2 = "skip_ws (tl (skip_ws s1))"
      have len: "length ?s2 < length s"
        using skip_ws_length [of "tl (skip_ws s1)"] peek_Some_tl [OF colon] skip_ws_length [of s1]
          string_shorter [OF Some [unfolded p]] skip_ws_length [of s] by linarith
      then have pv: "parse_json (Suc n) ?s2 = parse_json n ?s2"
        using "4.IH"(1) [OF Some [unfolded p] refl] colon "4.prems" by simp
      show ?thesis
      proof (cases "parse_json n ?s2")
        case v: (Some q)
        obtain v' s3 where q: "q = (v', s3)" by (cases q)
        have "length (tl (skip_ws s3)) < length s" if "peek (skip_ws s3) = Some c" for c
          using len parser_sound(1) [OF v [unfolded q]] skip_ws_length [of s3] peek_Some_tl [OF that] by linarith
        then have "peek (skip_ws s3) = Some CHR '','' \<Longrightarrow>
            object_loop (Suc n) (es @ [(key, v')]) (tl (skip_ws s3)) = object_loop n (es @ [(key, v')]) (tl (skip_ws s3))"
          using "4.IH"(2) [OF Some [unfolded p] refl _ v [unfolded q] refl refl refl] colon "4.prems" by fastforce
        then show ?thesis
          unfolding object_loop.simps(2) [of "Suc n"] object_loop.simps(2) [of n]
          using Some p colon pv v q by (simp add: Let_def)
      next
        case None
        then show ?thesis
          unfolding object_loop.simps(2) [of "Suc n"] object_loop.simps(2) [of n] using Some p colon pv by simp
      qed
    next
      case False
      then show ?thesis
        unfolding object_loop.simps(2) [of "Suc n"] object_loop.simps(2) [of n] using Some p by simp
    qed
  next
    case None
    then show ?thesis unfolding object_loop.simps(2) [of "Suc n"] object_loop.simps(2) [of n] by simp
  qed
next
  case (6 n vs s)
  have pv: "parse_json (Suc n) (skip_ws s) = parse_json n (skip_ws s)"
    using "6.IH"(1) "6.prems" skip_ws_length [of s] by simp
  show ?case
  proof (cases "parse_json n (skip_ws s)")
    case v: (Some q)
    obtain v' s1 where q: "q = (v', s1)" by (cases q)
    have "length (tl (skip_ws s1)) < length s" if "peek (skip_ws s1) = Some c" for c
      using parser_sound(1) [OF v [unfolded q]] skip_ws_length [of s1] skip_ws_length [of s] peek_Some_tl [OF that] by linarith
    then have "peek (skip_ws s1) = Some CHR '','' \<Longrightarrow>
        array_loop (Suc n) (vs @ [v']) (tl (skip_ws s1)) = array_loop n (vs @ [v']) (tl (skip_ws s1))"
      using "6.IH"(2) [OF v [unfolded q] refl refl refl] "6.prems" by fastforce
    then show ?thesis
      unfolding array_loop.simps(2) [of "Suc n"] array_loop.simps(2) [of n] using pv v q by (simp add: Let_def)
  next
    case None
    then show ?thesis unfolding array_loop.simps(2) [of "Suc n"] array_loop.simps(2) [of n] using pv by simp
  qed
qed simp_all

lemma parse_json_more: "n \<le> m \<Longrightarrow> parse_json n s = Some x \<Longrightarrow> parse_json m s = Some x"
  by (induction m rule: dec_induct) (auto intro: parser_mono(1))

lemma object_loop_more: "n \<le> m \<Longrightarrow> object_loop n es s = Some x \<Longrightarrow> object_loop m es s = Some x"
  by (induction m rule: dec_induct) (auto intro: parser_mono(2))

lemma array_loop_more: "n \<le> m \<Longrightarrow> array_loop n vs s = Some x \<Longrightarrow> array_loop m vs s = Some x"
  by (induction m rule: dec_induct) (auto intro: parser_mono(3))

lemma parse_fuel_enough: "parse_fuel s \<le> n \<Longrightarrow> parse_json n s = parse_json (parse_fuel s) s"
  by (induction n rule: dec_induct) (auto simp: parse_fuel_def parser_fuel(1))

section \<open>Printing and parsing back\<close>

definition value_head :: "char \<Rightarrow> bool" where
  "value_head c \<longleftrightarrow> scalar_head c \<or> c = CHR ''['' \<or> c = CHR ''{''"

lemma value_head_facts: "value_head c \<Longrightarrow> \<not> is_space c \<and> c \<noteq> CHR '']'' \<and> c \<noteq> CHR ''}'' \<and> c \<noteq> CHR '',''"
  by (auto simp: value_head_def scalar_head_def is_space_def is_ascii_digit_def code_point_def Let_def)

lemma scalar_head_facts: "scalar_head c \<Longrightarrow> c \<noteq> CHR ''['' \<and> c \<noteq> CHR ''{''"
  by (auto simp: scalar_head_def is_ascii_digit_def code_point_def Let_def)

lemma print_value_head: "wf_value v \<Longrightarrow> \<exists>c cs. print_value d v = c # cs \<and> value_head c"
proof (cases v)
  case (ScalarValue t)
  assume "wf_value v"
  with ScalarValue show ?thesis using reads_scalar(2) [of t t "[]"] by (auto simp: value_head_def)
qed (auto simp: value_head_def)

lemma skip_ws_head: "\<not> is_space c \<Longrightarrow> skip_ws (c # cs) = c # cs"
  by (simp add: skip_ws_def)

lemma skip_ws_idem [simp]: "skip_ws (skip_ws s) = skip_ws s"
  by (simp add: skip_ws_def)

lemma skip_ws_blank [simp]: "skip_ws (indent d @ s) = skip_ws s" "skip_ws (CHR 0x0A # s) = skip_ws s" "skip_ws (CHR '' '' # s) = skip_ws s"
proof -
  have "is_space (CHR '' '')" by (simp add: is_space_def code_point_def)
  then show "skip_ws (indent d @ s) = skip_ws s" by (induction d) (simp_all add: indent_def skip_ws_def)
qed (simp_all add: skip_ws_def is_space_def code_point_def)

lemma skip_ws_printed [simp]: "wf_value v \<Longrightarrow> skip_ws (print_value d v @ r) = print_value d v @ r"
  using print_value_head [of v d] value_head_facts by (auto simp: skip_ws_head)

lemma array_loop_ws: "skip_ws s = skip_ws s' \<Longrightarrow> array_loop n vs s = array_loop n vs s'"
  by (cases n) (simp_all add: array_loop.simps(2))

lemma object_loop_ws: "skip_ws s = skip_ws s' \<Longrightarrow> object_loop n es s = object_loop n es s'"
  by (cases n) (simp_all add: object_loop.simps(2))

definition ends_value :: "string \<Rightarrow> bool" where
  "ends_value r \<longleftrightarrow> r = [] \<or> peek r = Some CHR '','' \<or> peek r = Some CHR 0x0A"

lemma ends_follows: "ends_value r \<Longrightarrow> follows [] r"
  by (auto simp: ends_value_def follows_def)

lemma printed_parses:
  "wf_value v \<Longrightarrow> ends_value r \<Longrightarrow> \<exists>n. parse_json n (print_value d v @ r) = Some (v, r)"
  "\<forall>v \<in> set vs. wf_value v \<Longrightarrow> vs \<noteq> [] \<Longrightarrow>
     \<exists>n. array_loop n acc (print_items d vs @ indent d @ CHR '']'' # r) = Some (ArrayValue (acc @ vs), r)"
  "wf_value (ObjectValue es) \<Longrightarrow> es \<noteq> [] \<Longrightarrow>
     \<exists>n. object_loop n eacc (print_entries d es @ indent d @ CHR ''}'' # r) = Some (ObjectValue (eacc @ es), r)"
proof (induction d v and d vs and d es arbitrary: r and acc r and eacc r
    rule: print_value_print_items_print_entries.induct)
  case (1 d t)
  then obtain c cs where t: "t = c # cs" "scalar_head c" "parse_scalar (t @ r) = Some (t, r)"
    using reads_scalar(2,3) [of t t "[]"] ends_follows by auto
  then show ?case using scalar_head_facts by (intro exI [of _ "Suc 0"]) (auto simp: parse_json.simps(2))
next
  case (2 d items)
  show ?case
  proof (cases "items = []")
    case True
    have "skip_ws (CHR '']'' # r) = CHR '']'' # r" by (rule skip_ws_head) (simp add: is_space_def code_point_def)
    with True show ?thesis by (intro exI [of _ "Suc 0"]) (simp add: parse_json.simps(2))
  next
    case False
    let ?body = "print_items d items @ indent d @ CHR '']'' # r"
    obtain n where n: "array_loop n [] ?body = Some (ArrayValue items, r)" using 2(1) [of "[]" r] 2(2) False by auto
    obtain w ws where items: "items = w # ws" using False by (cases items) auto
    have "wf_value w" using 2(2) items by simp
    then have "peek (skip_ws ?body) \<noteq> Some CHR '']''"
      using print_value_head [of w "d + 1"] value_head_facts items by auto
    with n False show ?thesis
      by (intro exI [of _ "Suc n"]) (simp add: parse_json.simps(2) array_loop_ws [of "skip_ws ?body" ?body])
  qed
next
  case (3 d entries)
  show ?case
  proof (cases "entries = []")
    case True
    have "skip_ws (CHR ''}'' # r) = CHR ''}'' # r" by (rule skip_ws_head) (simp add: is_space_def code_point_def)
    with True show ?thesis by (intro exI [of _ "Suc 0"]) (simp add: parse_json.simps(2))
  next
    case False
    let ?body = "print_entries d entries @ indent d @ CHR ''}'' # r"
    obtain n where n: "object_loop n [] ?body = Some (ObjectValue entries, r)" using 3(1) [of "[]" r] 3(2) False by auto
    obtain k w ws where entries: "entries = (k, w) # ws" using False by (cases entries) auto
    have "peek k = Some quote" using 3(2) entries string_token(2) [of k k "[]"] by simp
    then have "peek (skip_ws ?body) \<noteq> Some CHR ''}''"
      using entries by (cases k) (auto simp: skip_ws_head is_space_def code_point_def)
    with n False show ?thesis
      by (intro exI [of _ "Suc n"]) (simp add: parse_json.simps(2) object_loop_ws [of "skip_ws ?body" ?body])
  qed
next
  case (5 d v vs)
  let ?rest = "(if vs \<noteq> [] then '','' else []) @ CHR 0x0A # print_items d vs @ indent d @ CHR '']'' # r"
  have "ends_value ?rest" by (simp add: ends_value_def)
  then obtain n where n: "parse_json n (print_value (d + 1) v @ ?rest) = Some (v, ?rest)" using 5(1) [of ?rest] 5(3) by auto
  have close: "skip_ws (CHR '']'' # r) = CHR '']'' # r" by (rule skip_ws_head) (simp add: is_space_def code_point_def)
  have comma: "skip_ws (CHR '','' # x) = CHR '','' # x" for x
    by (rule skip_ws_head) (simp add: is_space_def code_point_def)
  have wf: "wf_value v" using 5(3) by simp
  show ?case
  proof (cases "vs = []")
    case True
    with n wf close show ?thesis by (intro exI [of _ "Suc n"]) (simp add: array_loop.simps(2))
  next
    case False
    let ?more = "print_items d vs @ indent d @ CHR '']'' # r"
    obtain m where m: "array_loop m (acc @ [v]) ?more = Some (ArrayValue (acc @ v # vs), r)"
      using 5(2) [of "acc @ [v]" r] 5(3) False by auto
    have "parse_json (max n m) (print_value (d + 1) v @ ?rest) = Some (v, ?rest)"
      by (rule parse_json_more [OF _ n]) simp
    moreover have "array_loop (max n m) (acc @ [v]) (CHR 0x0A # ?more) = Some (ArrayValue (acc @ v # vs), r)"
      using array_loop_more [OF _ m, of "max n m"] by (simp add: array_loop_ws [of "CHR 0x0A # ?more" ?more])
    ultimately show ?thesis
      using False wf comma by (intro exI [of _ "Suc (max n m)"]) (simp add: array_loop.simps(2))
  qed
next
  case (7 d key v es)
  let ?rest = "(if es \<noteq> [] then '','' else []) @ CHR 0x0A # print_entries d es @ indent d @ CHR ''}'' # r"
  have "ends_value ?rest" by (simp add: ends_value_def)
  then obtain n where n: "parse_json n (print_value (d + 1) v @ ?rest) = Some (v, ?rest)" using 7(1) [of ?rest] 7(3) by auto
  have close: "skip_ws (CHR ''}'' # r) = CHR ''}'' # r" by (rule skip_ws_head) (simp add: is_space_def code_point_def)
  have plain: "skip_ws (CHR '','' # x) = CHR '','' # x" "skip_ws (CHR '':'' # x) = CHR '':'' # x" for x
    by (rule skip_ws_head, simp add: is_space_def code_point_def)+
  have wf: "wf_value v" and key: "parse_string_raw key = Some (key, [])" using 7(3) by auto
  obtain cs where k: "key = quote # cs" using string_token(2) [OF key] by (cases key) auto
  have key_ws: "skip_ws (key @ x) = key @ x" for x
    unfolding k append_Cons by (rule skip_ws_head) (simp add: is_space_def code_point_def)
  note facts = key_ws string_token(3) [OF key] plain close wf
  show ?case
  proof (cases "es = []")
    case True
    with n facts show ?thesis by (intro exI [of _ "Suc n"]) (simp add: object_loop.simps(2))
  next
    case False
    let ?more = "print_entries d es @ indent d @ CHR ''}'' # r"
    obtain m where m: "object_loop m (eacc @ [(key, v)]) ?more = Some (ObjectValue (eacc @ (key, v) # es), r)"
      using 7(2) [of "eacc @ [(key, v)]" r] 7(3) False by auto
    have "parse_json (max n m) (print_value (d + 1) v @ ?rest) = Some (v, ?rest)"
      by (rule parse_json_more [OF _ n]) simp
    moreover have "object_loop (max n m) (eacc @ [(key, v)]) (CHR 0x0A # ?more) = Some (ObjectValue (eacc @ (key, v) # es), r)"
      using object_loop_more [OF _ m, of "max n m"] by (simp add: object_loop_ws [of "CHR 0x0A # ?more" ?more])
    ultimately show ?thesis
      using False facts by (intro exI [of _ "Suc (max n m)"]) (simp add: object_loop.simps(2))
  qed
qed simp_all

lemma parse_json_at_fuel: "parse_json n s = Some x \<Longrightarrow> parse_json (parse_fuel s) s = Some x"
  using parse_json_more [of n "max n (parse_fuel s)" s x] parse_fuel_enough [of s "max n (parse_fuel s)"] by simp

lemma json_parse_printed:
  assumes "wf_value v"
  shows "json_parse (print_value d v) = Some v"
proof -
  obtain n where "parse_json n (print_value d v @ []) = Some (v, [])"
    using printed_parses(1) [OF assms, of "[]" d] by (auto simp: ends_value_def)
  then have "parse_json (parse_fuel (print_value d v)) (print_value d v) = Some (v, [])"
    by (intro parse_json_at_fuel) simp
  then show ?thesis using skip_ws_printed [OF assms, of d "[]"] by (simp add: json_parse_def skip_ws_def)
qed

lemma json_parse_wf: "json_parse s = Some v \<Longrightarrow> wf_value v"
  using parser_sound(1) by (auto simp: json_parse_def split: option.splits if_splits)

lemma json_format_sound:
  assumes "json_format s = Some out"
  shows "json_parse out = json_parse s" "json_format out = Some out"
proof -
  obtain v where v: "json_parse s = Some v" "out = print_value 0 v" using assms by (auto simp: json_format_def)
  have "json_parse out = Some v" unfolding v(2) by (rule json_parse_printed [OF json_parse_wf [OF v(1)]])
  with v show "json_parse out = json_parse s" "json_format out = Some out" by (simp_all add: json_format_def)
qed

text \<open>
  C32. Formatting JSON changes nothing but white space. Text that is formatted parses before and after
  to the same value (with the same keys in the same order and every number and string as written),
  formatting the result again gives the same text, and the parser's fuel is enough: no text is
  rejected for want of it.
\<close>

theorem json_format_preserves:
  assumes "json_format s = Some out"
  shows "json_parse out = json_parse s \<and> json_format out = Some out \<and>
    (\<forall>n. parse_fuel (skip_ws s) \<le> n \<longrightarrow> parse_json n (skip_ws s) = parse_json (parse_fuel s) (skip_ws s))"
proof (intro conjI allI impI)
  show "json_parse out = json_parse s" "json_format out = Some out" by (fact json_format_sound [OF assms])+
  fix n assume n: "parse_fuel (skip_ws s) \<le> n"
  have "parse_fuel (skip_ws s) \<le> parse_fuel s" using skip_ws_length [of s] by (simp add: parse_fuel_def)
  from parse_fuel_enough [OF n] parse_fuel_enough [OF this]
  show "parse_json n (skip_ws s) = parse_json (parse_fuel s) (skip_ws s)" by (rule trans [OF _ sym])
qed

definition sample_value :: json_value where
  "sample_value = ArrayValue [ScalarValue ''1'', ObjectValue []]"

theorem json_format_preserves_witness:
  "json_format (print_value 3 sample_value) = Some (print_value 0 sample_value) \<and>
   json_parse (print_value 0 sample_value) = json_parse (print_value 3 sample_value)"
proof -
  have "parse_scalar ''1'' = Some (''1'', [])"
    by (simp add: parse_scalar_def parse_number_raw_def number_integer_def number_fraction_def number_exponent_def
        skip_digits_def is_ascii_digit_def code_point_def consumed_def)
  then have "json_format (print_value 3 sample_value) = Some (print_value 0 sample_value)"
    using json_parse_printed [of sample_value 3] by (simp add: sample_value_def json_format_def)
  with json_format_preserves [OF this] show ?thesis by blast
qed

end
