(* ===== verification/Code_Editor_Format.thy ===== *)
theory Code_Editor_Format
  imports Code_Editor_Properties Json_Format_Properties
begin

text \<open>
  The formatter dispatch (\<^verbatim>\<open>ferrowl-syntax/src/format/mod.rs\<close>) and what formatting on blur does to a
  JSON editor. The Lua re-indenter is an argument.
\<close>

definition format_source :: "(string \<Rightarrow> string) \<Rightarrow> language \<Rightarrow> string \<Rightarrow> string option" where
  "format_source lua lang source =
     (case lang of
        Json \<Rightarrow> json_format source
      | Lua \<Rightarrow> Some (lua source)
      | Markdown \<Rightarrow> None
      | Diff \<Rightarrow> None)"

lemma content_set_content:
  assumes "set_content s ed = Some ed'"
  shows "content ed' = s" "ed_language ed' = ed_language ed" "ed_disabled ed' = ed_disabled ed" "ed_focused ed' = ed_focused ed"
  using assms str_split_not_Nil [of newline s] join_split [of newline s]
  by (auto simp: set_content_def content_def clamp_normal_def Let_def Option.bind_eq_Some_conv split: if_splits)

lemma set_focused_content:
  assumes "ed_language ed = Some lang" "set_focused sx False ed = Some ed'"
  shows "content ed' = (if ed_focused ed \<and> \<not> ed_disabled ed
      then (case syntax_format sx lang (content ed) of Some new \<Rightarrow> new | None \<Rightarrow> content ed) else content ed)"
    "ed_language ed' = Some lang" "ed_disabled ed' = ed_disabled ed" "\<not> ed_focused ed'"
proof -
  let ?fmt = "ed_focused ed \<and> \<not> ed_disabled ed"
  let ?ed1 = "if ?fmt then (case syntax_format sx lang (content ed) of None \<Rightarrow> Some ed
      | Some new \<Rightarrow> if new \<noteq> content ed then set_content new ed else Some ed) else Some ed"
  obtain ed1 where ed1: "?ed1 = Some ed1"
    and ed': "ed' = ed1\<lparr>ed_mode := Normal, ed_visual_anchor := None, ed_pending := None, ed_focused := False\<rparr>"
    using assms by (auto simp: set_focused_def Option.bind_eq_Some_conv split: if_splits)
  have "content ed1 = (if ?fmt then (case syntax_format sx lang (content ed) of Some new \<Rightarrow> new | None \<Rightarrow> content ed)
      else content ed) \<and> ed_language ed1 = Some lang \<and> ed_disabled ed1 = ed_disabled ed"
    using ed1 assms(1) content_set_content by (auto split: if_splits option.splits)
  then show "content ed' = (if ?fmt then (case syntax_format sx lang (content ed) of Some new \<Rightarrow> new | None \<Rightarrow> content ed)
      else content ed)" "ed_language ed' = Some lang" "ed_disabled ed' = ed_disabled ed" "\<not> ed_focused ed'"
    unfolding ed' by (auto simp: content_def)
qed

text \<open>
  C33. Leaving a JSON editor keeps its JSON. When an editor loses the focus, its text parses to the same
  value as before, or is untouched when it is not valid JSON; and however often it is left again, its
  text does not change any more.
\<close>

theorem blur_keeps_json:
  assumes "ed_inv ed" "ed_language ed = Some Json" "syntax_format sx = format_source lua"
  shows "\<exists>ed1 ed2. set_focused sx False ed = Some ed1 \<and> json_parse (content ed1) = json_parse (content ed) \<and>
    (json_parse (content ed) = None \<longrightarrow> content ed1 = content ed) \<and>
    editor_run sx [Focus True, Focus False] ed1 = Some ed2 \<and>
    (ed_focused ed \<longrightarrow> content ed2 = content ed1)"
proof -
  obtain ed1 where ed1: "set_focused sx False ed = Some ed1" "ed_inv ed1"
    using set_focused_kept [OF assms(1)] by (auto simp: runs_iff kept_def)
  have fmt: "syntax_format sx Json = json_format" using assms(3) by (simp add: format_source_def fun_eq_iff)
  note c1 = set_focused_content [OF assms(2) ed1(1), unfolded fmt]
  obtain eda where eda: "set_focused sx True ed1 = Some eda" "ed_inv eda" "ed_focused eda" "content eda = content ed1"
      "ed_language eda = Some Json" "ed_disabled eda = ed_disabled ed1"
    using ed1(2) c1(2) by (auto simp: set_focused_def content_def ed_inv_def)
  obtain ed2 where ed2: "set_focused sx False eda = Some ed2"
    using set_focused_kept [OF eda(2)] by (auto simp: runs_iff)
  note c2 = set_focused_content(1) [OF eda(5) ed2, unfolded fmt]
  have "json_parse (content ed1) = json_parse (content ed)" "json_parse (content ed) = None \<longrightarrow> content ed1 = content ed"
    using c1(1) json_format_sound(1) [of "content ed"] by (auto simp: json_format_def split: if_splits option.splits)
  moreover have "content ed2 = content ed1" if "ed_focused ed"
    using c1(1,3) c2 eda that json_format_sound(2) [of "content ed"] by (auto split: if_splits option.splits)
  ultimately show ?thesis using ed1 eda ed2 by auto
qed

theorem blur_keeps_json_witness:
  "\<exists>ed1. set_focused \<lparr>indent_delta = (\<lambda>_ _. 0), syntax_format = format_source (\<lambda>s. s)\<rparr> False
       (editor_new (Some Json) True False) = Some ed1 \<and> json_parse (content ed1) = json_parse []"
  using blur_keeps_json [OF ed_inv_new [of "Some Json" True False],
      of "\<lparr>indent_delta = (\<lambda>_ _. 0), syntax_format = format_source (\<lambda>s. s)\<rparr>" "\<lambda>s. s"]
  by (auto simp: editor_new_def content_def)

end
