(* ===== verification/Spec2Isabelle.thy ===== *)
theory Spec2Isabelle
  imports Codec_Properties Ring_Buffer Modbus_Serve_Properties Modbus_Client_Properties
    Monitor_Properties Bridge_Properties Ocpp_Actions Code_Editor_Edits Code_Editor_Format
begin

text \<open>
  A verification library for ferrowl, a terminal application that simulates and observes Modbus
  devices and OCPP charging stations and central systems.

  \<^bold>\<open>The program.\<close> A device's registers live in a store of cells (\<^verbatim>\<open>ferrowl-store\<close>). A codec turns
  register words into typed values and back (\<^verbatim>\<open>ferrowl-codec\<close>). Modbus server tasks answer requests
  from the store, client tasks poll devices into it, a monitor watches a serial bus and rebuilds
  the values it sees, and a bridge relays requests between links (\<^verbatim>\<open>ferrowl-modbus\<close>). The OCPP
  crate (\<^verbatim>\<open>ferrowl-ocpp\<close>) frames messages, correlates calls with replies and runs both roles of the
  protocol. All long-running tasks share a retry driver (\<^verbatim>\<open>ferrowl-util\<close>), and their logs go to ring
  buffers (\<^verbatim>\<open>ferrowl-ring\<close>).

  \<^bold>\<open>Conventions.\<close> A panic is \<open>None\<close>, a returned error the left side of a sum, a \<open>usize\<close> a natural
  number with checked addition and subtraction, and the other integers are words of their width
  (\<open>Prelude\<close>). State is passed explicitly in records with the fields of the source's structs. Log
  lines are values of a datatype whose constructors stand for the messages of the source. Events
  that arrive from outside (frames, commands, timeouts, results of socket operations) are lists or
  step labels, so that a theorem about every list or every run is a theorem about every
  environment. Code of third-party crates is a record of functions (\<open>lib\<close>, \<open>device\<close>,
  \<open>framing\<close>, \<open>serde\<close>, \<open>message_lib\<close>); what a theorem needs of it is a named hypothesis, and the
  theorem's witness instantiates it.

  \<^bold>\<open>Register store\<close> (\<^verbatim>\<open>ferrowl-store/src\<close>). \<open>Store_Range\<close>, \<open>Store_Cell\<close> and \<open>Store_Slice\<close> model
  \<^verbatim>\<open>range.rs\<close>, \<^verbatim>\<open>cell.rs\<close> and \<^verbatim>\<open>slice.rs\<close>; \<open>Store_Memory\<close> models \<open>Memory\<close> of \<^verbatim>\<open>memory.rs\<close> over the
  ordered map of \<open>Ordered_Map\<close>. \<open>Store_Walk\<close> computes what the slice walks do on the abstraction
  of a slice map to a partial function from addresses to cells; \<open>Store_Declare\<close> does the same for
  declarations. \<open>Store_Ops\<close> holds the locale \<open>register_store\<close>, the contract the Modbus tasks rely
  on, and its interpretation on the model. \<open>Store_Properties\<close> shows that declarations refine their
  specification, that slices never overlap, that no operation on a reachable store panics, and what
  reads and writes return, change and report.

  \<^bold>\<open>Codec\<close> (\<^verbatim>\<open>ferrowl-codec/src\<close>). \<open>Codec_Format\<close> has the formats, bit fields and values, \<open>Codec\<close> the
  decoding, encoding, parsing, masking and merging of \<^verbatim>\<open>codec.rs\<close> and \<open>Register\<close>, \<open>Codec_Bits\<close> the
  bit-level facts. \<open>Codec_Properties\<close> shows the round trips in every byte and register order and for
  every bit field, that a merged write isolates neighbouring registers, and that displayed
  hexadecimal text parses back.

  \<^bold>\<open>Shared services.\<close> \<open>Ring_Buffer\<close> models \<^verbatim>\<open>ferrowl-ring/src/lib.rs\<close> and shows that it refines a
  bounded queue. \<open>Backoff\<close> models \<^verbatim>\<open>ferrowl-util/src/backoff.rs\<close> with the environment's attempts and
  commands as lists and shows when the driver ends, how long it waits and that an abortable wait
  ends by its deadline. \<open>Util_Path\<close> models the expansion of a leading tilde.

  \<^bold>\<open>Modbus\<close> (\<^verbatim>\<open>ferrowl-modbus/src\<close>). \<open>Modbus_Types\<close> has the vocabulary; \<open>Modbus_Server\<close> the request
  handlers and \<open>Modbus_Serve\<close> the tasks of \<^verbatim>\<open>server_core.rs\<close> and \<^verbatim>\<open>udp/server.rs\<close>; \<open>Modbus_Client\<close> the
  reads, the round-robin poll, the commands and the tasks of \<^verbatim>\<open>client_core.rs\<close> and \<^verbatim>\<open>udp/client.rs\<close>;
  \<open>Monitor\<close> the tasks of \<^verbatim>\<open>monitor/\<close>; \<open>Bridge\<close> those of \<^verbatim>\<open>bridge/\<close>, where forwarding requests and the
  reconnector interleave as a step relation. The \<open>_Properties\<close> theories show that requests refine a
  specification on the abstract store, that slaves do not interfere, that every operation is polled
  and every polled value served, that commands run in order, that tasks settle in a clean state,
  that the monitor computes exactly the transactions on the bus, and that a downstream link is never
  abandoned.

  \<^bold>\<open>OCPP\<close> (\<^verbatim>\<open>ferrowl-ocpp/src\<close>). \<open>Ocpp_Message\<close> models the envelopes of \<^verbatim>\<open>ocppj/\<close> on JSON values;
  \<open>Ocpp_Connection\<close> the correlation table and the tasks of a connection (\<^verbatim>\<open>correlation.rs\<close>, \<^verbatim>\<open>conn.rs\<close>,
  \<^verbatim>\<open>cs/core.rs\<close>) as an interleaving step relation; \<open>Ocpp_Actions\<close> the version tables of \<^verbatim>\<open>action/\<close>. The
  properties are that messages round-trip, that every awaited call and every inbound call is
  answered at most once and only by its own reply, that a connection can always be brought to its
  end, and that an action crosses the wire unchanged.

  \<^bold>\<open>Editor\<close> (\<^verbatim>\<open>ferrowl-ui/src/state\<close>, \<^verbatim>\<open>ferrowl-syntax/src/format\<close>). \<open>Vim\<close> models the word motions, the base64
  encoder and the clipboard sequence of \<^verbatim>\<open>vim.rs\<close>; \<open>Code_Editor\<close> the whole of
  \<^verbatim>\<open>code_input_field.rs\<close>, with keys, focus changes and content replacements as its events;
  \<open>Json_Format\<close> the parser and printer of \<^verbatim>\<open>format/json.rs\<close>. \<open>Vim_Properties\<close> shows that the motions
  return; \<open>Code_Editor_Properties\<close> that no run of an editable editor panics, by a calculus of
  postconditions (\<open>runs\<close>) over every key handler, and exactly when a read-only one does;
  \<open>Code_Editor_Edits\<close> that undo and paste restore the text; \<open>Json_Format_Properties\<close> that formatting
  changes only white space; \<open>Code_Editor_Format\<close> that leaving an editor keeps its JSON. \<open>Str_Util\<close>
  has the string functions of the standard library these and the bridge use.

  \<^bold>\<open>Bounds.\<close> Loops of the program that end by their data are total functions. Loops that end only
  by an event consume the list of events, and the result says whether the list ran out; the
  liveness theorems state which events make them return. Only the JSON parser has fuel,
  \<open>parse_fuel\<close>, twice the length of the text plus one; \<open>json_format_preserves\<close> shows that more fuel
  never changes its result. The text of the editor consists of the characters of the type \<open>char\<close>,
  the first 256 code points.

  \<^bold>\<open>Not modelled.\<close> Sockets, serial ports, clocks, TLS and the spawning of tasks are inputs of the
  model. The thin transport wrappers of \<^verbatim>\<open>ferrowl-modbus\<close> only choose a framing and start the
  modelled cores. Floating-point formatting, JSON text and the OCPP payload types belong to
  libraries. Rendering and the other widgets of \<^verbatim>\<open>ferrowl-ui\<close>, the Lua bindings, syntax colouring,
  Lua formatting and the application's views and configuration files are not modelled.
\<close>

end
